(* ===== verification/Prelude.thy ===== *)
theory Prelude
  imports Main
begin

text \<open>
  Shared vocabulary of the development: the named collections that the component
  theories fill with their unfolding rules, the type names of the model, and generic
  lemmas on lists, options and maps that several components use.
\<close>

named_theorems model_defs "unfolding rules of the modelled operations"
named_theorems rt_simps "simplification rules for the JavaScript runtime tables"

type_synonym handle = nat \<comment> \<open>a \<open>setInterval\<close> handle; browsers hand out positive integers\<close>
type_synonym poll_id = nat \<comment> \<open>an outstanding \<open>fetch\<close> of a status query\<close>
type_synonym obj_ref = nat \<comment> \<open>identity of a heap object (a \<open>ProgressTracker\<close>)\<close>

subsection \<open>Decimal digits and joining\<close>

text \<open>The decimal rendering JavaScript uses for non-negative integers, its inverse, and \<open>Array.prototype.join\<close> on strings.\<close>

fun decimal :: "nat \<Rightarrow> string" where
  "decimal n = (if n < 10 then [''0123456789'' ! n]
                else decimal (n div 10) @ [''0123456789'' ! (n mod 10)])"

definition digit_val :: "char \<Rightarrow> nat" where
  "digit_val c = of_char c - 48"

fun undecimal :: "string \<Rightarrow> nat" where
  "undecimal [] = 0"
| "undecimal (c # cs) = digit_val c * 10 ^ length cs + undecimal cs"

fun join_with :: "string \<Rightarrow> string list \<Rightarrow> string" where
  "join_with sep [] = []"
| "join_with sep [x] = x"
| "join_with sep (x # xs) = x @ sep @ join_with sep xs"

declare decimal.simps [simp del]

subsection \<open>Lemmas on digits\<close>

lemma digit_char_val: "d < 10 \<Longrightarrow> digit_val (''0123456789'' ! d) = d"
proof -
  assume "d < 10"
  then have "d \<in> {0, 1, 2, 3, 4, 5, 6, 7, 8, 9}" by auto
  then show ?thesis by (auto simp: digit_val_def)
qed

lemma undecimal_append: "undecimal (xs @ ys) = undecimal xs * 10 ^ length ys + undecimal ys"
  by (induction xs) (simp_all add: algebra_simps power_add)

lemma decimal_nonempty: "decimal n \<noteq> []"
  by (subst decimal.simps) simp

lemma length_decimal_small: "n < 10 \<Longrightarrow> length (decimal n) = 1"
  by (subst decimal.simps) simp

lemma undecimal_decimal: "undecimal (decimal n) = n"
proof (induction n rule: decimal.induct)
  case (1 n)
  show ?case
  proof (cases "n < 10")
    case True
    then show ?thesis by (subst decimal.simps) (simp add: digit_char_val)
  next
    case False
    with "1.IH" have "undecimal (decimal (n div 10)) = n div 10" by simp
    with False show ?thesis
      by (subst decimal.simps) (simp add: undecimal_append digit_char_val)
  qed
qed

subsection \<open>Association lists and maps used as runtime tables\<close>

text \<open>Removing the one entry of key \<open>p\<close> from an association list with distinct keys.\<close>

lemma count_drop_key:
  assumes "distinct (map fst xs)" and "map_of xs p = Some i"
  shows "length (filter (\<lambda>x. snd x = j) xs) =
         length (filter (\<lambda>x. snd x = j) (filter (\<lambda>x. fst x \<noteq> p) xs)) + (if j = i then 1 else 0)"
  using assms
proof (induction xs)
  case Nil
  then show ?case by simp
next
  case (Cons x xs)
  obtain a b where x: "x = (a, b)" by fastforce
  show ?case
  proof (cases "a = p")
    case True
    with Cons.prems x have b: "b = i" and notin: "p \<notin> fst ` set xs" by auto
    from notin have "filter (\<lambda>x. fst x \<noteq> p) xs = xs" by (simp add: filter_id_conv) force
    with True x b show ?thesis by simp
  next
    case False
    with Cons.prems x have "distinct (map fst xs)" "map_of xs p = Some i" by auto
    then have "length (filter (\<lambda>x. snd x = j) xs) =
         length (filter (\<lambda>x. snd x = j) (filter (\<lambda>x. fst x \<noteq> p) xs)) + (if j = i then 1 else 0)"
      by (rule Cons.IH)
    with False x show ?thesis by (cases "j = i") simp_all
  qed
qed

lemma map_upd_other [rt_simps]: "k \<noteq> k' \<Longrightarrow> (m(k := v)) k' = m k'"
  by simp

lemma ran_upd_None_subset: "ran (m(k := None)) \<subseteq> ran m"
  by (auto simp: ran_def)

end
