(* ===== verification/Js.thy ===== *)
theory Js
  imports Prelude
begin

text \<open>
  The part of JavaScript's semantics the sources rely on, as HOL values: the values a
  JSON body or an object literal can hold (\<open>jsval\<close>), the errors the code can throw
  (\<open>js_error\<close>), truthiness and \<open>||\<close>, property reads (which throw on \<open>null\<close> and
  \<open>undefined\<close>), \<open>String(v)\<close>, the DOM's \<open>textContent\<close> setter, \<open>String.prototype.trim\<close>
  and what \<open>JSON.stringify\<close> puts on the wire. Numbers are integers: every number the
  modelled code reads is a count or an id; the fractional numbers of \<open>ui.js\<close>'s
  formatters are outside the model.
\<close>

datatype jsval =
    JUndef
  | JNull
  | JBool bool
  | JNum int
  | JStr string
  | JArr "jsval list"
  | JObj "(string \<times> jsval) list"

datatype js_error = Error string | TypeError string | SyntaxError string

text \<open>\<open>error.message\<close>: every error the modelled code throws or catches carries one.\<close>

fun err_message :: "js_error \<Rightarrow> string" where
  "err_message (Error m) = m"
| "err_message (TypeError m) = m"
| "err_message (SyntaxError m) = m"

subsection \<open>Truthiness and \<open>||\<close>\<close>

fun js_truthy :: "jsval \<Rightarrow> bool" where
  "js_truthy JUndef = False"
| "js_truthy JNull = False"
| "js_truthy (JBool b) = b"
| "js_truthy (JNum n) = (n \<noteq> 0)"
| "js_truthy (JStr s) = (s \<noteq> [])"
| "js_truthy (JArr xs) = True"
| "js_truthy (JObj fs) = True"

definition js_or :: "jsval \<Rightarrow> jsval \<Rightarrow> jsval" where
  "js_or a b = (if js_truthy a then a else b)"

subsection \<open>Property reads\<close>

text \<open>
  \<open>v.k\<close>: the first binding of \<open>k\<close> of an object (an object literal has one), \<open>length\<close>
  of an array, \<open>undefined\<close> otherwise; on \<open>null\<close> and \<open>undefined\<close> the read throws a
  \<open>TypeError\<close> (the message is V8's).
\<close>

definition read_error :: "string \<Rightarrow> string \<Rightarrow> js_error" where
  "read_error what k = TypeError (''Cannot read properties of '' @ what @ '' (reading '' @ [CHR 0x27] @ k @ [CHR 0x27] @ '')'')"

fun js_get :: "jsval \<Rightarrow> string \<Rightarrow> js_error + jsval" where
  "js_get JUndef k = Inl (read_error ''undefined'' k)"
| "js_get JNull k = Inl (read_error ''null'' k)"
| "js_get (JObj fs) k = Inr (case map_of fs k of None \<Rightarrow> JUndef | Some v \<Rightarrow> v)"
| "js_get (JArr xs) k = Inr (if k = ''length'' then JNum (int (length xs)) else JUndef)"
| "js_get (JStr s) k = Inr (if k = ''length'' then JNum (int (length s)) else JUndef)"
| "js_get v k = Inr JUndef"

text \<open>
  A read the caller knows cannot throw (the value was already read from successfully).
\<close>

definition js_prop :: "jsval \<Rightarrow> string \<Rightarrow> jsval" where
  "js_prop v k = (case js_get v k of Inl e \<Rightarrow> JUndef | Inr x \<Rightarrow> x)"

subsection \<open>Conversion to strings\<close>

definition int_string :: "int \<Rightarrow> string" where
  "int_string i = (if i < 0 then ''-'' @ decimal (nat (- i)) else decimal (nat i))"

text \<open>\<open>String(v)\<close>, also what a template literal \<open>`${v}`\<close> inserts.\<close>

fun js_string :: "jsval \<Rightarrow> string" where
  "js_string JUndef = ''undefined''"
| "js_string JNull = ''null''"
| "js_string (JBool b) = (if b then ''true'' else ''false'')"
| "js_string (JNum n) = int_string n"
| "js_string (JStr s) = s"
| "js_string (JArr xs) =
     join_with '','' (map (\<lambda>x. if x = JUndef \<or> x = JNull then [] else js_string x) xs)"
| "js_string (JObj fs) = ''[object Object]''"

text \<open>
  \<open>el.textContent = v\<close>: the attribute is a nullable \<open>DOMString\<close>, so \<open>null\<close> and
  \<open>undefined\<close> both clear the text; anything else is converted by \<open>String\<close>.
\<close>

definition dom_text :: "jsval \<Rightarrow> string" where
  "dom_text v = (if v = JNull \<or> v = JUndef then [] else js_string v)"

subsection \<open>\<open>String.prototype.trim\<close>\<close>

definition js_space :: "char \<Rightarrow> bool" where
  "js_space c \<longleftrightarrow> of_char c \<in> {9, 10, 11, 12, 13, 32 :: nat}"

definition js_trim :: "string \<Rightarrow> string" where
  "js_trim s = rev (dropWhile js_space (rev (dropWhile js_space s)))"

subsection \<open>\<open>JSON.stringify\<close> as the server reads it\<close>

text \<open>
  Members whose value is \<open>undefined\<close> are left out of an object; \<open>undefined\<close> in an
  array becomes \<open>null\<close>. The result is the value the server parses.
\<close>

fun json_wire :: "jsval \<Rightarrow> jsval" where
  "json_wire (JArr xs) = JArr (map (\<lambda>x. if x = JUndef then JNull else json_wire x) xs)"
| "json_wire (JObj fs) = JObj (map (\<lambda>kv. (fst kv, json_wire (snd kv))) (filter (\<lambda>kv. snd kv \<noteq> JUndef) fs))"
| "json_wire v = v"

text \<open>
  The values JSON can carry: no \<open>undefined\<close> anywhere (numbers here are the model's
  integers, which \<open>JSON.stringify\<close> writes as they are).
\<close>

fun json_value :: "jsval \<Rightarrow> bool" where
  "json_value JUndef = False"
| "json_value (JArr xs) = (\<forall>x \<in> set xs. json_value x)"
| "json_value (JObj fs) = (\<forall>kv \<in> set fs. json_value (snd kv))"
| "json_value v = True"

lemma js_get_defined: "v \<noteq> JNull \<Longrightarrow> v \<noteq> JUndef \<Longrightarrow> js_get v k = Inr (js_prop v k)"
  by (cases v) (simp_all add: js_prop_def)

lemma js_get_Inr_defined: "js_get v k = Inr x \<Longrightarrow> v \<noteq> JNull \<and> v \<noteq> JUndef"
  by (cases v) simp_all

text \<open>What \<open>JSON.stringify\<close> sends has no \<open>undefined\<close> left, however deeply nested.\<close>

lemma json_wire_json: "v \<noteq> JUndef \<Longrightarrow> json_value (json_wire v)"
  by (induction v rule: json_wire.induct) auto

end
