(* ===== verification/Config.thy ===== *)
theory Config
  imports Js
begin

text \<open>
  The frozen \<open>CONFIG\<close> object. The repository has two copies: \<open>src/unnamed/part_000\<close>
  (a fixed local backend) and \<open>src/frontend/js/config.js\<close> (which picks the backend from
  \<open>window.location.hostname\<close>). \<open>Object.freeze\<close> makes the object a constant, which
  is what a HOL constant is. The two copies agree on every field but \<open>API_BASE_URL\<close>.
\<close>

record endpoints =
  INFO :: string
  DOWNLOAD :: string
  PROGRESS :: string
  FILE :: string
  DOWNLOADS :: string
  CLEANUP :: string
  STATS :: string
  HEALTH :: string

record download_types =
  VIDEO :: string
  AUDIO :: string

record features =
  AUTO_REFRESH_STATS :: bool
  SHOW_THUMBNAILS :: bool
  ENABLE_HISTORY :: bool

record config =
  API_BASE_URL :: string
  ENDPOINTS :: endpoints
  PROGRESS_POLL_INTERVAL :: nat
  TOAST_DURATION :: nat
  MAX_URL_LENGTH :: nat
  DOWNLOAD_TYPES :: download_types
  DEFAULT_VIDEO_QUALITY :: string
  DEFAULT_AUDIO_FORMAT :: string
  VIDEO_QUALITIES :: "(string \<times> string) list"
  FEATURES :: features

definition config_fields :: "string \<Rightarrow> config" where
  "config_fields base = \<lparr>
     API_BASE_URL = base,
     ENDPOINTS = \<lparr>INFO = ''/api/info'', DOWNLOAD = ''/api/download'',
                  PROGRESS = ''/api/progress'', FILE = ''/api/file'',
                  DOWNLOADS = ''/api/downloads'', CLEANUP = ''/api/cleanup'',
                  STATS = ''/api/stats'', HEALTH = ''/health''\<rparr>,
     PROGRESS_POLL_INTERVAL = 1000,
     TOAST_DURATION = 3000,
     MAX_URL_LENGTH = 2048,
     DOWNLOAD_TYPES = \<lparr>VIDEO = ''video'', AUDIO = ''audio''\<rparr>,
     DEFAULT_VIDEO_QUALITY = ''best'',
     DEFAULT_AUDIO_FORMAT = ''mp3'',
     VIDEO_QUALITIES = [(''best'', ''Best Quality''), (''1080'', ''1080p (Full HD)''),
                        (''720'', ''720p (HD)''), (''480'', ''480p (SD)''), (''360'', ''360p'')],
     FEATURES = \<lparr>AUTO_REFRESH_STATS = True, SHOW_THUMBNAILS = True, ENABLE_HISTORY = True\<rparr>\<rparr>"

text \<open>\<open>src/unnamed/part_000\<close>: the configuration the controller is checked against.\<close>

definition CONFIG :: config where
  "CONFIG = config_fields ''http://localhost:5000''"

text \<open>\<open>src/frontend/js/config.js\<close>: \<open>isLocal\<close> decides the backend.\<close>

definition is_local :: "string \<Rightarrow> bool" where
  "is_local hostname \<longleftrightarrow> hostname = ''localhost'' \<or> hostname = ''127.0.0.1''"

definition CONFIG_frontend :: "string \<Rightarrow> config" where
  "CONFIG_frontend hostname =
     config_fields (if is_local hostname then ''http://localhost:5000''
                    else ''https://youtube-downloader-api-r0za.onrender.com'')"

lemmas config_simps [model_defs] = CONFIG_def config_fields_def


lemma config_frontend_local: "is_local h \<Longrightarrow> CONFIG_frontend h = CONFIG"
  by (simp add: CONFIG_frontend_def CONFIG_def)

end
