(* ===== verification/Api.thy ===== *)
theory Api
  imports Config
begin

text \<open>
  The \<open>API\<close> object of \<open>src/frontend2/js/api.js\<close> (lines 5--112): the requests each
  method issues and how \<open>API.get\<close>/\<open>API.post\<close> turn what \<open>fetch\<close> produced into a
  value or a thrown error. A request is its URL and, for a POST, the JSON value the
  server parses from \<open>JSON.stringify(data)\<close>. What \<open>fetch\<close> produced is a
  \<open>fetch_result\<close>: a rejected \<open>fetch\<close> (a \<open>TypeError\<close> with the browser's message),
  or a response with its \<open>ok\<close> flag and the outcome of \<open>response.json()\<close> (a
  \<open>SyntaxError\<close> message when the body is no JSON).
\<close>

datatype request = Get string | Post string jsval

datatype fetch_result = NetFail string | Resp bool "string + jsval"

subsection \<open>\<open>API.get\<close> and \<open>API.post\<close>\<close>

definition api_get :: "string \<Rightarrow> request" where
  "api_get endpoint = Get (API_BASE_URL CONFIG @ endpoint)"

definition api_post :: "string \<Rightarrow> jsval \<Rightarrow> request" where
  "api_post endpoint data = Post (API_BASE_URL CONFIG @ endpoint) (json_wire data)"

text \<open>
  The shared body of both methods after the request: a rejected \<open>fetch\<close> propagates its
  \<open>TypeError\<close>; a response that is not \<open>ok\<close> throws \<open>new Error(error.error ||
  'Request failed')\<close>, where reading \<open>error.error\<close> itself throws on a \<open>null\<close> body;
  an unparsable body throws the \<open>SyntaxError\<close> of \<open>response.json()\<close>. The
  \<open>catch\<close> only logs and rethrows.
\<close>

definition api_response :: "fetch_result \<Rightarrow> js_error + jsval" where
  "api_response r =
     (case r of
        NetFail m \<Rightarrow> Inl (TypeError m)
      | Resp ok body \<Rightarrow>
          (if \<not> ok then
             (case body of
                Inl m \<Rightarrow> Inl (SyntaxError m)
              | Inr err \<Rightarrow>
                  (case js_get err ''error'' of
                     Inl e \<Rightarrow> Inl e
                   | Inr v \<Rightarrow> Inl (Error (js_string (js_or v (JStr ''Request failed''))))))
           else
             (case body of
                Inl m \<Rightarrow> Inl (SyntaxError m)
              | Inr v \<Rightarrow> Inr v)))"

text \<open>
  \<open>API.post\<close> repeats the tail of \<open>API.get\<close> after its own \<open>fetch\<close> (lines 30--47):
  a rejected \<open>fetch\<close>, the \<open>!response.ok\<close> branch and the final \<open>response.json()\<close>.
\<close>

definition api_post_response :: "fetch_result \<Rightarrow> js_error + jsval" where
  "api_post_response r =
     (case r of
        NetFail m \<Rightarrow> Inl (TypeError m)
      | Resp ok body \<Rightarrow>
          (if \<not> ok then
             (case body of
                Inl m \<Rightarrow> Inl (SyntaxError m)
              | Inr err \<Rightarrow>
                  (case js_get err ''error'' of
                     Inl e \<Rightarrow> Inl e
                   | Inr v \<Rightarrow> Inl (Error (js_string (js_or v (JStr ''Request failed''))))))
           else
             (case body of
                Inl m \<Rightarrow> Inl (SyntaxError m)
              | Inr v \<Rightarrow> Inr v)))"

subsection \<open>The endpoint methods\<close>

definition api_getVideoInfo :: "string \<Rightarrow> request" where
  "api_getVideoInfo url = api_post (INFO (ENDPOINTS CONFIG)) (JObj [(''url'', JStr url)])"

text \<open>
  The payload of \<open>startDownload\<close>: \<open>quality\<close> is \<open>undefined\<close> unless the type is
  video, \<open>audio_format\<close> unless it is audio; \<open>JSON.stringify\<close> then drops the
  \<open>undefined\<close> members.
\<close>

definition start_download_data :: "string \<Rightarrow> string \<Rightarrow> string \<Rightarrow> jsval" where
  "start_download_data url type quality =
     JObj [(''url'', JStr url), (''type'', JStr type),
           (''quality'', if type = VIDEO (DOWNLOAD_TYPES CONFIG) then JStr quality else JUndef),
           (''audio_format'', if type = AUDIO (DOWNLOAD_TYPES CONFIG)
                               then JStr (DEFAULT_AUDIO_FORMAT CONFIG) else JUndef)]"

definition api_startDownload :: "string \<Rightarrow> string \<Rightarrow> string \<Rightarrow> request" where
  "api_startDownload url type quality =
     api_post (DOWNLOAD (ENDPOINTS CONFIG)) (start_download_data url type quality)"

text \<open>The id is interpolated into a template literal, so it is converted by \<open>String\<close>.\<close>

definition api_getProgress :: "jsval \<Rightarrow> request" where
  "api_getProgress downloadId = api_get (PROGRESS (ENDPOINTS CONFIG) @ ''/'' @ js_string downloadId)"

definition api_getFileUrl :: "jsval \<Rightarrow> string" where
  "api_getFileUrl downloadId =
     API_BASE_URL CONFIG @ FILE (ENDPOINTS CONFIG) @ ''/'' @ js_string downloadId"

definition api_getDownloads :: request where
  "api_getDownloads = api_get (DOWNLOADS (ENDPOINTS CONFIG))"

definition api_cleanup :: "int \<Rightarrow> request" where
  "api_cleanup keepCount = api_post (CLEANUP (ENDPOINTS CONFIG)) (JObj [(''keep'', JNum keepCount)])"

text \<open>\<open>cleanup(keepCount = 5)\<close> called with no argument, as the controller does.\<close>

definition api_cleanup_default :: request where
  "api_cleanup_default = api_cleanup 5"

definition api_getStats :: request where
  "api_getStats = api_get (STATS (ENDPOINTS CONFIG))"

definition api_healthCheck :: request where
  "api_healthCheck = api_get (HEALTH (ENDPOINTS CONFIG))"

lemmas api_defs [model_defs] = api_get_def api_post_def api_getVideoInfo_def
  api_startDownload_def start_download_data_def api_getProgress_def api_getFileUrl_def
  api_getDownloads_def api_cleanup_def api_cleanup_default_def api_getStats_def api_healthCheck_def

text \<open>The two copies handle a response alike, so the controller's continuations use
  \<open>api_response\<close> for GET and POST requests.\<close>

lemma api_post_response_eq: "api_post_response = api_response"
  by (rule ext) (simp add: api_post_response_def api_response_def)

subsection \<open>Properties of the gateway\<close>

text \<open>
  Claim C27: a gateway call returns a value exactly when \<open>fetch\<close> succeeded with an
  \<open>ok\<close> response whose body parsed as JSON, and the value is that body; every other
  outcome (network failure, HTTP error, unparsable body) is a thrown error.
\<close>

lemma api_response_Inr_iff: "api_response r = Inr v \<longleftrightarrow> r = Resp True (Inr v)"
  by (auto simp: api_response_def split: fetch_result.splits sum.splits if_splits)

text \<open>
  Claim C28: an HTTP error whose body is a JSON object throws an \<open>Error\<close> whose message is
  the body's \<open>error\<close> field when that is truthy, and \<open>'Request failed'\<close> otherwise.
\<close>

lemma api_response_server_error:
  "api_response (Resp False (Inr (JObj fs))) =
     Inl (Error (case map_of fs ''error'' of
                   Some v \<Rightarrow> if js_truthy v then js_string v else ''Request failed''
                 | None \<Rightarrow> ''Request failed''))"
  by (simp add: api_response_def js_or_def split: option.splits)

text \<open>
  Claim C29: the spec's scenario D: an audio download sends no \<open>quality\<close> member and
  \<open>audio_format = 'mp3'\<close>; a video download sends the chosen \<open>quality\<close> and no
  \<open>audio_format\<close> member.
\<close>

lemma start_download_payload:
  "api_startDownload url ''audio'' q =
     Post (''http://localhost:5000/api/download'')
       (JObj [(''url'', JStr url), (''type'', JStr ''audio''), (''audio_format'', JStr ''mp3'')]) \<and>
   api_startDownload url ''video'' q =
     Post (''http://localhost:5000/api/download'')
       (JObj [(''url'', JStr url), (''type'', JStr ''video''), (''quality'', JStr q)])"
  by (simp add: api_defs config_simps)



end
