(* ===== verification/Tracker.thy ===== *)
theory Tracker
  imports Api
begin

text \<open>
  \<open>ProgressTracker\<close> of \<open>src/frontend2/js/api.js\<close> (lines 114--164) on an explicit model
  of the browser's event loop. The class's fields are the record \<open>tracker\<close>; the
  objects the controller creates live in a heap (\<open>trackers\<close>, indexed by creation
  order). The runtime record also holds the live \<open>setInterval\<close> timers (each calls
  \<open>checkProgress\<close> of one tracker), the status queries still in flight (each resumes
  \<open>checkProgress\<close> of one tracker when it settles) and the log of status requests sent.
  \<open>checkProgress\<close> is an \<open>async\<close> method, so it is two steps: \<open>check_progress\<close>
  runs it up to \<open>await API.getProgress\<close> (issuing the request), and
  \<open>check_progress_done\<close> runs the rest when the request settles; in between, any
  other event may run. Each operation is polymorphic in the record's extension, so the
  controller's state (theory \<open>App\<close>) extends the same runtime.

  The tracker is exercised by a generic client (\<open>tsys\<close>, \<open>tstep\<close>): events create,
  start and stop trackers, fire timers and settle queries, in any order; the callbacks
  the tracker invokes are logged in \<open>delivered\<close>.
\<close>

subsection \<open>The tracker and its runtime\<close>

text \<open>
  The three callbacks the constructor receives, with the value each is called with.
\<close>

datatype callback = OnUpdate jsval | OnComplete jsval | OnError jsval

text \<open>
  The fields the constructor sets (the callbacks are the controller's, see \<open>callback\<close>).
\<close>

record tracker =
  downloadId :: jsval
  interval :: "handle option"
  isTracking :: bool

definition new_tracker :: "jsval \<Rightarrow> tracker" where
  "new_tracker d = \<lparr>downloadId = d, interval = None, isTracking = False\<rparr>"

text \<open>
  The browser state the tracker acts on.
\<close>

record runtime =
  trackers :: "tracker list"
  timers :: "(handle \<times> obj_ref) list"
  next_handle :: handle
  polls :: "(poll_id \<times> obj_ref) list"
  next_poll :: poll_id
  sent :: "(obj_ref \<times> request) list"

text \<open>
  Assignment to a field of the tracker object \<open>i\<close>.
\<close>

definition upd_tracker :: "obj_ref \<Rightarrow> (tracker \<Rightarrow> tracker) \<Rightarrow> 'a runtime_scheme \<Rightarrow> 'a runtime_scheme" where
  "upd_tracker i f rt = rt\<lparr>trackers := (trackers rt)[i := f (trackers rt ! i)]\<rparr>"

text \<open>
  \<open>checkProgress()\<close> up to its first \<open>await\<close>: \<open>API.getProgress(this.downloadId)\<close> issues a GET and the call is now in flight.
\<close>

definition check_progress :: "obj_ref \<Rightarrow> 'a runtime_scheme \<Rightarrow> 'a runtime_scheme" where
  "check_progress i rt =
     rt\<lparr>polls := polls rt @ [(next_poll rt, i)], next_poll := Suc (next_poll rt),
        sent := sent rt @ [(i, api_getProgress (downloadId (trackers rt ! i)))]\<rparr>"

text \<open>
  \<open>stop()\<close>: clear the interval if there is one, then reset \<open>isTracking\<close>.
\<close>

definition tracker_stop :: "obj_ref \<Rightarrow> 'a runtime_scheme \<Rightarrow> 'a runtime_scheme" where
  "tracker_stop i rt =
     (case interval (trackers rt ! i) of
        Some h \<Rightarrow> upd_tracker i (\<lambda>t. t\<lparr>interval := None, isTracking := False\<rparr>)
                    (rt\<lparr>timers := filter (\<lambda>hi. fst hi \<noteq> h) (timers rt)\<rparr>)
      | None \<Rightarrow> upd_tracker i (\<lambda>t. t\<lparr>isTracking := False\<rparr>) rt)"

text \<open>
  \<open>start()\<close>: return if tracking; otherwise set \<open>isTracking\<close>, check at once, then schedule the repeating check and keep its handle.
\<close>

definition tracker_start :: "obj_ref \<Rightarrow> 'a runtime_scheme \<Rightarrow> 'a runtime_scheme" where
  "tracker_start i rt =
     (if isTracking (trackers rt ! i) then rt
      else let rt1 = check_progress i (upd_tracker i (\<lambda>t. t\<lparr>isTracking := True\<rparr>) rt);
               h = next_handle rt1
           in upd_tracker i (\<lambda>t. t\<lparr>interval := Some h\<rparr>)
                (rt1\<lparr>timers := timers rt1 @ [(h, i)], next_handle := Suc h\<rparr>))"

text \<open>
  A tick of a live interval timer runs \<open>this.checkProgress()\<close> of its tracker; a cleared timer never fires.
\<close>

definition timer_fire :: "handle \<Rightarrow> 'a runtime_scheme \<Rightarrow> 'a runtime_scheme" where
  "timer_fire h rt = (case map_of (timers rt) h of None \<Rightarrow> rt | Some i \<Rightarrow> check_progress i rt)"

text \<open>
  The rest of \<open>checkProgress()\<close> once the query settled: the status decides the callback; \<open>completed\<close> and \<open>error\<close> stop the tracker first, as does any throw inside the \<open>try\<close> (the \<open>catch\<close> calls \<open>stop()\<close> again, which is harmless). Nothing here looks at \<open>isTracking\<close>.
\<close>

definition check_progress_done ::
  "obj_ref \<Rightarrow> fetch_result \<Rightarrow> 'a runtime_scheme \<Rightarrow> 'a runtime_scheme \<times> callback" where
  "check_progress_done i r rt =
     (case api_response r of
        Inl e \<Rightarrow> (tracker_stop i rt, OnError (JStr (err_message e)))
      | Inr progress \<Rightarrow>
          (case js_get progress ''status'' of
             Inl e \<Rightarrow> (tracker_stop i rt, OnError (JStr (err_message e)))
           | Inr status \<Rightarrow>
               if status = JStr ''completed'' then (tracker_stop i rt, OnComplete progress)
               else if status = JStr ''error'' then
                 (case js_get progress ''error'' of
                    Inl e \<Rightarrow> (tracker_stop i (tracker_stop i rt), OnError (JStr (err_message e)))
                  | Inr v \<Rightarrow> (tracker_stop i rt, OnError (js_or v (JStr ''Download failed''))))
               else (rt, OnUpdate progress)))"

text \<open>
  The event loop resumes the \<open>checkProgress\<close> call that issued query \<open>p\<close>.
\<close>

definition poll_settle ::
  "poll_id \<Rightarrow> fetch_result \<Rightarrow> 'a runtime_scheme \<Rightarrow> 'a runtime_scheme \<times> (obj_ref \<times> callback) option" where
  "poll_settle p r rt =
     (case map_of (polls rt) p of
        None \<Rightarrow> (rt, None)
      | Some i \<Rightarrow>
          (case check_progress_done i r (rt\<lparr>polls := filter (\<lambda>pi. fst pi \<noteq> p) (polls rt)\<rparr>) of
             (rt', cb) \<Rightarrow> (rt', Some (i, cb))))"

subsection \<open>Well-formed runtimes\<close>

text \<open>
  The timer table and the trackers' \<open>interval\<close> fields agree, handles and query ids are fresh and every entry names an existing tracker.
\<close>

definition rt_wf :: "'a runtime_scheme \<Rightarrow> bool" where
  "rt_wf rt \<longleftrightarrow>
     distinct (map fst (timers rt)) \<and>
     (\<forall>h i. (h, i) \<in> set (timers rt) \<longleftrightarrow> i < length (trackers rt) \<and> interval (trackers rt ! i) = Some h) \<and>
     (\<forall>h \<in> fst ` set (timers rt). h < next_handle rt) \<and>
     (\<forall>i < length (trackers rt). isTracking (trackers rt ! i) \<longleftrightarrow> interval (trackers rt ! i) \<noteq> None) \<and>
     distinct (map fst (polls rt)) \<and>
     (\<forall>pi \<in> set (polls rt). fst pi < next_poll rt \<and> snd pi < length (trackers rt))"

subsection \<open>A client of the tracker\<close>

record tsys = runtime +
  delivered :: "(obj_ref \<times> callback) list"

definition tsys_init :: tsys where
  "tsys_init = \<lparr>trackers = [], timers = [], next_handle = 1, polls = [], next_poll = 0, sent = [],
                delivered = []\<rparr>"

datatype tevent =
    TNew jsval
  | TStart obj_ref
  | TStop obj_ref
  | TFire handle
  | TSettle poll_id fetch_result

fun tstep :: "tsys \<Rightarrow> tevent \<Rightarrow> tsys" where
  "tstep s (TNew d) = s\<lparr>trackers := trackers s @ [new_tracker d]\<rparr>"
| "tstep s (TStart i) = (if i < length (trackers s) then tracker_start i s else s)"
| "tstep s (TStop i) = (if i < length (trackers s) then tracker_stop i s else s)"
| "tstep s (TFire h) = timer_fire h s"
| "tstep s (TSettle p r) =
     (case poll_settle p r s of
        (s', None) \<Rightarrow> s'
      | (s', Some d) \<Rightarrow> s'\<lparr>delivered := delivered s' @ [d]\<rparr>)"

definition trun :: "tsys \<Rightarrow> tevent list \<Rightarrow> tsys" where
  "trun s es = foldl tstep s es"

text \<open>
  Classification of a settled query, the callback it triggers, and the counters the properties are stated with.
\<close>

fun terminal :: "callback \<Rightarrow> bool" where
  "terminal (OnUpdate v) = False"
| "terminal (OnComplete v) = True"
| "terminal (OnError v) = True"

definition progress_callback :: "fetch_result \<Rightarrow> callback" where
  "progress_callback r =
     (case api_response r of
        Inl e \<Rightarrow> OnError (JStr (err_message e))
      | Inr progress \<Rightarrow>
          (case js_get progress ''status'' of
             Inl e \<Rightarrow> OnError (JStr (err_message e))
           | Inr status \<Rightarrow>
               if status = JStr ''completed'' then OnComplete progress
               else if status = JStr ''error'' then
                 (case js_get progress ''error'' of
                    Inl e \<Rightarrow> OnError (JStr (err_message e))
                  | Inr v \<Rightarrow> OnError (js_or v (JStr ''Download failed'')))
               else OnUpdate progress))"

definition in_flight :: "'a runtime_scheme \<Rightarrow> obj_ref \<Rightarrow> nat" where
  "in_flight rt i = length (filter (\<lambda>pi. snd pi = i) (polls rt))"

definition has_timer :: "'a runtime_scheme \<Rightarrow> obj_ref \<Rightarrow> bool" where
  "has_timer rt i \<longleftrightarrow> i \<in> set (map snd (timers rt))"

definition started :: "'a runtime_scheme \<Rightarrow> obj_ref \<Rightarrow> bool" where
  "started rt i \<longleftrightarrow> i \<in> set (map fst (sent rt))"

definition terminals :: "tsys \<Rightarrow> obj_ref \<Rightarrow> nat" where
  "terminals s i = length (filter (\<lambda>d. fst d = i \<and> terminal (snd d)) (delivered s))"

definition requests_of :: "'a runtime_scheme \<Rightarrow> obj_ref \<Rightarrow> request list" where
  "requests_of rt i = map snd (filter (\<lambda>x. fst x = i) (sent rt))"

text \<open>
  The spec's scheduling assumption (its section 5): the controller starts each tracker once, right
  after creating it, and a timer tick never finds a query of its tracker still in flight.
\<close>

fun single_flight :: "tsys \<Rightarrow> tevent \<Rightarrow> bool" where
  "single_flight s (TStart i) = (\<not> started s i)"
| "single_flight s (TFire h) = (case map_of (timers s) h of None \<Rightarrow> True | Some i \<Rightarrow> in_flight s i = 0)"
| "single_flight s e = True"

fun sf_run :: "tsys \<Rightarrow> tevent list \<Rightarrow> bool" where
  "sf_run s [] = True"
| "sf_run s (e # es) = (single_flight s e \<and> sf_run (tstep s e) es)"

definition sf_inv :: "tsys \<Rightarrow> bool" where
  "sf_inv s \<longleftrightarrow> rt_wf s \<and>
     (\<forall>i. in_flight s i \<le> 1 \<and> terminals s i \<le> 1 \<and>
          (terminals s i = 1 \<longrightarrow> in_flight s i = 0 \<and> \<not> has_timer s i) \<and>
          (\<not> started s i \<longrightarrow> in_flight s i = 0 \<and> terminals s i = 0 \<and> \<not> has_timer s i))"

text \<open>
  The status reports of the spec's scenarios A and B.
\<close>

definition status_report :: "(string \<times> jsval) list \<Rightarrow> fetch_result" where
  "status_report fs = Resp True (Inr (JObj fs))"

definition scenario_A :: "tevent list" where
  "scenario_A = [TNew (JStr ''d1''), TStart 0,
     TSettle 0 (status_report [(''status'', JStr ''starting'')]),
     TFire 1, TSettle 1 (status_report [(''status'', JStr ''downloading''), (''percent'', JStr ''42%'')]),
     TFire 1, TSettle 2 (status_report [(''status'', JStr ''completed''), (''filename'', JStr ''x.mp4'')])]"

definition scenario_B :: "tevent list" where
  "scenario_B = [TNew (JStr ''d2''), TStart 0,
     TSettle 0 (status_report [(''status'', JStr ''downloading'')]),
     TFire 1, TSettle 1 (NetFail ''Failed to fetch'')]"

subsection \<open>Operations on the runtime\<close>

lemma upd_tracker_fields [simp]:
  "trackers (upd_tracker i f rt) = (trackers rt)[i := f (trackers rt ! i)]"
  "timers (upd_tracker i f rt) = timers rt"
  "next_handle (upd_tracker i f rt) = next_handle rt"
  "polls (upd_tracker i f rt) = polls rt"
  "next_poll (upd_tracker i f rt) = next_poll rt"
  "sent (upd_tracker i f rt) = sent rt"
  by (simp_all add: upd_tracker_def)

lemma check_progress_fields [simp]:
  "trackers (check_progress i rt) = trackers rt"
  "timers (check_progress i rt) = timers rt"
  "next_handle (check_progress i rt) = next_handle rt"
  "polls (check_progress i rt) = polls rt @ [(next_poll rt, i)]"
  "next_poll (check_progress i rt) = Suc (next_poll rt)"
  "sent (check_progress i rt) = sent rt @ [(i, api_getProgress (downloadId (trackers rt ! i)))]"
  by (simp_all add: check_progress_def)

lemma tracker_stop_fields [simp]:
  "polls (tracker_stop i rt) = polls rt"
  "next_poll (tracker_stop i rt) = next_poll rt"
  "sent (tracker_stop i rt) = sent rt"
  "next_handle (tracker_stop i rt) = next_handle rt"
  "length (trackers (tracker_stop i rt)) = length (trackers rt)"
  by (simp_all add: tracker_stop_def split: option.splits)

lemma tracker_stop_tracker:
  "i < length (trackers rt) \<Longrightarrow> trackers (tracker_stop i rt) ! j =
     (if j = i then (trackers rt ! i)\<lparr>interval := None, isTracking := False\<rparr> else trackers rt ! j)"
  by (auto simp: tracker_stop_def split: option.splits)

lemma tracker_stop_timers:
  "timers (tracker_stop i rt) =
     (case interval (trackers rt ! i) of Some h \<Rightarrow> filter (\<lambda>hi. fst hi \<noteq> h) (timers rt) | None \<Rightarrow> timers rt)"
  by (simp add: tracker_stop_def split: option.splits)

lemma tracker_start_idle:
  assumes "\<not> isTracking (trackers rt ! i)" and "i < length (trackers rt)"
  shows "tracker_start i rt =
    rt\<lparr>trackers := (trackers rt)[i := (trackers rt ! i)\<lparr>isTracking := True, interval := Some (next_handle rt)\<rparr>],
       timers := timers rt @ [(next_handle rt, i)], next_handle := Suc (next_handle rt),
       polls := polls rt @ [(next_poll rt, i)], next_poll := Suc (next_poll rt),
       sent := sent rt @ [(i, api_getProgress (downloadId (trackers rt ! i)))]\<rparr>"
  using assms by (simp add: tracker_start_def Let_def upd_tracker_def check_progress_def)

lemma tracker_start_busy: "isTracking (trackers rt ! i) \<Longrightarrow> tracker_start i rt = rt"
  by (simp add: tracker_start_def)

lemma tracker_stop_idem: "i < length (trackers rt) \<Longrightarrow> tracker_stop i (tracker_stop i rt) = tracker_stop i rt"
  by (simp add: tracker_stop_def upd_tracker_def split: option.splits)

lemma delivered_ops [simp]:
  "delivered (tracker_stop i s) = delivered s"
  "delivered (check_progress i s) = delivered s"
  "delivered (tracker_start i s) = delivered s"
  by (simp_all add: tracker_stop_def tracker_start_def check_progress_def upd_tracker_def Let_def
      split: option.splits)

lemma trun_simps [simp]:
  "trun s [] = s"
  "trun s (e # es) = trun (tstep s e) es"
  by (simp_all add: trun_def)

lemmas tracker_ops [model_defs] = tracker_start_def tracker_stop_def check_progress_def upd_tracker_def
  timer_fire_def poll_settle_def check_progress_done_def new_tracker_def tsys_init_def

subsection \<open>Every step keeps the runtime well-formed\<close>

lemma rt_wf_check_progress: "rt_wf rt \<Longrightarrow> i < length (trackers rt) \<Longrightarrow> rt_wf (check_progress i rt)"
  by (auto simp: rt_wf_def)

lemma rt_wf_tracker_stop: "rt_wf rt \<Longrightarrow> i < length (trackers rt) \<Longrightarrow> rt_wf (tracker_stop i rt)"
proof (cases "interval (trackers rt ! i)")
  case None
  assume wf: "rt_wf rt" and i: "i < length (trackers rt)"
  with None show ?thesis
    by (auto simp: rt_wf_def tracker_stop_timers tracker_stop_tracker)
next
  case (Some h)
  assume wf: "rt_wf rt" and i: "i < length (trackers rt)"
  then have hi: "(h, i) \<in> set (timers rt)" and dist: "distinct (map fst (timers rt))"
    using Some by (auto simp: rt_wf_def)
  have same: "h' = h \<Longrightarrow> (h', j) \<in> set (timers rt) \<Longrightarrow> j = i" for h' j
    using eq_key_imp_eq_value [OF dist] hi by blast
  let ?t = "trackers (tracker_stop i rt)"
  have tr: "?t ! j = (if j = i then (trackers rt ! i)\<lparr>interval := None, isTracking := False\<rparr> else trackers rt ! j)" for j
    using i by (rule tracker_stop_tracker)
  have tm: "timers (tracker_stop i rt) = filter (\<lambda>hi. fst hi \<noteq> h) (timers rt)"
    using Some by (simp add: tracker_stop_timers)
  have c1: "distinct (map fst (timers (tracker_stop i rt)))"
    using dist tm by (simp add: distinct_map_filter)
  have c2: "(h', j) \<in> set (timers (tracker_stop i rt)) \<longleftrightarrow> j < length ?t \<and> interval (?t ! j) = Some h'" for h' j
  proof (cases "j = i")
    case True
    then show ?thesis using wf Some tm tr unfolding rt_wf_def by auto
  next
    case False
    then show ?thesis using wf tm tr same unfolding rt_wf_def by auto
  qed
  have c3: "\<forall>h \<in> fst ` set (timers (tracker_stop i rt)). h < next_handle (tracker_stop i rt)"
    using wf tm unfolding rt_wf_def by auto
  have c4: "\<forall>j < length ?t. isTracking (?t ! j) \<longleftrightarrow> interval (?t ! j) \<noteq> None"
    using wf tr unfolding rt_wf_def by simp
  show ?thesis
    using wf c1 c2 c3 c4 unfolding rt_wf_def by simp
qed

lemma rt_wf_tracker_start: "rt_wf rt \<Longrightarrow> i < length (trackers rt) \<Longrightarrow> rt_wf (tracker_start i rt)"
proof (cases "isTracking (trackers rt ! i)")
  case True
  assume "rt_wf rt"
  then show ?thesis using True by (simp add: tracker_start_busy)
next
  case False
  assume wf: "rt_wf rt" and i: "i < length (trackers rt)"
  then have none: "interval (trackers rt ! i) = None"
    using False unfolding rt_wf_def by auto
  then have no_i: "(h, i) \<notin> set (timers rt)" for h
    using wf unfolding rt_wf_def by auto
  have fresh: "(next_handle rt, j) \<notin> set (timers rt)" for j
    using wf unfolding rt_wf_def by force
  have freshp: "(next_poll rt, j) \<notin> set (polls rt)" for j
    using wf unfolding rt_wf_def by force
  let ?rt = "tracker_start i rt"
  have tr: "trackers ?rt ! j = (if j = i then (trackers rt ! i)\<lparr>isTracking := True, interval := Some (next_handle rt)\<rparr> else trackers rt ! j)" for j
    using False i by (simp add: tracker_start_idle)
  have c1: "distinct (map fst (timers ?rt))"
    using False i wf fresh unfolding rt_wf_def by (force simp: tracker_start_idle)
  have c2: "(h', j) \<in> set (timers ?rt) \<longleftrightarrow> j < length (trackers ?rt) \<and> interval (trackers ?rt ! j) = Some h'" for h' j
  proof (cases "j = i")
    case True
    then show ?thesis using False i no_i tr by (auto simp: tracker_start_idle)
  next
    case False': False
    then show ?thesis using False i wf tr unfolding rt_wf_def by (auto simp: tracker_start_idle)
  qed
  have c3: "\<forall>h \<in> fst ` set (timers ?rt). h < next_handle ?rt"
    using False i wf unfolding rt_wf_def by (auto simp: tracker_start_idle)
  have c4: "\<forall>j < length (trackers ?rt). isTracking (trackers ?rt ! j) \<longleftrightarrow> interval (trackers ?rt ! j) \<noteq> None"
    using False i wf unfolding rt_wf_def by (auto simp: tracker_start_idle nth_list_update)
  have c5: "distinct (map fst (polls ?rt))"
    using False i wf freshp unfolding rt_wf_def by (force simp: tracker_start_idle)
  have c6: "\<forall>pi \<in> set (polls ?rt). fst pi < next_poll ?rt \<and> snd pi < length (trackers ?rt)"
    using False i wf unfolding rt_wf_def by (auto simp: tracker_start_idle)
  show ?thesis
    using c1 c2 c3 c4 c5 c6 unfolding rt_wf_def by blast
qed

lemma check_progress_done_split:
  "i < length (trackers rt) \<Longrightarrow>
   check_progress_done i r rt =
     (if terminal (progress_callback r) then tracker_stop i rt else rt, progress_callback r)"
  by (simp add: check_progress_done_def progress_callback_def tracker_stop_idem
      split: sum.splits if_splits)

lemma rt_wf_check_progress_done:
  "rt_wf rt \<Longrightarrow> i < length (trackers rt) \<Longrightarrow> rt_wf (fst (check_progress_done i r rt))"
  by (simp add: check_progress_done_split rt_wf_tracker_stop)

lemma rt_wf_timer_fire: "rt_wf rt \<Longrightarrow> rt_wf (timer_fire h rt)"
  by (auto simp: timer_fire_def rt_wf_def intro: rt_wf_check_progress dest: map_of_SomeD split: option.splits)

lemma rt_wf_drop_poll: "rt_wf rt \<Longrightarrow> rt_wf (rt\<lparr>polls := filter P (polls rt)\<rparr>)"
  by (auto simp: rt_wf_def distinct_map_filter)

lemma poll_settle_target:
  "rt_wf rt \<Longrightarrow> map_of (polls rt) p = Some i \<Longrightarrow> i < length (trackers rt)"
  by (auto simp: rt_wf_def dest!: map_of_SomeD)

lemma rt_wf_poll_settle: "rt_wf rt \<Longrightarrow> rt_wf (fst (poll_settle p r rt))"
proof (cases "map_of (polls rt) p")
  case None
  assume "rt_wf rt"
  then show ?thesis using None by (simp add: poll_settle_def)
next
  case (Some i)
  assume wf: "rt_wf rt"
  let ?rt = "rt\<lparr>polls := filter (\<lambda>pi. fst pi \<noteq> p) (polls rt)\<rparr>"
  have "rt_wf ?rt" using wf by (rule rt_wf_drop_poll)
  moreover have "i < length (trackers ?rt)" using poll_settle_target [OF wf Some] by simp
  ultimately have "rt_wf (fst (check_progress_done i r ?rt))" by (rule rt_wf_check_progress_done)
  then show ?thesis using Some by (simp add: poll_settle_def case_prod_unfold)
qed

lemma rt_wf_new: "rt_wf s \<Longrightarrow> rt_wf (s\<lparr>trackers := trackers s @ [new_tracker d]\<rparr>)"
  by (auto simp: rt_wf_def nth_append new_tracker_def)

lemma rt_wf_delivered [simp]: "rt_wf (s\<lparr>delivered := x\<rparr>) = rt_wf s"
  by (simp add: rt_wf_def)

lemma rt_wf_tstep: "rt_wf s \<Longrightarrow> rt_wf (tstep s e)"
proof (cases e)
  case (TSettle p r)
  assume wf: "rt_wf s"
  obtain s' c where eq: "poll_settle p r s = (s', c)" by fastforce
  have "rt_wf s'" using rt_wf_poll_settle [OF wf, of p r] eq by simp
  then show ?thesis using TSettle eq by (cases c) simp_all
qed (auto simp: rt_wf_new rt_wf_tracker_start rt_wf_tracker_stop rt_wf_timer_fire)

lemma rt_wf_init: "rt_wf tsys_init"
  by (simp add: rt_wf_def tsys_init_def)

lemma rt_wf_trun: "rt_wf s \<Longrightarrow> rt_wf (trun s es)"
  by (induction es arbitrary: s) (simp_all add: rt_wf_tstep)

lemma tstep_settle:
  assumes "rt_wf s" and "map_of (polls s) p = Some i"
  shows "tstep s (TSettle p r) =
    (let s0 = s\<lparr>polls := filter (\<lambda>pi. fst pi \<noteq> p) (polls s)\<rparr>
     in (if terminal (progress_callback r) then tracker_stop i s0 else s0)
          \<lparr>delivered := delivered s @ [(i, progress_callback r)]\<rparr>)"
proof -
  have "i < length (trackers s)" using poll_settle_target [OF assms] .
  then show ?thesis using assms(2)
    by (simp add: poll_settle_def check_progress_done_split Let_def)
qed

lemma tstep_settle_none: "map_of (polls s) p = None \<Longrightarrow> tstep s (TSettle p r) = s"
  by (simp add: poll_settle_def)

lemma stop_timers_iff:
  assumes "rt_wf s" and "i < length (trackers s)"
  shows "(h, j) \<in> set (timers (tracker_stop i s)) \<longleftrightarrow> j \<noteq> i \<and> (h, j) \<in> set (timers s)"
proof -
  have "rt_wf (tracker_stop i s)" using assms by (rule rt_wf_tracker_stop)
  then have "(h, j) \<in> set (timers (tracker_stop i s)) \<longleftrightarrow>
      j < length (trackers s) \<and> interval (trackers (tracker_stop i s) ! j) = Some h"
    unfolding rt_wf_def by simp
  also have "\<dots> \<longleftrightarrow> j \<noteq> i \<and> (h, j) \<in> set (timers s)"
    using assms by (auto simp: tracker_stop_tracker rt_wf_def)
  finally show ?thesis .
qed

lemma map_of_poll:
  "rt_wf s \<Longrightarrow> (p, i) \<in> set (polls s) \<Longrightarrow> map_of (polls s) p = Some i"
  by (simp add: rt_wf_def)

lemma has_timer_interval:
  assumes wf: "rt_wf s" and i: "i < length (trackers s)"
  shows "has_timer s i \<longleftrightarrow> interval (trackers s ! i) \<noteq> None"
proof
  assume "has_timer s i"
  then obtain h where "(h, i) \<in> set (timers s)" by (auto simp: has_timer_def)
  with wf show "interval (trackers s ! i) \<noteq> None" by (auto simp: rt_wf_def)
next
  assume "interval (trackers s ! i) \<noteq> None"
  then obtain h where "interval (trackers s ! i) = Some h" by blast
  with wf i have "(h, i) \<in> set (timers s)" by (simp add: rt_wf_def)
  then show "has_timer s i" by (force simp: has_timer_def)
qed

lemma has_timer_stop:
  "rt_wf s \<Longrightarrow> i < length (trackers s) \<Longrightarrow> has_timer (tracker_stop i s) j \<longleftrightarrow> j \<noteq> i \<and> has_timer s j"
  by (auto simp: has_timer_def stop_timers_iff image_iff)

subsection \<open>The single-flight invariant\<close>

lemma sf_inv_new: "sf_inv s \<Longrightarrow> sf_inv (tstep s (TNew d))"
  by (simp add: sf_inv_def rt_wf_new in_flight_def terminals_def has_timer_def started_def)

lemma sf_inv_stop: "sf_inv s \<Longrightarrow> sf_inv (tstep s (TStop i))"
  by (auto simp: sf_inv_def rt_wf_tracker_stop in_flight_def terminals_def has_timer_stop
      started_def)

lemma sf_inv_start:
  assumes inv: "sf_inv s" and guard: "\<not> started s i"
  shows "sf_inv (tstep s (TStart i))"
proof (cases "i < length (trackers s)")
  case False
  with inv show ?thesis by simp
next
  case True
  have wf: "rt_wf s" using inv by (simp add: sf_inv_def)
  from inv guard have "\<not> has_timer s i" unfolding sf_inv_def by blast
  then have "interval (trackers s ! i) = None" using has_timer_interval [OF wf True] by simp
  with wf True have idle: "\<not> isTracking (trackers s ! i)" by (simp add: rt_wf_def)
  have wf': "rt_wf (tstep s (TStart i))"
    using inv True by (simp add: sf_inv_def rt_wf_tracker_start)
  from inv guard show ?thesis
    using True idle wf'
    by (auto simp: sf_inv_def tracker_start_idle in_flight_def terminals_def has_timer_def started_def)
qed

lemma sf_inv_fire:
  assumes inv: "sf_inv s" and guard: "single_flight s (TFire h)"
  shows "sf_inv (tstep s (TFire h))"
proof (cases "map_of (timers s) h")
  case None
  then show ?thesis using inv by (simp add: timer_fire_def)
next
  case (Some i)
  have wf: "rt_wf s" using inv by (simp add: sf_inv_def)
  have ht: "has_timer s i" using map_of_SomeD [OF Some] by (force simp: has_timer_def)
  have idle: "in_flight s i = 0" using guard Some by simp
  from inv ht have st: "started s i" and t0: "terminals s i = 0"
    unfolding sf_inv_def by (metis le_Suc_eq le_zero_eq One_nat_def)+
  have wf': "rt_wf (tstep s (TFire h))" using wf by (simp add: rt_wf_timer_fire)
  have "tstep s (TFire h) = check_progress i s" using Some by (simp add: timer_fire_def)
  with inv idle st t0 wf' show ?thesis
    by (auto simp: sf_inv_def in_flight_def terminals_def has_timer_def started_def)
qed

lemma sf_inv_settle:
  assumes inv: "sf_inv s"
  shows "sf_inv (tstep s (TSettle p r))"
proof (cases "map_of (polls s) p")
  case None
  then have "tstep s (TSettle p r) = s" by (rule tstep_settle_none)
  then show ?thesis using inv by simp
next
  case (Some i)
  have wf: "rt_wf s" using inv by (simp add: sf_inv_def)
  have i: "i < length (trackers s)" using poll_settle_target [OF wf Some] .
  define s0 where "s0 = s\<lparr>polls := filter (\<lambda>pi. fst pi \<noteq> p) (polls s)\<rparr>"
  define cb where "cb = progress_callback r"
  define s1 where "s1 = (if terminal cb then tracker_stop i s0 else s0)"
  have step: "tstep s (TSettle p r) = s1\<lparr>delivered := delivered s @ [(i, cb)]\<rparr>"
    using tstep_settle [OF wf Some] by (simp add: s0_def s1_def cb_def Let_def)
  have wf0: "rt_wf s0" unfolding s0_def using wf by (rule rt_wf_drop_poll)
  have cnt: "in_flight s j = in_flight s0 j + (if j = i then 1 else 0)" for j
    using count_drop_key [OF _ Some] wf by (simp add: in_flight_def s0_def rt_wf_def)
  have "in_flight s i \<le> 1" using inv unfolding sf_inv_def by blast
  then have fl: "in_flight s i = 1" using cnt [of i] by simp
  from inv fl have t0: "terminals s i = 0" and st: "started s i"
    unfolding sf_inv_def by (metis le_Suc_eq le_zero_eq One_nat_def zero_neq_one)+
  have s1_fields: "polls s1 = polls s0" "sent s1 = sent s0" "delivered s1 = delivered s0"
    by (simp_all add: s1_def)
  have tm1: "has_timer s1 j \<longleftrightarrow> (terminal cb \<longrightarrow> j \<noteq> i) \<and> has_timer s0 j" for j
    using has_timer_stop [OF wf0, of i j] i by (auto simp: s1_def s0_def)
  have wf1: "rt_wf s1"
    using wf0 i by (simp add: s1_def s0_def rt_wf_tracker_stop)
  have tm0: "has_timer s0 j = has_timer s j" "started s0 j = started s j" for j
    by (simp_all add: s0_def has_timer_def started_def)
  have fl': "in_flight (s1\<lparr>delivered := delivered s @ [(i, cb)]\<rparr>) j =
      in_flight s j - (if j = i then 1 else 0)" for j
    using cnt [of j] s1_fields by (simp add: in_flight_def)
  have term': "terminals (s1\<lparr>delivered := delivered s @ [(i, cb)]\<rparr>) j =
      terminals s j + (if j = i \<and> terminal cb then 1 else 0)" for j
    by (simp add: terminals_def)
  have tm': "has_timer (s1\<lparr>delivered := delivered s @ [(i, cb)]\<rparr>) j \<longleftrightarrow>
      (terminal cb \<longrightarrow> j \<noteq> i) \<and> has_timer s j" for j
    using tm1 [of j] tm0 by (simp add: has_timer_def)
  have st': "started (s1\<lparr>delivered := delivered s @ [(i, cb)]\<rparr>) j = started s j" for j
    using s1_fields tm0 by (simp add: started_def)
  have wf': "rt_wf (s1\<lparr>delivered := delivered s @ [(i, cb)]\<rparr>)" using wf1 by simp
  show ?thesis
    unfolding step sf_inv_def
  proof (intro conjI allI)
    fix j
    show "in_flight (s1\<lparr>delivered := delivered s @ [(i, cb)]\<rparr>) j \<le> 1"
      using inv fl' [of j] unfolding sf_inv_def by (metis diff_le_self le_trans)
    show "terminals (s1\<lparr>delivered := delivered s @ [(i, cb)]\<rparr>) j \<le> 1"
      using inv term' [of j] t0 unfolding sf_inv_def by auto
    show "terminals (s1\<lparr>delivered := delivered s @ [(i, cb)]\<rparr>) j = 1 \<longrightarrow>
        in_flight (s1\<lparr>delivered := delivered s @ [(i, cb)]\<rparr>) j = 0 \<and>
        \<not> has_timer (s1\<lparr>delivered := delivered s @ [(i, cb)]\<rparr>) j"
      using inv term' [of j] fl' [of j] tm' [of j] t0 fl unfolding sf_inv_def by auto
    show "\<not> started (s1\<lparr>delivered := delivered s @ [(i, cb)]\<rparr>) j \<longrightarrow>
        in_flight (s1\<lparr>delivered := delivered s @ [(i, cb)]\<rparr>) j = 0 \<and>
        terminals (s1\<lparr>delivered := delivered s @ [(i, cb)]\<rparr>) j = 0 \<and>
        \<not> has_timer (s1\<lparr>delivered := delivered s @ [(i, cb)]\<rparr>) j"
      using inv term' [of j] fl' [of j] tm' [of j] st' [of j] st unfolding sf_inv_def by auto
  qed (rule wf')
qed

lemma sf_inv_tstep:
  assumes "sf_inv s" and "single_flight s e"
  shows "sf_inv (tstep s e)"
  using assms
  by (cases e) (simp_all only: single_flight.simps sf_inv_new sf_inv_stop sf_inv_start sf_inv_fire
      sf_inv_settle not_False_eq_True)

lemma sf_inv_trun: "sf_inv s \<Longrightarrow> sf_run s es \<Longrightarrow> sf_inv (trun s es)"
  by (induction es arbitrary: s) (simp_all add: sf_inv_tstep)

lemma sf_inv_init: "sf_inv tsys_init"
  by (simp add: sf_inv_def rt_wf_init) (simp add: tsys_init_def in_flight_def terminals_def
      has_timer_def started_def)

subsection \<open>Properties of the tracker\<close>

text \<open>
  Claim C2: under the spec's single-flight schedule (each tracker started once, no tick
  while its previous query is in flight), every tracker invokes its terminal callbacks
  (\<open>onComplete\<close> and \<open>onError\<close> together) at most once, and once it has, it has no
  query in flight and no live timer, so it never polls again.
\<close>

theorem single_flight_exactly_once:
  assumes "sf_run tsys_init es"
  shows "terminals (trun tsys_init es) i \<le> 1 \<and>
    (terminals (trun tsys_init es) i = 1 \<longrightarrow>
       in_flight (trun tsys_init es) i = 0 \<and> \<not> has_timer (trun tsys_init es) i)"
  using sf_inv_trun [OF sf_inv_init assms] unfolding sf_inv_def by blast

theorem single_flight_exactly_once_witness:
  "sf_run tsys_init scenario_A \<and> terminals (trun tsys_init scenario_A) 0 \<le> 1"
proof -
  have run: "sf_run tsys_init scenario_A"
    by (simp add: scenario_A_def status_report_def tracker_ops api_response_def api_defs
        config_simps in_flight_def started_def)
  show ?thesis using single_flight_exactly_once [OF run, of 0] run by blast
qed

text \<open>
  Claim C3: \<open>stop()\<close> does not silence a query already in flight: when a tracker is
  stopped while one of its status queries is outstanding, the query's settlement still
  invokes a callback of that tracker (the spec's P3 asks for silence).
\<close>

theorem stop_does_not_cancel_inflight:
  assumes wf: "rt_wf s" and p: "(p, i) \<in> set (polls s)"
  shows "delivered (trun s [TStop i, TSettle p r]) = delivered s @ [(i, progress_callback r)]"
proof -
  have i: "i < length (trackers s)" using wf p by (auto simp: rt_wf_def)
  let ?s = "tracker_stop i s"
  have wf': "rt_wf ?s" using wf i by (rule rt_wf_tracker_stop)
  have "map_of (polls ?s) p = Some i" using map_of_poll [OF wf'] p by simp
  then have "delivered (tstep ?s (TSettle p r)) = delivered s @ [(i, progress_callback r)]"
    using tstep_settle [OF wf'] by (simp add: Let_def)
  then show ?thesis using i by simp
qed

theorem stop_does_not_cancel_inflight_witness:
  "delivered (trun (trun tsys_init [TNew (JStr ''d1''), TStart 0])
      [TStop 0, TSettle 0 (status_report [(''status'', JStr ''completed'')])]) =
   [(0, OnComplete (JObj [(''status'', JStr ''completed'')]))]"
proof -
  let ?s = "trun tsys_init [TNew (JStr ''d1''), TStart 0]"
  have wf: "rt_wf ?s" by (rule rt_wf_trun [OF rt_wf_init])
  have p: "(0, 0) \<in> set (polls ?s)" by (simp add: tracker_ops)
  have d: "delivered ?s = []" by (simp add: tracker_ops)
  show ?thesis
    using stop_does_not_cancel_inflight [OF wf p, of "status_report [(''status'', JStr ''completed'')]"] d
    by (simp add: progress_callback_def status_report_def api_response_def)
qed

text \<open>
  Claim C4: \<open>setInterval\<close> does not wait for the previous query, so one tracker can have
  two queries in flight (a tick before the first response); each settlement invokes a
  callback, so a finished download can call \<open>onComplete\<close> twice (the spec's P2 fails
  without its single-flight schedule).
\<close>

theorem overlapping_polls_deliver_each:
  assumes wf: "rt_wf s" and p: "(p, i) \<in> set (polls s)" and q: "(q, i) \<in> set (polls s)"
    and pq: "p \<noteq> q"
  shows "delivered (trun s [TSettle p r, TSettle q r']) =
    delivered s @ [(i, progress_callback r), (i, progress_callback r')]"
proof -
  let ?s = "tstep s (TSettle p r)"
  have s: "?s = (let s0 = s\<lparr>polls := filter (\<lambda>pi. fst pi \<noteq> p) (polls s)\<rparr>
       in (if terminal (progress_callback r) then tracker_stop i s0 else s0)
          \<lparr>delivered := delivered s @ [(i, progress_callback r)]\<rparr>)"
    using tstep_settle [OF wf map_of_poll [OF wf p]] .
  have wf': "rt_wf ?s" using wf by (rule rt_wf_tstep)
  have "(q, i) \<in> set (polls ?s)" using q pq s by (simp add: Let_def)
  then have "map_of (polls ?s) q = Some i" by (rule map_of_poll [OF wf'])
  then have "delivered (tstep ?s (TSettle q r')) = delivered ?s @ [(i, progress_callback r')]"
    using tstep_settle [OF wf'] by (simp add: Let_def)
  then show ?thesis using s by (simp add: Let_def)
qed

theorem overlapping_polls_deliver_each_witness:
  "delivered (trun (trun tsys_init [TNew (JStr ''d1''), TStart 0, TFire 1])
      [TSettle 0 (status_report [(''status'', JStr ''completed'')]),
       TSettle 1 (status_report [(''status'', JStr ''completed'')])]) =
   [(0, OnComplete (JObj [(''status'', JStr ''completed'')])),
    (0, OnComplete (JObj [(''status'', JStr ''completed'')]))]"
proof -
  let ?s = "trun tsys_init [TNew (JStr ''d1''), TStart 0, TFire 1]"
  have wf: "rt_wf ?s" by (rule rt_wf_trun [OF rt_wf_init])
  have p: "(0, 0) \<in> set (polls ?s)" and q: "(1, 0) \<in> set (polls ?s)" and d: "delivered ?s = []"
    by (simp_all add: tracker_ops)
  show ?thesis
    using overlapping_polls_deliver_each [OF wf p q, of "status_report [(''status'', JStr ''completed'')]"
        "status_report [(''status'', JStr ''completed'')]"] d
    by (simp add: progress_callback_def status_report_def api_response_def)
qed

text \<open>
  Claim C9: each settled status query invokes exactly one callback of the tracker that
  issued it, and the tracker keeps its timer (keeps polling) exactly when that callback
  is \<open>onUpdate\<close>: \<open>completed\<close>, \<open>error\<close> and failed queries stop it.
\<close>

theorem settle_stops_iff_terminal:
  assumes wf: "rt_wf s" and p: "map_of (polls s) p = Some i"
  shows "delivered (tstep s (TSettle p r)) = delivered s @ [(i, progress_callback r)] \<and>
    has_timer (tstep s (TSettle p r)) i = (\<not> terminal (progress_callback r) \<and> has_timer s i) \<and>
    isTracking (trackers (tstep s (TSettle p r)) ! i) =
      (\<not> terminal (progress_callback r) \<and> isTracking (trackers s ! i))"
proof -
  have i: "i < length (trackers s)" using poll_settle_target [OF wf p] .
  define s0 where "s0 = s\<lparr>polls := filter (\<lambda>pi. fst pi \<noteq> p) (polls s)\<rparr>"
  have wf0: "rt_wf s0" unfolding s0_def using wf by (rule rt_wf_drop_poll)
  have step: "tstep s (TSettle p r) =
      (if terminal (progress_callback r) then tracker_stop i s0 else s0)
        \<lparr>delivered := delivered s @ [(i, progress_callback r)]\<rparr>"
    using tstep_settle [OF wf p] by (simp add: s0_def Let_def)
  show ?thesis
  proof (cases "terminal (progress_callback r)")
    case True
    have "\<not> has_timer (tracker_stop i s0) i" using has_timer_stop [OF wf0, of i i] i
      by (simp add: s0_def)
    moreover have "\<not> isTracking (trackers (tracker_stop i s0) ! i)"
      using tracker_stop_tracker [of i s0 i] i by (simp add: s0_def)
    ultimately show ?thesis using step True by (simp add: has_timer_def)
  next
    case False
    then show ?thesis using step by (simp add: s0_def has_timer_def)
  qed
qed

theorem settle_stops_iff_terminal_witness:
  "\<not> has_timer (tstep (trun tsys_init [TNew (JStr ''d1''), TStart 0])
       (TSettle 0 (status_report [(''status'', JStr ''completed'')]))) 0"
proof -
  let ?s = "trun tsys_init [TNew (JStr ''d1''), TStart 0]"
  have wf: "rt_wf ?s" by (rule rt_wf_trun [OF rt_wf_init])
  have p: "map_of (polls ?s) 0 = Some 0" by (simp add: tracker_ops)
  show ?thesis
    using settle_stops_iff_terminal [OF wf p, of "status_report [(''status'', JStr ''completed'')]"]
    by (simp add: progress_callback_def status_report_def api_response_def)
qed

text \<open>
  Claim C13: how a settled query is classified: a report with status \<open>completed\<close> is
  passed to \<open>onComplete\<close>; status \<open>error\<close> calls \<open>onError\<close> with the report's
  \<open>error\<close> field, or \<open>'Download failed'\<close> when that is falsy; any other status string
  passes the raw report to \<open>onUpdate\<close>; a failed request (network error, HTTP error,
  unparsable body) calls \<open>onError\<close> with the error's message, and so does a \<open>null\<close>
  report, whose \<open>status\<close> cannot be read.
\<close>

theorem progress_callback_classify:
  "progress_callback (status_report ((''status'', JStr ''completed'') # fs)) =
     OnComplete (JObj ((''status'', JStr ''completed'') # fs)) \<and>
   progress_callback (status_report ((''status'', JStr ''error'') # fs)) =
     OnError (js_or (case map_of fs ''error'' of None \<Rightarrow> JUndef | Some v \<Rightarrow> v) (JStr ''Download failed'')) \<and>
   (st \<noteq> ''completed'' \<and> st \<noteq> ''error'' \<longrightarrow>
     progress_callback (status_report ((''status'', JStr st) # fs)) = OnUpdate (JObj ((''status'', JStr st) # fs))) \<and>
   (api_response r = Inl e \<longrightarrow> progress_callback r = OnError (JStr (err_message e))) \<and>
   progress_callback (Resp True (Inr JNull)) = OnError (JStr (err_message (read_error ''null'' ''status'')))"
  by (simp add: progress_callback_def status_report_def api_response_def)

theorem progress_callback_classify_witness:
  "progress_callback (status_report [(''status'', JStr ''downloading'')]) =
     OnUpdate (JObj [(''status'', JStr ''downloading'')]) \<and>
   progress_callback (NetFail ''Failed to fetch'') = OnError (JStr ''Failed to fetch'')"
proof -
  have "api_response (NetFail ''Failed to fetch'') = Inl (TypeError ''Failed to fetch'')"
    by (simp add: api_response_def)
  then show ?thesis
    using progress_callback_classify [of "[]" "''downloading''" "NetFail ''Failed to fetch''"
        "TypeError ''Failed to fetch''"]
    by simp
qed

lemma stopped_step:
  assumes wf: "rt_wf s" and i: "i < length (trackers s)" and none: "interval (trackers s ! i) = None"
    and e: "e \<noteq> TStart i"
  shows "i < length (trackers (tstep s e)) \<and> interval (trackers (tstep s e) ! i) = None \<and>
         requests_of (tstep s e) i = requests_of s i"
proof (cases e)
  case (TNew d)
  then show ?thesis using i none by (simp add: nth_append requests_of_def)
next
  case (TStart j)
  with e have "j \<noteq> i" by simp
  then show ?thesis using TStart i none
    by (cases "isTracking (trackers s ! j)") (simp_all add: tracker_start_busy tracker_start_idle requests_of_def)
next
  case (TStop j)
  then show ?thesis using i none by (auto simp: tracker_stop_tracker requests_of_def)
next
  case (TFire h)
  show ?thesis
  proof (cases "map_of (timers s) h")
    case None
    then show ?thesis using TFire i none by (simp add: timer_fire_def)
  next
    case (Some k)
    have "(h, k) \<in> set (timers s)" using Some by (rule map_of_SomeD)
    then have "k \<noteq> i" using wf none by (auto simp: rt_wf_def)
    then show ?thesis using TFire Some i none by (simp add: timer_fire_def requests_of_def)
  qed
next
  case (TSettle p r)
  show ?thesis
  proof (cases "map_of (polls s) p")
    case None
    then have "tstep s e = s" using TSettle by (simp only: tstep_settle_none)
    then show ?thesis using i none by simp
  next
    case (Some k)
    have k: "k < length (trackers s)" using poll_settle_target [OF wf Some] .
    show ?thesis using TSettle tstep_settle [OF wf Some] i k none
      by (auto simp: Let_def tracker_stop_tracker requests_of_def)
  qed
qed

text \<open>
  Claim C20: a tracker without a live interval (never started, stopped, or finished)
  issues no further status request, whatever events follow, as long as it is not started
  again: no tick and no settlement makes it poll.
\<close>

theorem stopped_tracker_no_requests:
  assumes "rt_wf s" and "i < length (trackers s)" and "interval (trackers s ! i) = None"
    and "TStart i \<notin> set es"
  shows "requests_of (trun s es) i = requests_of s i"
  using assms
proof (induction es arbitrary: s)
  case Nil
  then show ?case by simp
next
  case (Cons e es)
  have "e \<noteq> TStart i" using Cons.prems(4) by auto
  then have step: "i < length (trackers (tstep s e)) \<and> interval (trackers (tstep s e) ! i) = None \<and>
         requests_of (tstep s e) i = requests_of s i"
    using stopped_step Cons.prems(1-3) by blast
  have "rt_wf (tstep s e)" using Cons.prems(1) by (rule rt_wf_tstep)
  then have "requests_of (trun (tstep s e) es) i = requests_of (tstep s e) i"
    using Cons.IH step Cons.prems(4) by simp
  with step show ?case by simp
qed

theorem stopped_tracker_no_requests_witness:
  "requests_of (trun (trun tsys_init scenario_B) [TFire 1, TStop 0, TFire 1]) 0 =
   requests_of (trun tsys_init scenario_B) 0"
proof -
  let ?s = "trun tsys_init scenario_B"
  have wf: "rt_wf ?s" by (rule rt_wf_trun [OF rt_wf_init])
  have i: "0 < length (trackers ?s)" and none: "interval (trackers ?s ! 0) = None"
    by (simp_all add: scenario_B_def status_report_def tracker_ops api_response_def)
  show ?thesis using stopped_tracker_no_requests [OF wf i none, of "[TFire 1, TStop 0, TFire 1]"]
    by simp
qed

text \<open>
  Claim C21: \<open>start()\<close> on an idle tracker sends exactly one status request for its id at
  once and gives the tracker exactly one live timer; on a tracking tracker it changes
  nothing, so a second \<open>start()\<close> is a no-op.
\<close>

theorem tracker_start_contract:
  assumes wf: "rt_wf s" and i: "i < length (trackers s)"
  shows "requests_of (tracker_start i s) i =
           requests_of s i @ (if isTracking (trackers s ! i) then []
                              else [api_getProgress (downloadId (trackers s ! i))]) \<and>
         filter (\<lambda>hi. snd hi = i) (timers (tracker_start i s)) =
           (if isTracking (trackers s ! i) then filter (\<lambda>hi. snd hi = i) (timers s)
            else [(next_handle s, i)]) \<and>
         tracker_start i (tracker_start i s) = tracker_start i s"
proof (cases "isTracking (trackers s ! i)")
  case True
  then show ?thesis by (simp add: tracker_start_busy)
next
  case False
  then have "interval (trackers s ! i) = None" using wf i by (simp add: rt_wf_def)
  then have "\<not> has_timer s i" using has_timer_interval [OF wf i] by simp
  then have "filter (\<lambda>hi. snd hi = i) (timers s) = []"
    by (auto simp: has_timer_def filter_empty_conv image_iff)
  then show ?thesis using False i
    by (simp add: tracker_start_idle tracker_start_busy requests_of_def)
qed

theorem tracker_start_contract_witness:
  "requests_of (tracker_start 0 (trun tsys_init [TNew (JStr ''d1'')])) 0 =
     [Get ''http://localhost:5000/api/progress/d1'']"
proof -
  let ?s = "trun tsys_init [TNew (JStr ''d1'')]"
  have wf: "rt_wf ?s" by (rule rt_wf_trun [OF rt_wf_init])
  have i: "0 < length (trackers ?s)" by (simp add: tracker_ops)
  show ?thesis using tracker_start_contract [OF wf i]
    by (simp add: tracker_ops requests_of_def api_defs config_simps)
qed

text \<open>
  Claim C22: \<open>stop()\<close> leaves the tracker with no live timer and \<open>isTracking\<close> false,
  is idempotent, does not touch the queries in flight, and changes no other tracker.
\<close>

theorem tracker_stop_contract:
  assumes wf: "rt_wf s" and i: "i < length (trackers s)"
  shows "\<not> has_timer (tracker_stop i s) i \<and> \<not> isTracking (trackers (tracker_stop i s) ! i) \<and>
         tracker_stop i (tracker_stop i s) = tracker_stop i s \<and>
         polls (tracker_stop i s) = polls s \<and>
         (\<forall>j. j \<noteq> i \<longrightarrow> trackers (tracker_stop i s) ! j = trackers s ! j)"
  using has_timer_stop [OF wf i, of i] tracker_stop_tracker [OF i] tracker_stop_idem [OF i]
  by simp

theorem tracker_stop_contract_witness:
  "\<not> has_timer (tracker_stop 0 (trun tsys_init [TNew (JStr ''d1''), TStart 0])) 0 \<and>
   polls (tracker_stop 0 (trun tsys_init [TNew (JStr ''d1''), TStart 0])) = [(0, 0)]"
proof -
  let ?s = "trun tsys_init [TNew (JStr ''d1''), TStart 0]"
  have wf: "rt_wf ?s" by (rule rt_wf_trun [OF rt_wf_init])
  have i: "0 < length (trackers ?s)" by (simp add: tracker_ops)
  have "polls ?s = [(0, 0)]" by (simp add: tracker_ops)
  then show ?thesis using tracker_stop_contract [OF wf i] by simp
qed



end
