(* ===== verification/Ui.thy ===== *)
theory Ui
  imports Api
begin

text \<open>
  The \<open>UI\<close> object of \<open>src/frontend2/js/ui.js\<close>: the part of the page the controller
  writes, as a record (\<open>ui\<close>), and one function per \<open>UI\<close> method that changes it.
  Sections are visible when their \<open>hidden\<close> class is removed; text fields hold what
  \<open>textContent\<close> was set to. The video-info card holds its thumbnail, title and
  uploader texts and keeps the info object, whose view count and duration the card
  shows through \<open>formatViews\<close>/\<open>formatDuration\<close>; the statistics card holds its four
  texts. The toast keeps the log of messages shown,
  whether it is hidden, and the number of its hide timers still pending. Not modelled:
  scrolling and focus. The history list is kept as the array value shown; its markup
  and \<open>escapeHtml\<close> are in theory \<open>History\<close>, \<open>formatViews\<close> and \<open>formatDate\<close> in
  \<open>Formatting\<close>, \<open>formatFileSize\<close> in \<open>FileSize\<close>. \<open>formatDuration\<close> is modelled on whole
  seconds. \<open>new URL(url)\<close> is the browser's URL parser: it is a parameter
  (\<open>parses\<close>) of every definition that uses it, so the theorems hold for any parser.
\<close>

record ui =
  loading :: bool
  toasts :: "string list"
  toast_hidden :: bool
  toast_timers :: nat
  url_input :: string
  info_shown :: bool
  info :: jsval
  video_thumbnail :: string
  video_title :: string
  video_uploader :: string
  type_active :: string
  quality_shown :: bool
  progress_shown :: bool
  progress_status :: string
  progress_percent :: string
  progress_fill :: string
  progress_speed :: string
  progress_eta :: string
  progress_downloaded :: string
  success_shown :: bool
  file_href :: string
  file_download :: string
  error_shown :: bool
  error_message :: string
  active_tab :: string
  history :: jsval
  stat_total_files :: string
  stat_storage :: string
  stat_active :: string
  stat_completed :: string

definition ui_switchTab :: "string \<Rightarrow> ui \<Rightarrow> ui" where
  "ui_switchTab tabName u = u\<lparr>active_tab := tabName\<rparr>"

definition ui_setLoading :: "bool \<Rightarrow> ui \<Rightarrow> ui" where
  "ui_setLoading isLoading u = u\<lparr>loading := isLoading\<rparr>"

definition ui_showToast :: "string \<Rightarrow> ui \<Rightarrow> ui" where
  "ui_showToast message u =
     u\<lparr>toasts := toasts u @ [message], toast_hidden := False, toast_timers := Suc (toast_timers u)\<rparr>"

text \<open>
  The callback of the \<open>setTimeout\<close> that \<open>showToast\<close> starts: it hides the toast,
  whichever message it shows by then. Every call uses the default duration, so the
  timers fire in the order the toasts were shown and only their number matters.
\<close>

definition ui_toast_timeout :: "ui \<Rightarrow> ui" where
  "ui_toast_timeout u =
     (if toast_timers u = 0 then u else u\<lparr>toast_hidden := True, toast_timers := toast_timers u - 1\<rparr>)"

text \<open>
  \<open>showVideoInfo(info)\<close> reads \<open>info.thumbnail\<close> first: on \<open>null\<close> it throws before
  changing anything; on any other value every read succeeds. The image's \<open>src\<close> takes
  the string of the value (\<open>null\<close> becomes \<open>'null'\<close>), the text fields take
  \<open>textContent\<close>; the view count and duration are read from the info object kept.
\<close>

definition ui_showVideoInfo :: "jsval \<Rightarrow> ui \<Rightarrow> js_error + ui" where
  "ui_showVideoInfo i u =
     (case js_get i ''thumbnail'' of
        Inl e \<Rightarrow> Inl e
      | Inr thumbnail \<Rightarrow>
          Inr (u\<lparr>video_thumbnail := js_string thumbnail,
                 video_title := dom_text (js_prop i ''title''),
                 video_uploader := dom_text (js_prop i ''uploader''),
                 info := i, info_shown := True\<rparr>))"

definition ui_hideVideoInfo :: "ui \<Rightarrow> ui" where
  "ui_hideVideoInfo u = u\<lparr>info_shown := False\<rparr>"

definition ui_setDownloadType :: "string \<Rightarrow> ui \<Rightarrow> ui" where
  "ui_setDownloadType type u =
     u\<lparr>type_active := type, quality_shown := (type = VIDEO (DOWNLOAD_TYPES CONFIG))\<rparr>"

definition ui_hideAllSections :: "ui \<Rightarrow> ui" where
  "ui_hideAllSections u = u\<lparr>progress_shown := False, success_shown := False, error_shown := False\<rparr>"

definition ui_showProgress :: "ui \<Rightarrow> ui" where
  "ui_showProgress u = (ui_hideAllSections u)\<lparr>progress_shown := True\<rparr>"

text \<open>
  \<open>style.width = v\<close>: \<open>null\<close> becomes the empty string, which removes the width; a
  string is taken as the CSS length it is (the server sends percentages such as
  \<open>'42%'\<close>; CSS syntax is not checked here); \<open>undefined\<close>, booleans, arrays and objects
  convert to strings that are no CSS length, and a number other than \<open>0\<close> has no unit,
  so these leave the width as it was; \<open>0\<close> sets it to \<open>0px\<close>.
\<close>

definition css_width :: "jsval \<Rightarrow> string \<Rightarrow> string" where
  "css_width v old =
     (case v of JNull \<Rightarrow> [] | JStr s \<Rightarrow> s | JNum n \<Rightarrow> (if n = 0 then ''0px'' else old) | _ \<Rightarrow> old)"

text \<open>
  \<open>updateProgress(progress)\<close>, called from \<open>onUpdate\<close> with a report whose \<open>status\<close>
  was already read, so its reads cannot throw.
\<close>

definition ui_updateProgress :: "jsval \<Rightarrow> ui \<Rightarrow> ui" where
  "ui_updateProgress p u =
     (if js_prop p ''status'' = JStr ''downloading'' then
        u\<lparr>progress_status := ''Downloading...'',
          progress_percent := dom_text (js_prop p ''percent''),
          progress_fill := css_width (js_prop p ''percent'') (progress_fill u),
          progress_speed := dom_text (js_prop p ''speed''),
          progress_eta := dom_text (js_prop p ''eta''),
          progress_downloaded := dom_text (js_prop p ''downloaded'')\<rparr>
      else if js_prop p ''status'' = JStr ''processing'' then
        u\<lparr>progress_status := ''Processing file...'', progress_percent := ''100%'',
          progress_fill := ''100%''\<rparr>
      else if js_prop p ''status'' = JStr ''starting'' then
        u\<lparr>progress_status := ''Starting download...'', progress_percent := ''0%'',
          progress_fill := ''0%''\<rparr>
      else u)"

text \<open>The link's \<open>download\<close> attribute is a string: \<open>undefined\<close> becomes \<open>'undefined'\<close>.\<close>

definition ui_showSuccess :: "jsval \<Rightarrow> jsval \<Rightarrow> ui \<Rightarrow> ui" where
  "ui_showSuccess downloadId filename u =
     (ui_hideAllSections u)\<lparr>file_href := api_getFileUrl downloadId,
        file_download := js_string filename, success_shown := True\<rparr>"

definition ui_showError :: "jsval \<Rightarrow> ui \<Rightarrow> ui" where
  "ui_showError errorMsg u =
     (ui_hideAllSections u)\<lparr>error_message := dom_text errorMsg, error_shown := True\<rparr>"

definition ui_resetDownloadUI :: "ui \<Rightarrow> ui" where
  "ui_resetDownloadUI u = ui_hideVideoInfo ((ui_hideAllSections u)\<lparr>url_input := []\<rparr>)"

text \<open>
  \<open>showHistory(downloads)\<close>: the empty state for a falsy or empty value; otherwise
  \<open>downloads.map\<close>, which throws for a value that is no array, and each item's
  \<open>download.title\<close>, which throws for a \<open>null\<close> item.
\<close>

definition ui_showHistory :: "jsval \<Rightarrow> ui \<Rightarrow> js_error + ui" where
  "ui_showHistory downloads u =
     (if \<not> js_truthy downloads \<or> js_prop downloads ''length'' = JNum 0 then Inr (u\<lparr>history := JArr []\<rparr>)
      else (case downloads of
              JArr xs \<Rightarrow>
                (case find (\<lambda>x. x = JNull \<or> x = JUndef) xs of
                   Some x \<Rightarrow> Inl (read_error (js_string x) ''title'')
                 | None \<Rightarrow> Inr (u\<lparr>history := downloads\<rparr>))
            | _ \<Rightarrow> Inl (TypeError ''downloads.map is not a function'')))"

text \<open>
  \<open>updateStats(stats)\<close>: the first read, \<open>stats.total_files\<close>, throws on \<open>null\<close> and
  \<open>undefined\<close>; then every read succeeds. The storage field is a template literal.
\<close>

definition ui_updateStats :: "jsval \<Rightarrow> ui \<Rightarrow> js_error + ui" where
  "ui_updateStats st u =
     (case js_get st ''total_files'' of
        Inl e \<Rightarrow> Inl e
      | Inr totalFiles \<Rightarrow>
          Inr (u\<lparr>stat_total_files := dom_text totalFiles,
                 stat_storage := js_string (js_prop st ''total_size_mb'') @ '' MB'',
                 stat_active := dom_text (js_prop st ''active_downloads''),
                 stat_completed := dom_text (js_prop st ''completed_downloads'')\<rparr>))"

definition ui_isValidUrl :: "(string \<Rightarrow> bool) \<Rightarrow> string \<Rightarrow> bool" where
  "ui_isValidUrl parses url \<longleftrightarrow> parses url \<and> length url \<le> MAX_URL_LENGTH CONFIG"

text \<open>\<open>n.toString().padStart(2, '0')\<close>.\<close>

definition pad2 :: "nat \<Rightarrow> string" where
  "pad2 n = replicate (2 - length (decimal n)) (CHR ''0'') @ decimal n"

definition ui_formatDuration :: "nat \<Rightarrow> string" where
  "ui_formatDuration seconds =
     (if seconds = 0 then ''0:00''
      else (let hours = seconds div 3600; minutes = (seconds mod 3600) div 60; secs = seconds mod 60
            in if 0 < hours then decimal hours @ '':'' @ pad2 minutes @ '':'' @ pad2 secs
               else decimal minutes @ '':'' @ pad2 secs))"

text \<open>
  A reader for what \<open>formatDuration\<close> prints: the fields between colons, read as decimals.
\<close>

fun split_colon :: "string \<Rightarrow> string list" where
  "split_colon [] = [[]]"
| "split_colon (c # cs) =
     (if c = CHR '':'' then [] # split_colon cs
      else (let ws = split_colon cs in (c # hd ws) # tl ws))"

definition parse_duration :: "string \<Rightarrow> nat" where
  "parse_duration s =
     (case map undecimal (split_colon s) of
        [m, x] \<Rightarrow> m * 60 + x
      | [h, m, x] \<Rightarrow> h * 3600 + m * 60 + x
      | _ \<Rightarrow> 0)"

lemmas ui_defs [model_defs] = ui_switchTab_def ui_setLoading_def ui_showToast_def ui_toast_timeout_def
  ui_showVideoInfo_def ui_hideVideoInfo_def ui_setDownloadType_def ui_hideAllSections_def
  ui_showProgress_def ui_updateProgress_def ui_showSuccess_def ui_showError_def
  ui_resetDownloadUI_def

subsection \<open>Properties\<close>

lemma split_colon_nonempty: "split_colon xs \<noteq> []"
  by (induction xs) (simp_all add: Let_def)

lemma split_colon_plain: "CHR '':'' \<notin> set xs \<Longrightarrow> split_colon xs = [xs]"
  by (induction xs) (auto simp: Let_def)

lemma split_colon_append:
  "CHR '':'' \<notin> set xs \<Longrightarrow> split_colon (xs @ CHR '':'' # ys) = xs # split_colon ys"
proof (induction xs)
  case Nil
  then show ?case by simp
next
  case (Cons c cs)
  then show ?case by (auto simp: Let_def)
qed

lemma set_decimal: "set (decimal n) \<subseteq> set ''0123456789''"
proof (induction n rule: decimal.induct)
  case (1 n)
  show ?case
  proof (cases "n < 10")
    case True
    then have "''0123456789'' ! n \<in> set ''0123456789''" by (intro nth_mem) simp
    with True show ?thesis by (subst decimal.simps) simp
  next
    case False
    have "''0123456789'' ! (n mod 10) \<in> set ''0123456789''" by (intro nth_mem) simp
    with False "1.IH" show ?thesis by (subst decimal.simps) auto
  qed
qed

lemma colon_notin_decimal: "CHR '':'' \<notin> set (decimal n)"
  using set_decimal [of n] by auto

lemma colon_notin_pad2: "CHR '':'' \<notin> set (pad2 n)"
  using colon_notin_decimal [of n] by (simp add: pad2_def)

lemma undecimal_zeros: "undecimal (replicate k (CHR ''0'')) = 0"
  by (induction k) (simp_all add: digit_val_def)

lemma undecimal_pad2: "undecimal (pad2 n) = n"
  by (simp add: pad2_def undecimal_append undecimal_zeros undecimal_decimal)


text \<open>\<open>showHistory\<close> and \<open>updateStats\<close> change only their own tab.\<close>

lemma ui_showHistory_Inr: "ui_showHistory d u = Inr u' \<Longrightarrow> \<exists>h. u' = u\<lparr>history := h\<rparr>"
  by (auto simp: ui_showHistory_def split: if_splits jsval.splits option.splits)

lemma ui_updateStats_Inr:
  "ui_updateStats st u = Inr u' \<Longrightarrow>
   \<exists>a b c d. u' = u\<lparr>stat_total_files := a, stat_storage := b, stat_active := c, stat_completed := d\<rparr>"
  by (auto simp: ui_updateStats_def split: sum.splits)

end
