(* ===== verification/App.thy ===== *)
theory App
  imports Tracker Ui
begin

text \<open>
  The controller \<open>App\<close> of \<open>src/unnamed/part_001\<close> (the application's \<open>app.js\<close>).
  Its \<open>state\<close> object is the record \<open>app_state\<close>. The world the controller runs in
  extends the tracker runtime of theory \<open>Tracker\<close> with that state, the page
  (\<open>dom\<close>, theory \<open>Ui\<close>), the controller's own requests still in flight (each tagged
  with the \<open>async\<close> method waiting for it) and the log of those requests. Every
  \<open>async\<close> method is split at its \<open>await\<close>: the first part issues the request, the
  second (\<open>..._done\<close>) runs when it settles, with its \<open>try\<close>/\<open>catch\<close>/\<open>finally\<close>.
  \<open>app_step\<close> is the event loop: one event is a user action on a listener of
  \<open>setupEventListeners\<close>, a settled request, a tick of a tracker's timer or a settled
  status query (which runs the tracker's callback, defined here since the controller
  supplies it).
\<close>

record app_state =
  currentUrl :: string
  currentDownloadType :: string
  currentQuality :: string
  currentDownloadId :: jsval
  progressTracker :: "obj_ref option"
  videoInfo :: jsval

datatype req_kind = InfoReq | DownloadReq | HistoryReq | StatsReq | HealthReq | CleanupReq

record world = runtime +
  app :: app_state
  dom :: ui
  pending :: "(nat \<times> req_kind) list"
  next_req :: nat
  issued :: "request list"
  paste_timers :: nat

definition app_state_init :: app_state where
  "app_state_init = \<lparr>currentUrl = [], currentDownloadType = VIDEO (DOWNLOAD_TYPES CONFIG),
     currentQuality = DEFAULT_VIDEO_QUALITY CONFIG, currentDownloadId = JNull,
     progressTracker = None, videoInfo = JNull\<rparr>"

text \<open>The page as served (its HTML is not part of the repository).\<close>

definition ui_init :: ui where
  "ui_init = \<lparr>loading = False, toasts = [], toast_hidden = True, toast_timers = 0, url_input = [],
     info_shown = False, info = JNull, video_thumbnail = [], video_title = [], video_uploader = [],
     type_active = VIDEO (DOWNLOAD_TYPES CONFIG), quality_shown = True, progress_shown = False,
     progress_status = [], progress_percent = [], progress_fill = [], progress_speed = [],
     progress_eta = [], progress_downloaded = [], success_shown = False, file_href = [],
     file_download = [], error_shown = False, error_message = [], active_tab = ''download'',
     history = JNull, stat_total_files = [], stat_storage = [], stat_active = [],
     stat_completed = []\<rparr>"

definition world_blank :: world where
  "world_blank = \<lparr>trackers = [], timers = [], next_handle = 1, polls = [], next_poll = 0, sent = [],
     app = app_state_init, dom = ui_init, pending = [], next_req = 0, issued = [], paste_timers = 0\<rparr>"

definition on_dom :: "(ui \<Rightarrow> ui) \<Rightarrow> world \<Rightarrow> world" where
  "on_dom f w = w\<lparr>dom := f (dom w)\<rparr>"

definition on_app :: "(app_state \<Rightarrow> app_state) \<Rightarrow> world \<Rightarrow> world" where
  "on_app f w = w\<lparr>app := f (app w)\<rparr>"

text \<open>An \<open>async\<close> method reaching its \<open>await\<close>: the request is sent and awaited.\<close>

definition issue :: "req_kind \<Rightarrow> request \<Rightarrow> world \<Rightarrow> world" where
  "issue k r w = w\<lparr>pending := pending w @ [(next_req w, k)], next_req := Suc (next_req w),
                   issued := issued w @ [r]\<rparr>"

text \<open>The three emoji of the toasts, as the UTF-8 bytes of the source text.\<close>

definition check_mark :: string where "check_mark = [CHR 0xE2, CHR 0x9C, CHR 0x85]"
definition cross_mark :: string where "cross_mark = [CHR 0xE2, CHR 0x9D, CHR 0x8C]"
definition warning_sign :: string where
  "warning_sign = [CHR 0xE2, CHR 0x9A, CHR 0xA0, CHR 0xEF, CHR 0xB8, CHR 0x8F]"

subsection \<open>Requests and their continuations\<close>

definition checkServerHealth :: "world \<Rightarrow> world" where
  "checkServerHealth w = issue HealthReq api_healthCheck w"

definition checkServerHealth_done :: "fetch_result \<Rightarrow> world \<Rightarrow> world" where
  "checkServerHealth_done r w =
     (case api_response r of
        Inr _ \<Rightarrow> w
      | Inl _ \<Rightarrow> on_dom (ui_showToast (warning_sign @
          '' Cannot connect to server. Please check if backend is running.'')) w)"

definition loadHistory :: "world \<Rightarrow> world" where
  "loadHistory w = issue HistoryReq api_getDownloads w"

definition loadHistory_done :: "fetch_result \<Rightarrow> world \<Rightarrow> world" where
  "loadHistory_done r w =
     (let failed = on_dom (ui_showToast ''Failed to load history'') w in
      case api_response r of
        Inl _ \<Rightarrow> failed
      | Inr response \<Rightarrow>
          (case js_get response ''downloads'' of
             Inl _ \<Rightarrow> failed
           | Inr downloads \<Rightarrow>
               (case ui_showHistory downloads (dom w) of
                  Inl _ \<Rightarrow> failed
                | Inr d \<Rightarrow> w\<lparr>dom := d\<rparr>)))"

definition loadStats :: "world \<Rightarrow> world" where
  "loadStats w = issue StatsReq api_getStats w"

definition loadStats_done :: "fetch_result \<Rightarrow> world \<Rightarrow> world" where
  "loadStats_done r w =
     (let failed = on_dom (ui_showToast ''Failed to load statistics'') w in
      case api_response r of
        Inl _ \<Rightarrow> failed
      | Inr st \<Rightarrow> (case ui_updateStats st (dom w) of Inl _ \<Rightarrow> failed | Inr d \<Rightarrow> w\<lparr>dom := d\<rparr>))"

definition manualCleanup :: "bool \<Rightarrow> world \<Rightarrow> world" where
  "manualCleanup confirmed w =
     (if \<not> confirmed then w
      else issue CleanupReq api_cleanup_default (on_dom (ui_setLoading True) w))"

definition manualCleanup_done :: "fetch_result \<Rightarrow> world \<Rightarrow> world" where
  "manualCleanup_done r w =
     (let failed = (\<lambda>e. on_dom (ui_setLoading False)
                          (on_dom (ui_showToast (''Cleanup failed: '' @ err_message e)) w)) in
      case api_response r of
        Inl e \<Rightarrow> failed e
      | Inr response \<Rightarrow>
          (case js_get response ''deleted'' of
             Inl e \<Rightarrow> failed e
           | Inr deleted \<Rightarrow>
               on_dom (ui_setLoading False) (loadHistory (loadStats
                 (on_dom (ui_showToast (''Cleanup complete! Deleted '' @ js_string deleted @ '' files.'')) w)))))"

text \<open>The \<open>catch\<close> of \<open>fetchVideoInfo\<close> and of \<open>startDownload\<close> (the same two calls).\<close>

definition report_error :: "js_error \<Rightarrow> world \<Rightarrow> world" where
  "report_error e w =
     on_dom (ui_showError (JStr (err_message e)) \<circ> ui_showToast (''Error: '' @ err_message e)) w"

definition fetchVideoInfo :: "(string \<Rightarrow> bool) \<Rightarrow> world \<Rightarrow> world" where
  "fetchVideoInfo parses w =
     (let url = js_trim (url_input (dom w)) in
      if url = [] then on_dom (ui_showToast ''Please enter a URL'') w
      else if \<not> ui_isValidUrl parses url then on_dom (ui_showToast ''Please enter a valid URL'') w
      else issue InfoReq (api_getVideoInfo url)
             (on_dom (ui_setLoading True) (on_app (\<lambda>a. a\<lparr>currentUrl := url\<rparr>) w)))"

definition fetchVideoInfo_done :: "fetch_result \<Rightarrow> world \<Rightarrow> world" where
  "fetchVideoInfo_done r w =
     on_dom (ui_setLoading False)
       (case api_response r of
          Inl e \<Rightarrow> report_error e w
        | Inr vinfo \<Rightarrow>
            (let w1 = on_app (\<lambda>a. a\<lparr>videoInfo := vinfo\<rparr>) w in
             case ui_showVideoInfo vinfo (dom w1) of
               Inl e \<Rightarrow> report_error e w1
             | Inr d \<Rightarrow> w1\<lparr>dom := ui_showToast ''Video info loaded successfully!'' d\<rparr>))"

definition startDownload :: "world \<Rightarrow> world" where
  "startDownload w =
     (if currentUrl (app w) = [] then on_dom (ui_showToast ''Please fetch video info first'') w
      else issue DownloadReq
             (api_startDownload (currentUrl (app w)) (currentDownloadType (app w)) (currentQuality (app w)))
             (on_dom (ui_setLoading True) w))"

text \<open>
  \<open>trackProgress()\<close>: stop the tracker in \<open>state.progressTracker\<close>, construct a new one
  for \<open>state.currentDownloadId\<close> (it becomes the next heap object), store it and start it.
\<close>

definition trackProgress :: "world \<Rightarrow> world" where
  "trackProgress w =
     (let w1 = (case progressTracker (app w) of Some i \<Rightarrow> tracker_stop i w | None \<Rightarrow> w);
          n = length (trackers w1)
      in tracker_start n
           (on_app (\<lambda>a. a\<lparr>progressTracker := Some n\<rparr>)
              (w1\<lparr>trackers := trackers w1 @ [new_tracker (currentDownloadId (app w1))]\<rparr>)))"

definition startDownload_done :: "fetch_result \<Rightarrow> world \<Rightarrow> world" where
  "startDownload_done r w =
     on_dom (ui_setLoading False)
       (case api_response r of
          Inl e \<Rightarrow> report_error e w
        | Inr response \<Rightarrow>
            (case js_get response ''download_id'' of
               Inl e \<Rightarrow> report_error e w
             | Inr did \<Rightarrow>
                 trackProgress
                   (on_dom (ui_showToast ''Download started!'' \<circ> ui_showProgress)
                      (on_app (\<lambda>a. a\<lparr>currentDownloadId := did\<rparr>) w))))"

text \<open>The three callbacks \<open>trackProgress\<close> hands to each tracker.\<close>

fun on_callback :: "callback \<Rightarrow> world \<Rightarrow> world" where
  "on_callback (OnUpdate progress) w = on_dom (ui_updateProgress progress) w"
| "on_callback (OnComplete progress) w =
     loadHistory (on_dom (ui_showToast (check_mark @ '' Download complete!'') \<circ>
                          ui_showSuccess (currentDownloadId (app w)) (js_prop progress ''filename'')) w)"
| "on_callback (OnError error) w =
     on_dom (ui_showToast (cross_mark @ '' Download failed: '' @ js_string error) \<circ> ui_showError error) w"

definition resume :: "req_kind \<Rightarrow> fetch_result \<Rightarrow> world \<Rightarrow> world" where
  "resume k r w =
     (case k of
        InfoReq \<Rightarrow> fetchVideoInfo_done r w
      | DownloadReq \<Rightarrow> startDownload_done r w
      | HistoryReq \<Rightarrow> loadHistory_done r w
      | StatsReq \<Rightarrow> loadStats_done r w
      | HealthReq \<Rightarrow> checkServerHealth_done r w
      | CleanupReq \<Rightarrow> manualCleanup_done r w)"

definition app_init :: "world \<Rightarrow> world" where
  "app_init w = loadStats (loadHistory (checkServerHealth w))"

definition world_init :: world where
  "world_init = app_init world_blank"

subsection \<open>The listeners of \<open>setupEventListeners\<close>\<close>

definition navTab_clicked :: "string \<Rightarrow> world \<Rightarrow> world" where
  "navTab_clicked tab w =
     (let w1 = on_dom (ui_switchTab tab) w in
      if tab = ''history'' then loadHistory w1
      else if tab = ''stats'' then loadStats w1 else w1)"

definition paste_check :: "(string \<Rightarrow> bool) \<Rightarrow> world \<Rightarrow> world" where
  "paste_check parses w =
     (let url = js_trim (url_input (dom w)) in
      if url \<noteq> [] \<and> ui_isValidUrl parses url
      then on_dom (ui_showToast ''URL detected! Click \"Get Info\" to continue.'') w else w)"

definition typeBtn_clicked :: "string \<Rightarrow> world \<Rightarrow> world" where
  "typeBtn_clicked type w =
     on_dom (ui_setDownloadType type) (on_app (\<lambda>a. a\<lparr>currentDownloadType := type\<rparr>) w)"

definition newDownload_clicked :: "world \<Rightarrow> world" where
  "newDownload_clicked w = on_dom (ui_switchTab ''download'' \<circ> ui_resetDownloadUI) w"

text \<open>\<open>showVideoInfo\<close> cannot throw on a truthy info object.\<close>

definition retry_clicked :: "world \<Rightarrow> world" where
  "retry_clicked w =
     (let w1 = on_dom ui_hideAllSections w in
      if js_truthy (videoInfo (app w1)) then
        (case ui_showVideoInfo (videoInfo (app w1)) (dom w1) of Inl _ \<Rightarrow> w1 | Inr d \<Rightarrow> w1\<lparr>dom := d\<rparr>)
      else on_dom ui_resetDownloadUI w1)"

datatype app_event =
    NavTab string
  | EditUrl string
  | PasteUrl string
  | PasteTimer
  | ToastTimer
  | ClickFetchInfo
  | KeyPress string
  | ClickType string
  | ChangeQuality string
  | ClickDownload
  | ClickNewDownload
  | ClickRetry
  | ClickDownloadFile
  | ClickRefreshHistory
  | ClickRefreshStats
  | ClickCleanup bool
  | Settle nat fetch_result
  | TimerTick handle
  | PollSettle poll_id fetch_result

fun app_step :: "(string \<Rightarrow> bool) \<Rightarrow> world \<Rightarrow> app_event \<Rightarrow> world" where
  "app_step parses w (NavTab tab) = navTab_clicked tab w"
| "app_step parses w (EditUrl s) = on_dom (\<lambda>d. d\<lparr>url_input := s\<rparr>) w"
| "app_step parses w (PasteUrl s) =
     (on_dom (\<lambda>d. d\<lparr>url_input := s\<rparr>) w)\<lparr>paste_timers := Suc (paste_timers w)\<rparr>"
| "app_step parses w PasteTimer =
     (if paste_timers w = 0 then w else paste_check parses (w\<lparr>paste_timers := paste_timers w - 1\<rparr>))"
| "app_step parses w ToastTimer = on_dom ui_toast_timeout w"
| "app_step parses w ClickFetchInfo = fetchVideoInfo parses w"
| "app_step parses w (KeyPress key) = (if key = ''Enter'' then fetchVideoInfo parses w else w)"
| "app_step parses w (ClickType type) = typeBtn_clicked type w"
| "app_step parses w (ChangeQuality q) = on_app (\<lambda>a. a\<lparr>currentQuality := q\<rparr>) w"
| "app_step parses w ClickDownload = startDownload w"
| "app_step parses w ClickNewDownload = newDownload_clicked w"
| "app_step parses w ClickRetry = retry_clicked w"
| "app_step parses w ClickDownloadFile = on_dom (ui_showToast ''Download started in your browser!'') w"
| "app_step parses w ClickRefreshHistory = loadHistory w"
| "app_step parses w ClickRefreshStats = loadStats w"
| "app_step parses w (ClickCleanup confirmed) = manualCleanup confirmed w"
| "app_step parses w (Settle n r) =
     (case map_of (pending w) n of
        None \<Rightarrow> w
      | Some k \<Rightarrow> resume k r (w\<lparr>pending := filter (\<lambda>x. fst x \<noteq> n) (pending w)\<rparr>))"
| "app_step parses w (TimerTick h) = timer_fire h w"
| "app_step parses w (PollSettle p r) =
     (case poll_settle p r w of
        (w', None) \<Rightarrow> w'
      | (w', Some (i, cb)) \<Rightarrow> on_callback cb w')"

definition app_run :: "(string \<Rightarrow> bool) \<Rightarrow> world \<Rightarrow> app_event list \<Rightarrow> world" where
  "app_run parses w es = foldl (app_step parses) w es"

subsection \<open>Invariants and concrete sessions\<close>

text \<open>
  \<open>frame w w'\<close>: a handler that leaves the tracker runtime and \<open>state.progressTracker\<close>
  alone. \<open>app_inv\<close>: the runtime is well formed, every live timer belongs to the tracker
  in \<open>state.progressTracker\<close>, and that reference is allocated.
\<close>

definition frame :: "world \<Rightarrow> world \<Rightarrow> bool" where
  "frame w w' \<longleftrightarrow> trackers w' = trackers w \<and> timers w' = timers w \<and> next_handle w' = next_handle w \<and>
     polls w' = polls w \<and> next_poll w' = next_poll w \<and> sent w' = sent w \<and>
     progressTracker (app w') = progressTracker (app w)"

definition app_inv :: "world \<Rightarrow> bool" where
  "app_inv w \<longleftrightarrow> rt_wf w \<and> (\<forall>hi \<in> set (timers w). progressTracker (app w) = Some (snd hi)) \<and>
     (\<forall>i. progressTracker (app w) = Some i \<longrightarrow> i < length (trackers w))"

text \<open>
  \<open>dispatch_url_ok\<close>: an \<open>/api/info\<close> or \<open>/api/download\<close> request carries a \<open>url\<close>
  member that \<open>UI.isValidUrl\<close> accepts. \<open>url_inv\<close>: every request issued so far
  does, and \<open>state.currentUrl\<close> is empty or valid.
\<close>

definition dispatch_url_ok :: "(string \<Rightarrow> bool) \<Rightarrow> request \<Rightarrow> bool" where
  "dispatch_url_ok parses q =
     (case q of
        Get u \<Rightarrow> True
      | Post u body \<Rightarrow>
          (if u = ''http://localhost:5000/api/info'' \<or> u = ''http://localhost:5000/api/download''
           then (case js_prop body ''url'' of JStr s \<Rightarrow> ui_isValidUrl parses s | _ \<Rightarrow> False)
           else True))"

definition url_inv :: "(string \<Rightarrow> bool) \<Rightarrow> world \<Rightarrow> bool" where
  "url_inv parses w \<longleftrightarrow>
     (currentUrl (app w) = [] \<or> ui_isValidUrl parses (currentUrl (app w))) \<and>
     list_all (dispatch_url_ok parses) (issued w)"

text \<open>
  Concrete sessions for the scenarios: a URL parser that accepts everything, a JSON
  \<open>ok\<close> response, and event traces. Request 3 is the first request after the three
  of \<open>init\<close>; tracker 0 is the first tracker.
\<close>

definition accept_all :: "string \<Rightarrow> bool" where "accept_all s = True"

definition ok_json :: "(string \<times> jsval) list \<Rightarrow> fetch_result" where
  "ok_json fs = Resp True (Inr (JObj fs))"

definition trace_stale :: "app_event list" where
  "trace_stale = [EditUrl ''https://youtu.be/x'', ClickFetchInfo,
     Settle 3 (ok_json [(''title'', JStr ''T''), (''thumbnail'', JStr ''t.jpg'')]),
     ClickDownload, Settle 4 (ok_json [(''download_id'', JStr ''d1'')]),
     ClickDownload, Settle 5 (ok_json [(''download_id'', JStr ''d2'')]),
     PollSettle 0 (ok_json [(''status'', JStr ''completed''), (''filename'', JStr ''first.mp4'')])]"

definition trace_new_download :: "app_event list" where
  "trace_new_download = [EditUrl ''https://youtu.be/x'', ClickFetchInfo,
     Settle 3 (ok_json [(''title'', JStr ''T''), (''thumbnail'', JStr ''t.jpg'')]),
     ClickDownload, Settle 4 (ok_json [(''download_id'', JStr ''d1'')]),
     ClickDownload, Settle 5 (ok_json [(''download_id'', JStr ''d2'')]),
     PollSettle 1 (ok_json [(''status'', JStr ''completed''), (''filename'', JStr ''second.mp4'')]),
     ClickNewDownload,
     PollSettle 0 (ok_json [(''status'', JStr ''error''), (''error'', JStr ''boom'')])]"

definition trace_C :: "app_event list" where
  "trace_C = [EditUrl ''https://youtu.be/x'', ClickFetchInfo,
     Settle 3 (ok_json [(''title'', JStr ''T''), (''thumbnail'', JStr ''t.jpg'')]),
     ClickDownload, ClickDownload,
     Settle 5 (ok_json [(''download_id'', JStr ''d2'')]),
     Settle 4 (ok_json [(''download_id'', JStr ''d1'')])]"

text \<open>
  A user can only click a button that is on screen. \<open>UI.init\<close> groups the buttons by
  section: the type buttons, quality select and download button are in the video-info
  card, New Download and the file link in the success section, Retry in the error
  section. \<open>feasible\<close> holds of an event list that clicks only visible buttons.
\<close>

definition clickable :: "world \<Rightarrow> app_event \<Rightarrow> bool" where
  "clickable w e =
     (case e of
        ClickType _ \<Rightarrow> info_shown (dom w)
      | ChangeQuality _ \<Rightarrow> info_shown (dom w)
      | ClickDownload \<Rightarrow> info_shown (dom w)
      | ClickNewDownload \<Rightarrow> success_shown (dom w)
      | ClickDownloadFile \<Rightarrow> success_shown (dom w)
      | ClickRetry \<Rightarrow> error_shown (dom w)
      | _ \<Rightarrow> True)"

fun feasible :: "(string \<Rightarrow> bool) \<Rightarrow> world \<Rightarrow> app_event list \<Rightarrow> bool" where
  "feasible parses w [] = True"
| "feasible parses w (e # es) = (clickable w e \<and> feasible parses (app_step parses w e) es)"

subsection \<open>The controller keeps at most one polling tracker\<close>

lemmas app_defs = on_dom_def on_app_def issue_def checkServerHealth_def checkServerHealth_done_def
  loadHistory_def loadHistory_done_def loadStats_def loadStats_done_def manualCleanup_def
  manualCleanup_done_def report_error_def fetchVideoInfo_def fetchVideoInfo_done_def startDownload_def
  navTab_clicked_def paste_check_def typeBtn_clicked_def newDownload_clicked_def retry_clicked_def

lemmas world_defs = world_init_def app_init_def world_blank_def app_state_init_def ui_init_def
  app_defs ui_defs api_defs config_simps tracker_ops resume_def startDownload_done_def
  trackProgress_def api_response_def ok_json_def ui_isValidUrl_def accept_all_def js_trim_def
  js_space_def check_mark_def js_or_def

lemma frame_refl: "frame w w"
  by (simp add: frame_def)

lemma frame_inv: "app_inv w \<Longrightarrow> frame w w' \<Longrightarrow> app_inv w'"
  by (simp add: frame_def app_inv_def rt_wf_def)

lemma frame_handlers:
  "frame w (on_dom f w)"
  "frame w (issue k q w)"
  "frame w (checkServerHealth_done r w)"
  "frame w (loadHistory w)"
  "frame w (loadHistory_done r w)"
  "frame w (loadStats w)"
  "frame w (loadStats_done r w)"
  "frame w (manualCleanup b w)"
  "frame w (manualCleanup_done r w)"
  "frame w (report_error e w)"
  "frame w (fetchVideoInfo parses w)"
  "frame w (fetchVideoInfo_done r w)"
  "frame w (startDownload w)"
  "frame w (navTab_clicked tab w)"
  "frame w (paste_check parses w)"
  "frame w (typeBtn_clicked type w)"
  "frame w (newDownload_clicked w)"
  "frame w (retry_clicked w)"
  "frame w (on_callback cb w)"
  by (cases cb; simp add: frame_def app_defs Let_def split: sum.splits)+

lemma frame_inv_iff: "frame w w' \<Longrightarrow> app_inv w' = app_inv w"
  by (simp add: frame_def app_inv_def rt_wf_def)

lemmas app_inv_handlers = frame_handlers [THEN frame_inv_iff]

lemma app_of_tracker_ops [simp]:
  "app (tracker_stop i w) = app w" "app (tracker_start i w) = app w" "app (check_progress i w) = app w"
  "app (timer_fire h w) = app w"
  by (simp_all add: tracker_ops Let_def split: option.splits)

lemma timers_none_current:
  assumes "app_inv w" and "progressTracker (app w) = None"
  shows "timers w = []"
  using assms by (cases "timers w") (auto simp: app_inv_def)

lemma timers_gone_after_stop:
  assumes inv: "app_inv w" and cur: "progressTracker (app w) = Some i"
  shows "timers (tracker_stop i w) = []"
proof -
  have wf: "rt_wf w" and i: "i < length (trackers w)" using inv cur by (auto simp: app_inv_def)
  have "(h, j) \<notin> set (timers (tracker_stop i w))" for h j
  proof
    assume "(h, j) \<in> set (timers (tracker_stop i w))"
    then have "j \<noteq> i" and "(h, j) \<in> set (timers w)" using stop_timers_iff [OF wf i] by auto
    with inv cur show False by (force simp: app_inv_def)
  qed
  then show ?thesis by (cases "timers (tracker_stop i w)") auto
qed

lemma trackProgress_inv:
  assumes inv: "app_inv w"
  shows "app_inv (trackProgress w) \<and>
    timers (trackProgress w) = [(next_handle w, length (trackers w))] \<and>
    progressTracker (app (trackProgress w)) = Some (length (trackers w))"
proof -
  define w1 where "w1 = (case progressTracker (app w) of Some i \<Rightarrow> tracker_stop i w | None \<Rightarrow> w)"
  have wf1: "rt_wf w1" and t1: "timers w1 = []" and len1: "length (trackers w1) = length (trackers w)"
    and nh1: "next_handle w1 = next_handle w"
    using inv timers_none_current [OF inv] timers_gone_after_stop [OF inv]
    by (auto simp: w1_def app_inv_def rt_wf_tracker_stop split: option.splits)
  define n where "n = length (trackers w1)"
  define w2 where "w2 = on_app (\<lambda>a. a\<lparr>progressTracker := Some n\<rparr>)
              (w1\<lparr>trackers := trackers w1 @ [new_tracker (currentDownloadId (app w1))]\<rparr>)"
  have wf2: "rt_wf w2" using rt_wf_new [OF wf1] by (simp add: w2_def on_app_def rt_wf_def)
  have n2: "n < length (trackers w2)" and idle: "\<not> isTracking (trackers w2 ! n)"
    by (simp_all add: w2_def n_def on_app_def new_tracker_def)
  have tp: "trackProgress w = tracker_start n w2"
    by (simp add: trackProgress_def w1_def w2_def n_def Let_def)
  have wf3: "rt_wf (tracker_start n w2)" using wf2 n2 by (rule rt_wf_tracker_start)
  have t3: "timers (tracker_start n w2) = [(next_handle w, n)]"
    using idle n2 t1 nh1 by (simp add: tracker_start_idle w2_def on_app_def)
  have p3: "progressTracker (app (tracker_start n w2)) = Some n"
    by (simp add: w2_def on_app_def)
  have l3: "n < length (trackers (tracker_start n w2))"
    using n2 idle by (simp add: tracker_start_idle)
  show ?thesis
    using wf3 t3 p3 l3 by (simp add: tp app_inv_def n_def len1)
qed

lemma poll_settle_shrinks:
  assumes wf: "rt_wf w"
  shows "set (timers (fst (poll_settle p r w))) \<subseteq> set (timers w) \<and>
    app (fst (poll_settle p r w)) = app w \<and>
    length (trackers (fst (poll_settle p r w))) = length (trackers w)"
proof (cases "map_of (polls w) p")
  case None
  then show ?thesis by (simp add: poll_settle_def)
next
  case (Some i)
  have i: "i < length (trackers w)" using poll_settle_target [OF wf Some] .
  then show ?thesis using Some
    by (auto simp: poll_settle_def check_progress_done_split case_prod_unfold tracker_stop_timers
        split: option.splits)
qed

lemma app_inv_step:
  assumes inv: "app_inv w"
  shows "app_inv (app_step parses w e)"
proof (cases e)
  case (Settle n r)
  show ?thesis
  proof (cases "map_of (pending w) n")
    case None
    then show ?thesis using Settle inv by simp
  next
    case (Some k)
    define w0 where "w0 = w\<lparr>pending := filter (\<lambda>x. fst x \<noteq> n) (pending w)\<rparr>"
    have inv0: "app_inv w0" using inv by (rule frame_inv) (simp add: frame_def w0_def)
    have "app_inv (resume k r w0)"
    proof (cases k)
      case DownloadReq
      show ?thesis
      proof (cases "api_response r")
        case (Inl e)
        then show ?thesis using DownloadReq inv0
          by (simp add: resume_def startDownload_done_def app_inv_handlers)
      next
        case (Inr response)
        show ?thesis
        proof (cases "js_get response ''download_id''")
          case (Inl e)
          then show ?thesis using DownloadReq inv0 \<open>api_response r = Inr response\<close>
            by (simp add: resume_def startDownload_done_def app_inv_handlers)
        next
          case (Inr did)
          let ?w = "on_dom (ui_showToast ''Download started!'' \<circ> ui_showProgress)
                      (on_app (\<lambda>a. a\<lparr>currentDownloadId := did\<rparr>) w0)"
          have "app_inv ?w" using inv0 by (rule frame_inv) (simp add: frame_def app_defs)
          then have "app_inv (trackProgress ?w)" using trackProgress_inv by blast
          then show ?thesis using DownloadReq Inr \<open>api_response r = Inr response\<close>
            by (simp add: resume_def startDownload_done_def app_inv_handlers)
        qed
      qed
    qed (use inv0 in \<open>simp_all add: resume_def app_inv_handlers\<close>)
    then show ?thesis using Settle Some by (simp add: w0_def)
  qed
next
  case (TimerTick h)
  have "rt_wf (timer_fire h w)" using inv by (simp add: app_inv_def rt_wf_timer_fire)
  moreover have "timers (timer_fire h w) = timers w" "trackers (timer_fire h w) = trackers w"
    by (simp_all add: timer_fire_def split: option.splits)
  ultimately show ?thesis using inv TimerTick by (simp add: app_inv_def)
next
  case (PollSettle p r)
  have wf: "rt_wf w" using inv by (simp add: app_inv_def)
  obtain w' c where eq: "poll_settle p r w = (w', c)" by fastforce
  have "rt_wf w'" using rt_wf_poll_settle [OF wf, of p r] eq by simp
  moreover have "set (timers w') \<subseteq> set (timers w)" "app w' = app w"
    "length (trackers w') = length (trackers w)"
    using poll_settle_shrinks [OF wf, of p r] eq by simp_all
  ultimately have inv': "app_inv w'" using inv unfolding app_inv_def by auto
  show ?thesis
  proof (cases c)
    case None
    then show ?thesis using PollSettle eq inv' by simp
  next
    case (Some ic)
    then show ?thesis using PollSettle eq inv'
      by (cases ic) (simp add: app_inv_handlers)
  qed
next
  case (PasteUrl s)
  then show ?thesis using inv by (simp add: frame_inv [OF inv] frame_def on_dom_def)
next
  case PasteTimer
  then show ?thesis using inv
    by (auto simp: frame_inv [OF inv] frame_def intro: frame_inv [OF _ frame_handlers(15)])
next
  case (ChangeQuality q)
  then show ?thesis using inv by (simp add: frame_inv [OF inv] frame_def on_app_def)
qed (use inv in \<open>simp_all add: app_inv_handlers\<close>)

lemma app_inv_run: "app_inv w \<Longrightarrow> app_inv (app_run parses w es)"
  by (induction es arbitrary: w) (simp_all add: app_run_def app_inv_step)

lemma app_inv_init: "app_inv world_init"
  by (simp add: app_inv_def world_init_def app_init_def world_blank_def app_defs rt_wf_def
      app_state_init_def)

text \<open>
  Claim C1: in every run of the controller from page load, whatever the user does and
  in whatever order the requests and status queries settle, at most one interval timer is
  live, and it belongs to the tracker in \<open>state.progressTracker\<close>: \<open>trackProgress\<close>
  stops the previous tracker before it starts the next.
\<close>

theorem single_polling_tracker:
  "length (timers (app_run parses world_init es)) \<le> 1 \<and>
   (\<forall>hi \<in> set (timers (app_run parses world_init es)).
      progressTracker (app (app_run parses world_init es)) = Some (snd hi))"
proof -
  let ?w = "app_run parses world_init es"
  have inv: "app_inv ?w" by (rule app_inv_run [OF app_inv_init])
  then have wf: "rt_wf ?w" and cur: "\<forall>hi \<in> set (timers ?w). progressTracker (app ?w) = Some (snd hi)"
    by (simp_all add: app_inv_def)
  have "length (timers ?w) \<le> 1"
  proof (rule ccontr)
    assume "\<not> length (timers ?w) \<le> 1"
    then obtain a b rest where t: "timers ?w = a # b # rest"
      by (cases "timers ?w" rule: remdups_adj.cases) auto
    have "snd a = snd b" using cur t by auto
    moreover have ia: "interval (trackers ?w ! snd a) = Some (fst a)"
      and ib: "interval (trackers ?w ! snd b) = Some (fst b)"
      using wf t unfolding rt_wf_def by (metis list.set_intros(1,2) prod.collapse)+
    ultimately have "fst a = fst b" by simp
    moreover have "fst a \<noteq> fst b" using wf t by (auto simp: rt_wf_def)
    ultimately show False by simp
  qed
  with cur show ?thesis by blast
qed

theorem single_polling_tracker_witness:
  "length (timers (app_run accept_all world_init trace_C)) \<le> 1 \<and>
   progressTracker (app (app_run accept_all world_init trace_C)) = Some 1"
  using single_polling_tracker [of accept_all trace_C]
  by (simp add: app_run_def trace_C_def world_defs Let_def clickable_def)

subsection \<open>Dispatching and its divergences\<close>


text \<open>
  A stopped tracker can overwrite a reset page (the run of \<open>Lifecycle.idle_to_failed\<close>). Two downloads, the second
  completes and the user clicks \<open>New Download\<close>; the status query the first tracker
  had in flight when it was superseded then settles with an error, and the error card
  replaces the fresh form.
\<close>

lemma new_download_then_stale_error:
  "let w = app_run accept_all world_init trace_new_download in
   feasible accept_all world_init trace_new_download \<and>
   error_shown (dom w) \<and> error_message (dom w) = ''boom'' \<and> \<not> info_shown (dom w) \<and>
   \<not> success_shown (dom w) \<and> url_input (dom w) = [] \<and> currentUrl (app w) = ''https://youtu.be/x''"
  by (simp add: app_run_def trace_new_download_def world_defs Let_def js_prop_def dom_text_def
      cross_mark_def clickable_def)

text \<open>
  Claim C24: \<open>New Download\<close> only resets the page: the controller state, the trackers,
  their timers and in-flight queries and the pending requests are all kept.
\<close>

theorem new_download_keeps_session:
  "let w' = app_step parses w ClickNewDownload in
   app w' = app w \<and> trackers w' = trackers w \<and> timers w' = timers w \<and> polls w' = polls w \<and>
   pending w' = pending w \<and>
   \<not> progress_shown (dom w') \<and> \<not> success_shown (dom w') \<and> \<not> error_shown (dom w') \<and>
   \<not> info_shown (dom w') \<and> url_input (dom w') = []"
  by (simp add: newDownload_clicked_def app_defs ui_defs)



lemma trackProgress_fields:
  assumes inv: "app_inv w"
  shows "sent (trackProgress w) = sent w @ [(length (trackers w), api_getProgress (currentDownloadId (app w)))] \<and>
    length (trackers (trackProgress w)) = Suc (length (trackers w)) \<and>
    downloadId (trackers (trackProgress w) ! length (trackers w)) = currentDownloadId (app w) \<and>
    currentDownloadId (app (trackProgress w)) = currentDownloadId (app w) \<and>
    dom (trackProgress w) = dom w"
proof -
  define w1 where "w1 = (case progressTracker (app w) of Some i \<Rightarrow> tracker_stop i w | None \<Rightarrow> w)"
  have l1: "length (trackers w1) = length (trackers w)" and s1: "sent w1 = sent w"
    and a1: "app w1 = app w" and d1: "dom w1 = dom w"
    by (simp_all add: w1_def split: option.splits) (simp_all add: tracker_stop_def upd_tracker_def split: option.splits)
  define w2 where "w2 = on_app (\<lambda>a. a\<lparr>progressTracker := Some (length (trackers w1))\<rparr>)
              (w1\<lparr>trackers := trackers w1 @ [new_tracker (currentDownloadId (app w1))]\<rparr>)"
  have idle: "\<not> isTracking (trackers w2 ! length (trackers w1))"
    and len: "length (trackers w1) < length (trackers w2)"
    by (simp_all add: w2_def on_app_def new_tracker_def)
  have tp: "trackProgress w = tracker_start (length (trackers w1)) w2"
    by (simp add: trackProgress_def w1_def w2_def Let_def)
  show ?thesis
    using idle len l1 s1 a1 d1
    by (simp add: tp tracker_start_idle) (simp add: w2_def on_app_def new_tracker_def nth_append)
qed

text \<open>
  Claim C7: a successful \<open>/api/download\<close> response with a \<open>download_id\<close> stores the id,
  starts a fresh tracker for it (the only live timer, its first status query sent at once),
  every older tracker is stopped, the progress section is shown and the overlay cleared.
\<close>

theorem dispatch_success_starts_tracker:
  assumes inv: "app_inv w" and p: "map_of (pending w) n = Some DownloadReq"
    and r: "api_response r = Inr (JObj fs)" and d: "map_of fs ''download_id'' = Some did"
  shows "let w' = app_step parses w (Settle n r); t = length (trackers w) in
    currentDownloadId (app w') = did \<and> progressTracker (app w') = Some t \<and>
    downloadId (trackers w' ! t) = did \<and> timers w' = [(next_handle w, t)] \<and>
    sent w' = sent w @ [(t, api_getProgress did)] \<and>
    (\<forall>i < t. interval (trackers w' ! i) = None) \<and>
    progress_shown (dom w') \<and> \<not> loading (dom w')"
proof -
  define w0 where "w0 = w\<lparr>pending := filter (\<lambda>x. fst x \<noteq> n) (pending w)\<rparr>"
  define v where "v = on_dom (ui_showToast ''Download started!'' \<circ> ui_showProgress)
                      (on_app (\<lambda>a. a\<lparr>currentDownloadId := did\<rparr>) w0)"
  have invv: "app_inv v" using inv by (rule frame_inv) (simp add: frame_def v_def w0_def app_defs)
  have vf: "trackers v = trackers w" "next_handle v = next_handle w" "sent v = sent w"
    "currentDownloadId (app v) = did" "progress_shown (dom v)"
    by (simp_all add: v_def w0_def app_defs ui_defs)
  have step: "app_step parses w (Settle n r) = on_dom (ui_setLoading False) (trackProgress v)"
    using p r d by (simp add: w0_def v_def resume_def startDownload_done_def)
  have T: "app_inv (trackProgress v) \<and> timers (trackProgress v) = [(next_handle v, length (trackers v))] \<and>
      progressTracker (app (trackProgress v)) = Some (length (trackers v))"
    using invv by (rule trackProgress_inv)
  have F: "sent (trackProgress v) = sent v @ [(length (trackers v), api_getProgress (currentDownloadId (app v)))] \<and>
    length (trackers (trackProgress v)) = Suc (length (trackers v)) \<and>
    downloadId (trackers (trackProgress v) ! length (trackers v)) = currentDownloadId (app v) \<and>
    currentDownloadId (app (trackProgress v)) = currentDownloadId (app v) \<and>
    dom (trackProgress v) = dom v"
    using invv by (rule trackProgress_fields)
  have stopped: "interval (trackers (trackProgress v) ! i) = None" if "i < length (trackers w)" for i
  proof (rule ccontr)
    assume "interval (trackers (trackProgress v) ! i) \<noteq> None"
    then obtain h where "interval (trackers (trackProgress v) ! i) = Some h" by blast
    moreover have "i < length (trackers (trackProgress v))" using F that vf by simp
    ultimately have "(h, i) \<in> set (timers (trackProgress v))"
      using T unfolding app_inv_def rt_wf_def by blast
    then show False using T that vf by simp
  qed
  show ?thesis using T F vf stopped unfolding Let_def step by (simp add: on_dom_def ui_defs)
qed

theorem dispatch_success_starts_tracker_witness:
  "let w = app_run accept_all world_init [EditUrl ''https://youtu.be/x'', ClickFetchInfo, ClickDownload];
       w' = app_step accept_all w (Settle 4 (ok_json [(''download_id'', JStr ''d1'')])) in
   currentDownloadId (app w') = JStr ''d1'' \<and> progressTracker (app w') = Some 0 \<and>
   timers w' = [(1, 0)] \<and> sent w' = [(0, Get ''http://localhost:5000/api/progress/d1'')]"
proof -
  let ?w = "app_run accept_all world_init [EditUrl ''https://youtu.be/x'', ClickFetchInfo, ClickDownload]"
  have inv: "app_inv ?w" by (rule app_inv_run [OF app_inv_init])
  have p: "map_of (pending ?w) 4 = Some DownloadReq"
    and h: "next_handle ?w = 1" "trackers ?w = []" "sent ?w = []"
    by (simp_all add: app_run_def world_defs Let_def)
  have r: "api_response (ok_json [(''download_id'', JStr ''d1'')]) = Inr (JObj [(''download_id'', JStr ''d1'')])"
    by (simp add: ok_json_def api_response_def)
  show ?thesis
    using dispatch_success_starts_tracker [OF inv p r, where did = "JStr ''d1''" and parses = accept_all] h
    by (simp add: Let_def api_defs config_simps)
qed

text \<open>
  Claim C8: a failed \<open>/api/info\<close> or \<open>/api/download\<close> request shows the error card
  with the error's message, adds an \<open>Error:\<close> toast and clears the overlay, and changes
  neither the controller state nor the trackers.
\<close>

theorem dispatch_failure_shows_error:
  assumes p: "map_of (pending w) n = Some k" and k: "k = InfoReq \<or> k = DownloadReq"
    and r: "api_response r = Inl e"
  shows "let w' = app_step parses w (Settle n r) in
     error_shown (dom w') \<and> error_message (dom w') = err_message e \<and> \<not> loading (dom w') \<and>
     toasts (dom w') = toasts (dom w) @ [''Error: '' @ err_message e] \<and>
     trackers w' = trackers w \<and> timers w' = timers w \<and> app w' = app w"
  using k p r
  by (auto simp: resume_def startDownload_done_def fetchVideoInfo_done_def report_error_def
      app_defs ui_defs dom_text_def)

theorem dispatch_failure_shows_error_witness:
  "let w' = app_step accept_all (app_run accept_all world_init [EditUrl ''https://youtu.be/x'', ClickFetchInfo])
              (Settle 3 (NetFail ''Failed to fetch'')) in
   error_shown (dom w') \<and> error_message (dom w') = ''Failed to fetch'' \<and> \<not> loading (dom w')"
  using dispatch_failure_shows_error
    [where w = "app_run accept_all world_init [EditUrl ''https://youtu.be/x'', ClickFetchInfo]" and n = 3
       and k = InfoReq and r = "NetFail ''Failed to fetch''" and e = "TypeError ''Failed to fetch''"
       and parses = accept_all]
  by (simp add: Let_def app_run_def world_defs)

text \<open>
  Claim C14: \<open>fetchVideoInfo\<close> sends \<open>/api/info\<close> exactly when the trimmed input is a
  non-empty URL that parses and has at most \<open>MAX_URL_LENGTH\<close> characters; otherwise it
  only shows the matching toast.
\<close>

theorem fetchVideoInfo_validates:
  "let url = js_trim (url_input (dom w)); w' = fetchVideoInfo parses w in
   (issued w' \<noteq> issued w \<longleftrightarrow> url \<noteq> [] \<and> parses url \<and> length url \<le> 2048) \<and>
   (url \<noteq> [] \<and> parses url \<and> length url \<le> 2048 \<longrightarrow>
      issued w' = issued w @ [Post ''http://localhost:5000/api/info'' (JObj [(''url'', JStr url)])] \<and>
      currentUrl (app w') = url \<and> loading (dom w')) \<and>
   (\<not> (url \<noteq> [] \<and> parses url \<and> length url \<le> 2048) \<longrightarrow>
      app w' = app w \<and> pending w' = pending w \<and>
      toasts (dom w') = toasts (dom w) @ [if url = [] then ''Please enter a URL'' else ''Please enter a valid URL''])"
  by (simp add: fetchVideoInfo_def Let_def app_defs ui_defs ui_isValidUrl_def api_defs config_simps)

theorem fetchVideoInfo_validates_witness:
  "issued (fetchVideoInfo accept_all (on_dom (\<lambda>d. d\<lparr>url_input := '' https://youtu.be/x''\<rparr>) world_init)) =
     [Get ''http://localhost:5000/health'', Get ''http://localhost:5000/api/downloads'',
      Get ''http://localhost:5000/api/stats'',
      Post ''http://localhost:5000/api/info'' (JObj [(''url'', JStr ''https://youtu.be/x'')])]"
  using fetchVideoInfo_validates [where parses = accept_all and w = "on_dom (\<lambda>d. d\<lparr>url_input := '' https://youtu.be/x''\<rparr>) world_init"]
  by (simp add: Let_def world_defs)

lemma url_inv_handlers:
  assumes "url_inv parses w"
  shows
    "url_inv parses (on_dom f w)"
    "url_inv parses (checkServerHealth_done r w)"
    "url_inv parses (loadHistory w)"
    "url_inv parses (loadHistory_done r w)"
    "url_inv parses (loadStats w)"
    "url_inv parses (loadStats_done r w)"
    "url_inv parses (manualCleanup b w)"
    "url_inv parses (manualCleanup_done r w)"
    "url_inv parses (report_error e w)"
    "url_inv parses (fetchVideoInfo parses w)"
    "url_inv parses (startDownload w)"
    "url_inv parses (navTab_clicked tab w)"
    "url_inv parses (paste_check parses w)"
    "url_inv parses (typeBtn_clicked type w)"
    "url_inv parses (newDownload_clicked w)"
    "url_inv parses (retry_clicked w)"
    "url_inv parses (on_callback cb w)"
    "url_inv parses (fetchVideoInfo_done r w)"
  using assms
  by (cases cb; auto simp: url_inv_def dispatch_url_ok_def app_defs api_defs config_simps Let_def
      js_prop_def split: sum.splits)+

lemma issued_app_tracker_ops [simp]:
  "issued (tracker_stop i w) = issued w" "issued (tracker_start i w) = issued w"
  "issued (check_progress i w) = issued w" "issued (timer_fire h w) = issued w"
  by (simp_all add: tracker_ops Let_def split: option.splits)

lemma trackProgress_url_fields:
  "issued (trackProgress w) = issued w \<and> currentUrl (app (trackProgress w)) = currentUrl (app w)"
  by (simp add: trackProgress_def Let_def on_app_def split: option.splits)

lemma poll_settle_url_fields:
  "issued (fst (poll_settle p r w)) = issued w \<and> app (fst (poll_settle p r w)) = app w"
  by (simp add: poll_settle_def check_progress_done_def case_prod_unfold
      split: option.splits sum.splits)

lemma url_inv_step:
  assumes inv: "url_inv parses w"
  shows "url_inv parses (app_step parses w e)"
proof (cases e)
  case (Settle n r)
  show ?thesis
  proof (cases "map_of (pending w) n")
    case None
    then show ?thesis using Settle inv by simp
  next
    case (Some k)
    define w0 where "w0 = w\<lparr>pending := filter (\<lambda>x. fst x \<noteq> n) (pending w)\<rparr>"
    have inv0: "url_inv parses w0" using inv by (simp add: url_inv_def w0_def)
    have "url_inv parses (resume k r w0)"
    proof (cases k)
      case DownloadReq
      have "url_inv parses (trackProgress (on_dom (ui_showToast ''Download started!'' \<circ> ui_showProgress)
                      (on_app (\<lambda>a. a\<lparr>currentDownloadId := did\<rparr>) w0)))" for did
        using inv0 trackProgress_url_fields by (simp add: url_inv_def app_defs)
      then show ?thesis using DownloadReq inv0
        by (simp add: resume_def startDownload_done_def url_inv_handlers split: sum.splits)
    qed (use inv0 in \<open>simp_all add: resume_def url_inv_handlers\<close>)
    then show ?thesis using Settle Some by (simp add: w0_def)
  qed
next
  case (TimerTick h)
  then show ?thesis using inv by (simp add: url_inv_def)
next
  case (PollSettle p r)
  obtain w' c where eq: "poll_settle p r w = (w', c)" by fastforce
  have inv': "url_inv parses w'" using poll_settle_url_fields [of p r w] eq inv
    by (simp add: url_inv_def)
  show ?thesis
  proof (cases c)
    case None
    then show ?thesis using PollSettle eq inv' by simp
  next
    case (Some ic)
    then show ?thesis using PollSettle eq inv' by (cases ic) (simp add: url_inv_handlers)
  qed
next
  case (PasteUrl s)
  then show ?thesis using inv by (simp add: url_inv_def on_dom_def)
next
  case PasteTimer
  have "url_inv parses (w\<lparr>paste_timers := paste_timers w - 1\<rparr>)" using inv
    by (simp add: url_inv_def)
  then show ?thesis using PasteTimer inv by (simp add: url_inv_handlers)
next
  case (ChangeQuality q)
  then show ?thesis using inv by (simp add: url_inv_def on_app_def)
qed (use inv in \<open>simp_all add: url_inv_handlers\<close>)

lemma url_inv_run: "url_inv parses w \<Longrightarrow> url_inv parses (app_run parses w es)"
  by (induction es arbitrary: w) (simp_all add: app_run_def url_inv_step)

lemma url_inv_init: "url_inv parses world_init"
  by (simp add: url_inv_def world_init_def app_init_def world_blank_def app_defs app_state_init_def
      dispatch_url_ok_def api_defs)


end
