(* ===== verification/Lifecycle.thy ===== *)
theory Lifecycle
  imports App
begin

text \<open>
  The spec's download lifecycle (section 4.3 of the spec) and how the controller of
  theory \<open>App\<close> realises it. The controller keeps no lifecycle variable: the spec makes
  \<open>lifecycleState\<close> the single source of what the UI shows, so the state is read off the
  page and the requests in flight (\<open>lifecycle_of\<close>). \<open>spec_step\<close> is the spec's
  transition relation; \<open>spec_path\<close> accepts a sequence of states each equal to the
  previous one or one spec step away.
\<close>

datatype lifecycle =
    IDLE | FETCHING_INFO | INFO_READY | STARTING | IN_PROGRESS | PROCESSING | SUCCEEDED | FAILED

inductive spec_step :: "lifecycle \<Rightarrow> lifecycle \<Rightarrow> bool" where
  fetch: "spec_step IDLE FETCHING_INFO"
| info_ok: "spec_step FETCHING_INFO INFO_READY"
| info_fail: "spec_step FETCHING_INFO FAILED"
| start: "spec_step INFO_READY STARTING"
| dispatch_ok: "spec_step STARTING IN_PROGRESS"
| dispatch_fail: "spec_step STARTING FAILED"
| progress: "spec_step IN_PROGRESS IN_PROGRESS"
| processing: "spec_step IN_PROGRESS PROCESSING"
| succeed_progress: "spec_step IN_PROGRESS SUCCEEDED"
| succeed_processing: "spec_step PROCESSING SUCCEEDED"
| fail_progress: "spec_step IN_PROGRESS FAILED"
| fail_processing: "spec_step PROCESSING FAILED"
| retry_info: "spec_step FAILED INFO_READY"
| retry_idle: "spec_step FAILED IDLE"
| new_after_success: "spec_step SUCCEEDED IDLE"
| new_after_failure: "spec_step FAILED IDLE"

code_pred spec_step .

fun spec_path :: "lifecycle list \<Rightarrow> bool" where
  "spec_path (a # b # rest) = ((a = b \<or> spec_step a b) \<and> spec_path (b # rest))"
| "spec_path _ = True"

text \<open>
  The lifecycle state the page shows: the success, error and progress sections, then a
  download or info request in flight (the loading overlay), then the video-info card.
\<close>

definition lifecycle_of :: "world \<Rightarrow> lifecycle" where
  "lifecycle_of w =
     (if success_shown (dom w) then SUCCEEDED
      else if error_shown (dom w) then FAILED
      else if progress_shown (dom w) then
        (if progress_status (dom w) = ''Processing file...'' then PROCESSING else IN_PROGRESS)
      else if DownloadReq \<in> set (map snd (pending w)) then STARTING
      else if InfoReq \<in> set (map snd (pending w)) then FETCHING_INFO
      else if info_shown (dom w) then INFO_READY
      else IDLE)"

fun app_trace :: "(string \<Rightarrow> bool) \<Rightarrow> world \<Rightarrow> app_event list \<Rightarrow> world list" where
  "app_trace parses w [] = [w]"
| "app_trace parses w (e # es) = w # app_trace parses (app_step parses w e) es"

definition trace_happy :: "app_event list" where
  "trace_happy = [EditUrl ''https://youtu.be/x'', ClickFetchInfo,
     Settle 3 (ok_json [(''title'', JStr ''T''), (''thumbnail'', JStr ''t.jpg'')]),
     ClickDownload, Settle 4 (ok_json [(''download_id'', JStr ''d1'')]),
     PollSettle 0 (ok_json [(''status'', JStr ''starting'')]), TimerTick 1,
     PollSettle 1 (ok_json [(''status'', JStr ''processing'')]), TimerTick 1,
     PollSettle 2 (ok_json [(''status'', JStr ''completed''), (''filename'', JStr ''x.mp4'')])]"


lemma success_only_by_callback:
  assumes "success_shown (dom (app_step parses w e))" and "\<not> success_shown (dom w)"
  shows "\<exists>p r. e = PollSettle p r"
  using assms
  by (cases e) (auto simp: app_defs ui_defs Let_def resume_def startDownload_done_def
      trackProgress_def tracker_ops split: option.splits sum.splits req_kind.splits if_splits
      dest: ui_showHistory_Inr ui_updateStats_Inr)

lemma spec_step_idle_iff [simp]: "spec_step IDLE t \<longleftrightarrow> t = FETCHING_INFO"
  by (auto elim: spec_step.cases intro: spec_step.intros)

lemma error_entry_events:
  assumes "error_shown (dom (app_step parses w e))" and "\<not> success_shown (dom (app_step parses w e))"
    and "success_shown (dom w) \<or> \<not> error_shown (dom w)"
  shows "(\<exists>n r k. e = Settle n r \<and> map_of (pending w) n = Some k \<and> (k = InfoReq \<or> k = DownloadReq)) \<or>
    (\<exists>p r. e = PollSettle p r)"
  using assms
  by (cases e) (auto simp: app_defs ui_defs Let_def resume_def startDownload_done_def
      trackProgress_def tracker_ops split: option.splits sum.splits req_kind.splits if_splits
      dest: ui_showHistory_Inr ui_updateStats_Inr)

lemma poll_settle_dom: "dom (fst (poll_settle p r w)) = dom w"
  by (simp add: poll_settle_def check_progress_done_def tracker_ops case_prod_unfold
      split: option.splits sum.splits)

lemma poll_settle_Some:
  "poll_settle p r w = (w', Some (i, cb)) \<Longrightarrow> map_of (polls w) p = Some i \<and> cb = progress_callback r"
  by (auto simp: poll_settle_def check_progress_done_def progress_callback_def case_prod_unfold
      split: option.splits sum.splits if_splits)

lemma poll_settle_None: "poll_settle p r w = (w', None) \<Longrightarrow> w' = w"
  by (auto simp: poll_settle_def case_prod_unfold split: option.splits)

lemma on_callback_sections:
  "success_shown (dom (on_callback cb w)) \<longleftrightarrow> (\<exists>v. cb = OnComplete v) \<or>
     (success_shown (dom w) \<and> (\<exists>v. cb = OnUpdate v))"
  "error_shown (dom (on_callback cb w)) \<longleftrightarrow> (\<exists>v. cb = OnError v) \<or>
     (error_shown (dom w) \<and> (\<exists>v. cb = OnUpdate v))"
  by (cases cb; simp add: app_defs ui_defs)+



text \<open>
  Claim C10: what the code keeps of P4: the page enters SUCCEEDED only when a status query
  of a tracker settles and \<open>checkProgress\<close> classifies it as completed.
\<close>

theorem succeeded_entered_by_completion:
  assumes before: "lifecycle_of w \<noteq> SUCCEEDED"
    and after: "lifecycle_of (app_step parses w e) = SUCCEEDED"
  shows "\<exists>p r i v. e = PollSettle p r \<and> map_of (polls w) p = Some i \<and>
    progress_callback r = OnComplete v"
proof -
  have s0: "\<not> success_shown (dom w)" and s1: "success_shown (dom (app_step parses w e))"
    using before after by (simp_all add: lifecycle_of_def split: if_splits)
  obtain p r where e: "e = PollSettle p r" using success_only_by_callback [OF s1 s0] by blast
  show ?thesis
  proof (cases "poll_settle p r w")
    case (Pair w' c)
    show ?thesis
    proof (cases c)
      case None
      then show ?thesis using Pair s0 s1 e poll_settle_None [of p r w w'] by simp
    next
      case (Some ic)
      obtain i cb where ic: "ic = (i, cb)" by fastforce
      have d: "dom w' = dom w" using poll_settle_dom [of p r w] Pair by simp
      have "\<exists>v. cb = OnComplete v"
        using s0 s1 e Pair Some ic d on_callback_sections(1) [of cb w'] by auto
      then show ?thesis using poll_settle_Some [of p r w w' i cb] Pair Some ic e by auto
    qed
  qed
qed

theorem succeeded_entered_by_completion_witness:
  "\<exists>p r i v. last trace_happy = PollSettle p r \<and>
     map_of (polls (app_run accept_all world_init (butlast trace_happy))) p = Some i \<and>
     progress_callback r = OnComplete v"
proof -
  let ?w = "app_run accept_all world_init (butlast trace_happy)"
  have "lifecycle_of ?w \<noteq> SUCCEEDED"
    and "lifecycle_of (app_step accept_all ?w (last trace_happy)) = SUCCEEDED"
    by (simp_all add: app_run_def trace_happy_def world_defs Let_def js_prop_def lifecycle_of_def)
  then show ?thesis by (rule succeeded_entered_by_completion)
qed

text \<open>
  Claim C11: the page enters FAILED only when an info or download request of the
  controller settles, or when a tracker's status query settles and \<open>checkProgress\<close>
  reports an error.
\<close>

theorem failed_entered_by_outcome:
  assumes before: "lifecycle_of w \<noteq> FAILED"
    and after: "lifecycle_of (app_step parses w e) = FAILED"
  shows "(\<exists>n r k. e = Settle n r \<and> map_of (pending w) n = Some k \<and> (k = InfoReq \<or> k = DownloadReq)) \<or>
    (\<exists>p r i v. e = PollSettle p r \<and> map_of (polls w) p = Some i \<and> progress_callback r = OnError v)"
proof -
  have s0: "success_shown (dom w) \<or> \<not> error_shown (dom w)"
    and s1: "error_shown (dom (app_step parses w e))" "\<not> success_shown (dom (app_step parses w e))"
    using before after by (simp_all add: lifecycle_of_def split: if_splits)
  consider (settle) "\<exists>n r k. e = Settle n r \<and> map_of (pending w) n = Some k \<and> (k = InfoReq \<or> k = DownloadReq)"
    | (poll) p r where "e = PollSettle p r"
    using error_entry_events [OF s1 s0] by blast
  then show ?thesis
  proof cases
    case settle
    then show ?thesis by blast
  next
    case (poll p r)
    obtain w' c where Pair: "poll_settle p r w = (w', c)" by fastforce
    show ?thesis
    proof (cases c)
      case None
      then show ?thesis using Pair s0 s1 poll poll_settle_None [of p r w w'] by simp
    next
      case (Some ic)
      obtain i cb where ic: "ic = (i, cb)" by fastforce
      have d: "dom w' = dom w" using poll_settle_dom [of p r w] Pair by simp
      have "\<exists>v. cb = OnError v"
        using s0 s1 poll Pair Some ic d on_callback_sections [of cb w'] by auto
      then show ?thesis using poll_settle_Some [of p r w w' i cb] Pair Some ic poll by auto
    qed
  qed
qed

theorem failed_entered_by_outcome_witness:
  "\<exists>p r i v. last trace_new_download = PollSettle p r \<and>
     map_of (polls (app_run accept_all world_init (butlast trace_new_download))) p = Some i \<and>
     progress_callback r = OnError v"
proof -
  let ?w = "app_run accept_all world_init (butlast trace_new_download)"
  have "lifecycle_of ?w \<noteq> FAILED"
    and "lifecycle_of (app_step accept_all ?w (last trace_new_download)) = FAILED"
    by (simp_all add: app_run_def trace_new_download_def world_defs Let_def js_prop_def
        lifecycle_of_def dom_text_def cross_mark_def)
  then have "(\<exists>n r k. last trace_new_download = Settle n r \<and> map_of (pending ?w) n = Some k \<and>
        (k = InfoReq \<or> k = DownloadReq)) \<or>
      (\<exists>p r i v. last trace_new_download = PollSettle p r \<and> map_of (polls ?w) p = Some i \<and>
        progress_callback r = OnError v)"
    by (rule failed_entered_by_outcome)
  then show ?thesis by (simp add: trace_new_download_def)
qed

end
