(* ===== verification/History.thy ===== *)
theory History
  imports Ui
begin

text \<open>
  The markup \<open>UI.showHistory\<close> writes into \<open>historyList.innerHTML\<close>
  (\<open>src/frontend2/js/ui.js\<close>, lines 240--272) and \<open>UI.escapeHtml\<close> (lines 350--354).
  Theory \<open>Ui\<close> keeps only which downloads the history tab lists; here is the text.
  \<open>escapeHtml\<close> sets a detached element's \<open>textContent\<close> and reads its \<open>innerHTML\<close>:
  serialising a text node escapes \<open>&\<close>, \<open><\<close>, \<open>>\<close> and the no-break space (HTML,
  "escaping a string" outside attribute mode), and nothing else, in particular not the
  double quote. Strings are UTF-8 bytes, so the no-break space is the pair
  \<open>0xC2 0xA0\<close>. \<open>formatFileSize\<close> and \<open>formatDate\<close> (floating point and \<open>Date\<close>) are
  parameters.
\<close>

fun escape_html :: "string \<Rightarrow> string" where
  "escape_html [] = []"
| "escape_html (c # cs) =
     (if c = CHR ''&'' then ''&amp;'' @ escape_html cs
      else if c = CHR ''<'' then ''&lt;'' @ escape_html cs
      else if c = CHR ''>'' then ''&gt;'' @ escape_html cs
      else if c = CHR 0xC2 \<and> cs \<noteq> [] \<and> hd cs = CHR 0xA0 then ''&nbsp;'' @ escape_html (tl cs)
      else c # escape_html cs)"

definition ui_escapeHtml :: "jsval \<Rightarrow> string" where
  "ui_escapeHtml text = escape_html (dom_text text)"

text \<open>Reading the serialised text back: the four character references, left to right.\<close>

fun unescape_html :: "string \<Rightarrow> string" where
  "unescape_html [] = []"
| "unescape_html (c # cs) =
     (if c = CHR ''&'' \<and> take 4 cs = ''amp;'' then CHR ''&'' # unescape_html (drop 4 cs)
      else if c = CHR ''&'' \<and> take 3 cs = ''lt;'' then CHR ''<'' # unescape_html (drop 3 cs)
      else if c = CHR ''&'' \<and> take 3 cs = ''gt;'' then CHR ''>'' # unescape_html (drop 3 cs)
      else if c = CHR ''&'' \<and> take 5 cs = ''nbsp;'' then CHR 0xC2 # CHR 0xA0 # unescape_html (drop 5 cs)
      else c # unescape_html cs)"

text \<open>The emoji and the bullet of the templates, as UTF-8 bytes.\<close>

definition mailbox_icon :: string where "mailbox_icon = [CHR 0xF0, CHR 0x9F, CHR 0x93, CHR 0xAD]"
definition camera_icon :: string where "camera_icon = [CHR 0xF0, CHR 0x9F, CHR 0x8E, CHR 0xA5]"
definition note_icon :: string where "note_icon = [CHR 0xF0, CHR 0x9F, CHR 0x8E, CHR 0xB5]"
definition bullet :: string where "bullet = [CHR 0xE2, CHR 0x80, CHR 0xA2]"
definition disk_icon :: string where "disk_icon = [CHR 0xF0, CHR 0x9F, CHR 0x92, CHR 0xBE]"

definition spaces :: "nat \<Rightarrow> string" where
  "spaces n = replicate n (CHR '' '')"

text \<open>A template literal spanning lines: its first and last line are the text after the
  opening and before the closing backtick.\<close>

definition template_lines :: "string list \<Rightarrow> string" where
  "template_lines ls = join_with [CHR 10] ls"

definition history_empty_html :: string where
  \<open>history_empty_html = template_lines
     [[],
      spaces 16 @ ''<div class="empty-state">'',
      spaces 20 @ ''<div class="empty-icon">'' @ mailbox_icon @ ''</div>'',
      spaces 20 @ ''<p class="empty-text">No downloads yet</p>'',
      spaces 16 @ ''</div>'',
      spaces 12]\<close>

definition history_item_html :: "(jsval \<Rightarrow> string) \<Rightarrow> (jsval \<Rightarrow> string) \<Rightarrow> jsval \<Rightarrow> string" where
  \<open>history_item_html formatFileSize formatDate download = template_lines
     [[],
      spaces 12 @ ''<div class="history-item">'',
      spaces 16 @ ''<div class="history-info">'',
      spaces 20 @ ''<div class="history-title">'' @ ui_escapeHtml (js_prop download ''title'') @ ''</div>'',
      spaces 20 @ ''<div class="history-meta">'',
      spaces 24 @ ''<span>'' @ (if js_prop download ''type'' = JStr ''video'' then camera_icon @ '' Video''
                               else note_icon @ '' Audio'') @ ''</span>'',
      spaces 24 @ ''<span class="separator">'' @ bullet @ ''</span>'',
      spaces 24 @ ''<span>'' @ formatFileSize (js_prop download ''filesize'') @ ''</span>'',
      spaces 24 @ ''<span class="separator">'' @ bullet @ ''</span>'',
      spaces 24 @ ''<span>'' @ formatDate (js_prop download ''completed_at'') @ ''</span>'',
      spaces 20 @ ''</div>'',
      spaces 16 @ ''</div>'',
      spaces 16 @ ''<div class="history-actions">'',
      spaces 20 @ ''<a href="'' @ api_getFileUrl (js_prop download ''download_id'') @ ''" '',
      spaces 23 @ ''class="btn btn-primary btn-sm" '',
      spaces 23 @ ''download="'' @ ui_escapeHtml (js_prop download ''filename'') @ ''">'',
      spaces 24 @ ''<span class="btn-icon">'' @ disk_icon @ ''</span>'',
      spaces 24 @ ''Download'',
      spaces 20 @ ''</a>'',
      spaces 16 @ ''</div>'',
      spaces 12 @ ''</div>'',
      spaces 8]\<close>

text \<open>
  The string \<open>showHistory(downloads)\<close> assigns to \<open>innerHTML\<close>, or the error it throws:
  the same branches as \<open>ui_showHistory\<close>; \<open>downloads.map(...).join('')\<close> builds the
  items in order and the first \<open>null\<close> or \<open>undefined\<close> item throws at \<open>download.title\<close>.
\<close>

definition ui_historyHtml ::
  "(jsval \<Rightarrow> string) \<Rightarrow> (jsval \<Rightarrow> string) \<Rightarrow> jsval \<Rightarrow> js_error + string" where
  "ui_historyHtml formatFileSize formatDate downloads =
     (if \<not> js_truthy downloads \<or> js_prop downloads ''length'' = JNum 0 then Inr history_empty_html
      else (case downloads of
              JArr xs \<Rightarrow>
                (case find (\<lambda>x. x = JNull \<or> x = JUndef) xs of
                   Some x \<Rightarrow> Inl (read_error (js_string x) ''title'')
                 | None \<Rightarrow> Inr (concat (map (history_item_html formatFileSize formatDate) xs)))
            | _ \<Rightarrow> Inl (TypeError ''downloads.map is not a function'')))"

lemma escape_html_Cons_plain:
  "c \<noteq> CHR ''&'' \<Longrightarrow> c \<noteq> CHR ''<'' \<Longrightarrow> c \<noteq> CHR ''>'' \<Longrightarrow> c \<noteq> CHR 0xC2 \<Longrightarrow>
   escape_html (c # cs) = c # escape_html cs"
  by simp

lemma escape_html_append_plain:
  "c \<noteq> CHR ''&'' \<Longrightarrow> c \<noteq> CHR ''<'' \<Longrightarrow> c \<noteq> CHR ''>'' \<Longrightarrow> c \<noteq> CHR 0xC2 \<Longrightarrow> c \<noteq> CHR 0xA0 \<Longrightarrow>
   escape_html (a @ c # b) = escape_html a @ c # escape_html b"
proof (induction a rule: escape_html.induct)
  case 1
  then show ?case by simp
next
  case (2 d ds)
  then show ?case by (cases ds) auto
qed

lemma escape_html_no_tags: "CHR ''<'' \<notin> set (escape_html s) \<and> CHR ''>'' \<notin> set (escape_html s)"
  by (induction s rule: escape_html.induct) auto

lemma escape_html_quotes: "CHR 0x22 \<in> set (escape_html s) \<longleftrightarrow> CHR 0x22 \<in> set s"
  by (induction s rule: escape_html.induct) (auto simp: neq_Nil_conv)

lemma unescape_escape_html: "unescape_html (escape_html s) = s"
  by (induction s rule: escape_html.induct) (auto simp: neq_Nil_conv)

lemma join_with_member: "x \<in> set ls \<Longrightarrow> \<exists>pre post. join_with sep ls = pre @ x @ post"
proof (induction sep ls rule: join_with.induct)
  case (3 sep y z zs)
  show ?case
  proof (cases "x = y")
    case True
    then show ?thesis by (rule_tac x = "[]" in exI) auto
  next
    case False
    then obtain pre post where "join_with sep (z # zs) = pre @ x @ post" using 3 by auto
    then show ?thesis by (rule_tac x = "y @ sep @ pre" in exI) auto
  qed
qed (auto intro: exI [of _ "[]"])

lemma history_item_download_line:
  \<open>\<exists>pre post. history_item_html fs fd d =
     pre @ (spaces 23 @ ''download="'' @ ui_escapeHtml (js_prop d ''filename'') @ ''">'') @ post\<close>
  unfolding history_item_html_def template_lines_def by (rule join_with_member) simp

text \<open>
  Claim C16: \<open>escapeHtml\<close> does not escape the double quote, so a file name with a quote
  ends the \<open>download="..."\<close> attribute of its history link early: the text after the
  quote becomes markup of the \<open><a>\<close> tag (attribute injection into the history tab).
\<close>

theorem filename_quote_ends_download_attr:
  assumes f: "js_prop download ''filename'' = JStr (a @ CHR 0x22 # b)" and a: "CHR 0x22 \<notin> set a"
  shows \<open>\<exists>pre post. history_item_html fs fd download =
      pre @ ''download="'' @ escape_html a @ CHR 0x22 # escape_html b @ ''">'' @ post \<and>
    CHR 0x22 \<notin> set (escape_html a)\<close>
proof -
  have e: "ui_escapeHtml (js_prop download ''filename'') = escape_html a @ CHR 0x22 # escape_html b"
    using f by (simp add: ui_escapeHtml_def dom_text_def escape_html_append_plain)
  obtain pre post where
    \<open>history_item_html fs fd download =
       pre @ (spaces 23 @ ''download="'' @ ui_escapeHtml (js_prop download ''filename'') @ ''">'') @ post\<close>
    using history_item_download_line by blast
  then show ?thesis using a e escape_html_quotes [of a] by (rule_tac x = "pre @ spaces 23" in exI) auto
qed

theorem filename_quote_ends_download_attr_witness:
  \<open>\<exists>pre post. history_item_html (\<lambda>_. ''0 B'') (\<lambda>_. [])
      (JObj [(''filename'', JStr ''x" onmouseover="alert(1)'')]) =
    pre @ ''download="x" onmouseover="alert(1)">'' @ post\<close>
  using filename_quote_ends_download_attr
    [where download = \<open>JObj [(''filename'', JStr ''x" onmouseover="alert(1)'')]\<close>
       and a = "''x''" and b = \<open>'' onmouseover="alert(1)''\<close>
       and fs = "\<lambda>_. ''0 B''" and fd = "\<lambda>_. []"]
  by (simp add: js_prop_def)

text \<open>
  Claim C32: in element content \<open>escapeHtml\<close> is safe and loses nothing: its output has no
  \<open><\<close> or \<open>>\<close>, so a title cannot open or close a tag, and decoding the character
  references gives back exactly the text that \<open>textContent\<close> was set to.
\<close>

theorem escapeHtml_safe_and_faithful:
  "CHR ''<'' \<notin> set (ui_escapeHtml v) \<and> CHR ''>'' \<notin> set (ui_escapeHtml v) \<and>
   unescape_html (ui_escapeHtml v) = dom_text v"
  by (simp add: ui_escapeHtml_def escape_html_no_tags unescape_escape_html)


end
