(* ===== verification/Notices.thy ===== *)
theory Notices
  imports App
begin

text \<open>
  The advisory health check (spec section 6): \<open>App.init\<close> calls \<open>checkServerHealth\<close>
  once, and its failure shows a warning toast. Over every run the warning is shown at
  most once. The proof keeps the controller's request table well formed (fresh,
  distinct ids) and counts warnings shown plus health checks still in flight. The
  toast's hide timers show that a notice can be hidden before its duration.
\<close>

definition health_warning :: string where
  "health_warning = warning_sign @ '' Cannot connect to server. Please check if backend is running.''"

definition pending_ok :: "world \<Rightarrow> bool" where
  "pending_ok w \<longleftrightarrow> distinct (map fst (pending w)) \<and> (\<forall>x \<in> set (pending w). fst x < next_req w)"

definition warnings :: "world \<Rightarrow> nat" where
  "warnings w = length (filter (\<lambda>m. m = health_warning) (toasts (dom w)))"

definition health_pending :: "world \<Rightarrow> nat" where
  "health_pending w = length (filter (\<lambda>x. snd x = HealthReq) (pending w))"

definition health_inv :: "world \<Rightarrow> bool" where
  "health_inv w \<longleftrightarrow> pending_ok w \<and> warnings w + health_pending w \<le> 1"

definition keeps_health :: "world \<Rightarrow> world \<Rightarrow> bool" where
  "keeps_health w w' \<longleftrightarrow>
     pending_ok w' \<and> warnings w' = warnings w \<and> health_pending w' = health_pending w"

text \<open>
  \<open>toast_ok\<close>: a visible toast has a hide timer pending, so it will be hidden, and every
  pending hide timer was started by a toast shown.
\<close>

definition toast_ok :: "ui \<Rightarrow> bool" where
  "toast_ok u \<longleftrightarrow> (\<not> toast_hidden u \<longrightarrow> 0 < toast_timers u) \<and> toast_timers u \<le> length (toasts u)"

lemma pending_ok_issue: "pending_ok w \<Longrightarrow> pending_ok (issue k q w)"
  by (auto simp: pending_ok_def issue_def)

lemma keeps_health_handlers:
  assumes "pending_ok w"
  shows
    "keeps_health w (loadHistory w)"
    "keeps_health w (loadStats w)"
    "keeps_health w (loadHistory_done r w)"
    "keeps_health w (loadStats_done r w)"
    "keeps_health w (manualCleanup b w)"
    "keeps_health w (manualCleanup_done r w)"
    "keeps_health w (report_error e w)"
    "keeps_health w (fetchVideoInfo parses w)"
    "keeps_health w (fetchVideoInfo_done r w)"
    "keeps_health w (startDownload w)"
    "keeps_health w (navTab_clicked tab w)"
    "keeps_health w (paste_check parses w)"
    "keeps_health w (typeBtn_clicked type w)"
    "keeps_health w (newDownload_clicked w)"
    "keeps_health w (retry_clicked w)"
    "keeps_health w (on_callback cb w)"
  using assms
  by (cases cb; auto simp: keeps_health_def pending_ok_def warnings_def health_pending_def app_defs
      ui_defs Let_def health_warning_def warning_sign_def check_mark_def cross_mark_def
      split: sum.splits dest: ui_showHistory_Inr ui_updateStats_Inr)+

lemma keeps_health_inv: "keeps_health w w' \<Longrightarrow> health_inv w \<Longrightarrow> health_inv w'"
  by (simp add: keeps_health_def health_inv_def)

lemma keeps_health_trans: "keeps_health w w' \<Longrightarrow> keeps_health w' w'' \<Longrightarrow> keeps_health w w''"
  by (simp add: keeps_health_def)

lemma trackProgress_frame:
  "pending (trackProgress w) = pending w \<and> dom (trackProgress w) = dom w \<and> next_req (trackProgress w) = next_req w"
  by (simp add: trackProgress_def Let_def on_app_def tracker_ops split: option.splits)

lemma keeps_health_startDownload_done:
  assumes "pending_ok w"
  shows "keeps_health w (startDownload_done r w)"
  using assms trackProgress_frame
  by (auto simp: startDownload_done_def keeps_health_def pending_ok_def warnings_def
      health_pending_def app_defs ui_defs health_warning_def warning_sign_def split: sum.splits)

lemma poll_settle_frame:
  "pending (fst (poll_settle p r w)) = pending w \<and> dom (fst (poll_settle p r w)) = dom w \<and>
   next_req (fst (poll_settle p r w)) = next_req w"
  by (simp add: poll_settle_def check_progress_done_def tracker_ops case_prod_unfold
      split: option.splits sum.splits)

lemma health_settle:
  assumes inv: "health_inv w" and k: "map_of (pending w) n = Some k"
  shows "health_inv (resume k r (w\<lparr>pending := filter (\<lambda>x. fst x \<noteq> n) (pending w)\<rparr>))"
proof -
  define w0 where "w0 = w\<lparr>pending := filter (\<lambda>x. fst x \<noteq> n) (pending w)\<rparr>"
  have ok: "pending_ok w" and le: "warnings w + health_pending w \<le> 1"
    using inv by (simp_all add: health_inv_def)
  have ok0: "pending_ok w0" using ok by (auto simp: pending_ok_def w0_def distinct_map_filter)
  have cnt: "health_pending w = health_pending w0 + (if k = HealthReq then 1 else 0)"
    using count_drop_key [of "pending w" n k HealthReq] ok k
    by (simp add: health_pending_def pending_ok_def w0_def eq_commute)
  have w0: "warnings w0 = warnings w" by (simp add: warnings_def w0_def)
  show ?thesis
  proof (cases "k = HealthReq")
    case True
    have "warnings (checkServerHealth_done r w0) \<le> warnings w0 + 1"
      and "health_pending (checkServerHealth_done r w0) = health_pending w0"
      and "pending_ok (checkServerHealth_done r w0)"
      using ok0 by (auto simp: checkServerHealth_done_def warnings_def health_pending_def
          pending_ok_def app_defs ui_defs split: sum.splits)
    then show ?thesis using True le cnt w0 by (simp add: resume_def health_inv_def w0_def)
  next
    case False
    have "keeps_health w0 (resume k r w0)"
      using False ok0 keeps_health_handlers [OF ok0] keeps_health_startDownload_done [OF ok0]
      by (cases k) (simp_all add: resume_def)
    moreover have "health_inv w0" using le cnt w0 False ok0 by (simp add: health_inv_def)
    ultimately show ?thesis by (simp add: keeps_health_inv w0_def)
  qed
qed

lemma health_inv_step:
  assumes inv: "health_inv w"
  shows "health_inv (app_step parses w e)"
proof -
  have ok: "pending_ok w" using inv by (simp add: health_inv_def)
  note keep = keeps_health_handlers [OF ok, THEN keeps_health_inv, OF inv]
  show ?thesis
  proof (cases e)
    case (Settle n r)
    then show ?thesis using inv health_settle [OF inv] by (simp split: option.splits)
  next
    case (PollSettle p r)
    obtain w' c where eq: "poll_settle p r w = (w', c)" by fastforce
    have kw: "keeps_health w w'" using poll_settle_frame [of p r w] eq ok
      by (simp add: keeps_health_def pending_ok_def warnings_def health_pending_def)
    have inv': "health_inv w'" using keeps_health_inv [OF kw inv] .
    have ok': "pending_ok w'" using inv' by (simp add: health_inv_def)
    show ?thesis
    proof (cases c)
      case None
      then show ?thesis using PollSettle eq inv' by simp
    next
      case (Some ic)
      then show ?thesis using PollSettle eq
        keeps_health_handlers(16) [OF ok', THEN keeps_health_inv, OF inv'] by (cases ic) simp
    qed
  next
    case (TimerTick h)
    have "keeps_health w (timer_fire h w)" using ok
      by (simp add: keeps_health_def pending_ok_def warnings_def health_pending_def tracker_ops
          split: option.splits)
    then show ?thesis using TimerTick keeps_health_inv inv by simp
  next
    case PasteTimer
    have inv': "health_inv (w\<lparr>paste_timers := paste_timers w - 1\<rparr>)" using inv
      by (simp add: health_inv_def pending_ok_def warnings_def health_pending_def)
    have "pending_ok (w\<lparr>paste_timers := paste_timers w - 1\<rparr>)" using ok by (simp add: pending_ok_def)
    then show ?thesis
      using PasteTimer inv keeps_health_handlers(12) [THEN keeps_health_inv, OF _ inv'] by simp
  qed (use inv keep in \<open>simp_all add: health_inv_def pending_ok_def warnings_def
         health_pending_def on_dom_def on_app_def ui_defs health_warning_def warning_sign_def\<close>)
qed

lemma health_inv_run: "health_inv w \<Longrightarrow> health_inv (app_run parses w es)"
  by (induction es arbitrary: w) (simp_all add: app_run_def health_inv_step)

lemma health_inv_init: "health_inv world_init"
  by (simp add: health_inv_def pending_ok_def warnings_def health_pending_def world_init_def
      app_init_def world_blank_def app_defs ui_init_def)

text \<open>
  Claim C17: the health check is advisory and its warning is one-time: in every run of
  the controller from page load the warning toast is shown at most once.
\<close>

theorem health_warning_at_most_once:
  "length (filter (\<lambda>m. m = warning_sign @ '' Cannot connect to server. Please check if backend is running.'')
     (toasts (dom (app_run parses world_init es)))) \<le> 1"
  using health_inv_run [OF health_inv_init, of parses es]
  by (simp add: health_inv_def warnings_def health_warning_def)

text \<open>
  A toast shown while an earlier toast's timer is pending is hidden by that earlier
  timer: the next hide timer to fire was started before the new message, yet it hides
  the new message, whose own timer is still pending. The newer notice is thus visible
  for less than \<open>TOAST_DURATION\<close>.
\<close>

lemma toast_hidden_by_earlier_timer:
  assumes "0 < toast_timers (dom w)"
  shows "let w' = app_step parses (on_dom (ui_showToast m) w) ToastTimer in
         toast_hidden (dom w') \<and> last (toasts (dom w')) = m \<and> 0 < toast_timers (dom w')"
  using assms by (simp add: on_dom_def ui_defs Let_def)

lemma toast_ok_handlers:
  assumes "toast_ok (dom w)"
  shows
    "toast_ok (dom (loadHistory w))"
    "toast_ok (dom (loadStats w))"
    "toast_ok (dom (loadHistory_done r w))"
    "toast_ok (dom (loadStats_done r w))"
    "toast_ok (dom (manualCleanup b w))"
    "toast_ok (dom (manualCleanup_done r w))"
    "toast_ok (dom (checkServerHealth_done r w))"
    "toast_ok (dom (report_error e w))"
    "toast_ok (dom (fetchVideoInfo parses w))"
    "toast_ok (dom (fetchVideoInfo_done r w))"
    "toast_ok (dom (startDownload w))"
    "toast_ok (dom (startDownload_done r w))"
    "toast_ok (dom (navTab_clicked tab w))"
    "toast_ok (dom (paste_check parses w))"
    "toast_ok (dom (typeBtn_clicked type w))"
    "toast_ok (dom (newDownload_clicked w))"
    "toast_ok (dom (retry_clicked w))"
    "toast_ok (dom (on_callback cb w))"
  using assms trackProgress_frame
  by (cases cb; auto simp: toast_ok_def app_defs startDownload_done_def ui_defs Let_def
      split: sum.splits dest: ui_showHistory_Inr ui_updateStats_Inr)+

lemma toast_ok_step:
  assumes ok: "toast_ok (dom w)"
  shows "toast_ok (dom (app_step parses w e))"
proof (cases e)
  case (Settle n r)
  then show ?thesis using ok toast_ok_handlers [where w = "w\<lparr>pending := filter (\<lambda>x. fst x \<noteq> n) (pending w)\<rparr>"]
    by (auto simp: resume_def split: option.splits req_kind.splits)
next
  case (PollSettle p r)
  obtain w' c where eq: "poll_settle p r w = (w', c)" by fastforce
  have ok': "toast_ok (dom w')" using poll_settle_frame [of p r w] eq ok by simp
  show ?thesis using PollSettle eq ok' toast_ok_handlers(18) [OF ok'] by (cases c) auto
next
  case (TimerTick h)
  then show ?thesis using ok by (simp add: tracker_ops split: option.splits)
next
  case PasteTimer
  then show ?thesis using ok toast_ok_handlers(14) [where w = "w\<lparr>paste_timers := paste_timers w - 1\<rparr>"] by simp
qed (use ok toast_ok_handlers in \<open>auto simp: toast_ok_def on_dom_def on_app_def ui_defs\<close>)

lemma toast_ok_run: "toast_ok (dom w) \<Longrightarrow> toast_ok (dom (app_run parses w es))"
  by (induction es arbitrary: w) (simp_all add: app_run_def toast_ok_step)

lemma toast_ok_init: "toast_ok (dom world_init)"
  by (simp add: toast_ok_def world_defs app_defs)

text \<open>
  Claim C25: no notice stays up for good: in every run of the controller from page load,
  a visible toast has a hide timer pending, and there are never more hide timers pending
  than toasts shown.
\<close>

theorem toast_visible_has_timer:
  "let u = dom (app_run parses world_init es) in
   (\<not> toast_hidden u \<longrightarrow> 0 < toast_timers u) \<and> toast_timers u \<le> length (toasts u)"
  using toast_ok_run [OF toast_ok_init, of parses es] by (simp add: toast_ok_def Let_def)

theorem toast_visible_has_timer_witness:
  "let u = dom (app_run accept_all world_init [ClickFetchInfo]) in
   \<not> toast_hidden u \<and> 0 < toast_timers u \<and> toast_timers u \<le> length (toasts u)"
  using toast_visible_has_timer [of accept_all "[ClickFetchInfo]"]
  by (simp add: Let_def app_run_def world_defs app_defs ui_defs)

end
