(* ===== verification/Polling.thy ===== *)
theory Polling
  imports Tracker
begin

text \<open>
  The polling loop of one tracker as a loop. \<open>start()\<close> sends the first status query
  and arms \<open>setInterval\<close>; under the spec's single-flight timing (section 5) each tick
  comes after the previous query's handler has run. \<open>poll_loop srv k i s\<close> runs that
  loop for tracker \<open>i\<close> against a server whose \<open>k\<close>-th status answer is \<open>srv k\<close>:
  settle the query in flight, and if the tracker still has its timer, let the timer
  tick and go on with the next answer. A server that never reports a terminal status
  keeps the loop going forever, so the loop is a \<open>partial_function (option)\<close> and
  not returning is \<open>None\<close>.
\<close>

partial_function (option) poll_loop ::
  "(nat \<Rightarrow> fetch_result) \<Rightarrow> nat \<Rightarrow> obj_ref \<Rightarrow> tsys \<Rightarrow> tsys option" where
  "poll_loop srv k i s =
     (case find (\<lambda>pi. snd pi = i) (polls s) of
        None \<Rightarrow> Some s
      | Some pi \<Rightarrow>
          (let s1 = tstep s (TSettle (fst pi) (srv k)) in
           case interval (trackers s1 ! i) of
             None \<Rightarrow> Some s1
           | Some h \<Rightarrow> poll_loop srv (Suc k) i (tstep s1 (TFire h))))"

text \<open>
  The states the loop passes through for a tracker just created for id \<open>d\<close> and
  started: waiting for the answer to query \<open>k\<close> with callbacks \<open>D\<close> delivered so far,
  and stopped after the answer to query \<open>k\<close>.
\<close>

definition loop_state :: "jsval \<Rightarrow> nat \<Rightarrow> (obj_ref \<times> callback) list \<Rightarrow> tsys" where
  "loop_state d k D =
     \<lparr>trackers = [\<lparr>downloadId = d, interval = Some 1, isTracking = True\<rparr>], timers = [(1, 0)],
      next_handle = 2, polls = [(k, 0)], next_poll = Suc k,
      sent = replicate (Suc k) (0, api_getProgress d), delivered = D\<rparr>"

definition stopped_state :: "jsval \<Rightarrow> nat \<Rightarrow> (obj_ref \<times> callback) list \<Rightarrow> tsys" where
  "stopped_state d k D =
     \<lparr>trackers = [\<lparr>downloadId = d, interval = None, isTracking = False\<rparr>], timers = [],
      next_handle = 2, polls = [], next_poll = Suc k,
      sent = replicate (Suc k) (0, api_getProgress d), delivered = D\<rparr>"

lemma loop_state_start: "trun tsys_init [TNew d, TStart 0] = loop_state d 0 []"
  by (simp add: loop_state_def tsys_init_def tracker_ops new_tracker_def)

lemma loop_state_settle:
  "tstep (loop_state d k D) (TSettle k r) =
     (if terminal (progress_callback r) then stopped_state d k (D @ [(0, progress_callback r)])
      else (loop_state d k (D @ [(0, progress_callback r)]))\<lparr>polls := []\<rparr>)"
  by (simp add: loop_state_def stopped_state_def poll_settle_def check_progress_done_split
      tracker_stop_def upd_tracker_def)

lemma loop_state_tick:
  "tstep ((loop_state d k D)\<lparr>polls := []\<rparr>) (TFire 1) = loop_state d (Suc k) D"
  by (simp add: loop_state_def timer_fire_def check_progress_def replicate_append_same)

lemma loop_body_step:
  "(case find (\<lambda>pi. snd pi = 0) (polls (loop_state d k D)) of
      None \<Rightarrow> Some (loop_state d k D)
    | Some pi \<Rightarrow>
        (let s1 = tstep (loop_state d k D) (TSettle (fst pi) (srv k)) in
         case interval (trackers s1 ! 0) of
           None \<Rightarrow> Some s1
         | Some h \<Rightarrow> f srv (Suc k) 0 (tstep s1 (TFire h)))) =
   (if terminal (progress_callback (srv k))
    then Some (stopped_state d k (D @ [(0, progress_callback (srv k))]))
    else f srv (Suc k) 0 (loop_state d (Suc k) (D @ [(0, progress_callback (srv k))])))"
proof -
  have f: "find (\<lambda>pi. snd pi = 0) (polls (loop_state d k D)) = Some (k, 0)"
    by (simp add: loop_state_def)
  have i1: "interval (trackers ((loop_state d k D')\<lparr>polls := []\<rparr>) ! 0) = Some 1" for D'
    by (simp add: loop_state_def)
  have i2: "interval (trackers (stopped_state d k D') ! 0) = None" for D'
    by (simp add: stopped_state_def)
  show ?thesis
    by (simp only: f option.case fst_conv Let_def loop_state_settle
        if_distrib [of "\<lambda>s. case interval (trackers s ! 0) of None \<Rightarrow> Some s | Some h \<Rightarrow> f srv (Suc k) 0 (tstep s (TFire h))"]
        i1 i2 option.case loop_state_tick)
qed

lemma poll_loop_step:
  "poll_loop srv k 0 (loop_state d k D) =
     (if terminal (progress_callback (srv k))
      then Some (stopped_state d k (D @ [(0, progress_callback (srv k))]))
      else poll_loop srv (Suc k) 0 (loop_state d (Suc k) (D @ [(0, progress_callback (srv k))])))"
  by (subst poll_loop.simps) (rule loop_body_step)

lemma poll_loop_returns:
  assumes "terminal (progress_callback (srv (k + n)))"
    and "\<forall>j<n. \<not> terminal (progress_callback (srv (k + j)))"
  shows "poll_loop srv k 0 (loop_state d k D) =
    Some (stopped_state d (k + n) (D @ map (\<lambda>j. (0, progress_callback (srv j))) [k..<Suc (k + n)]))"
  using assms
proof (induction n arbitrary: k D)
  case 0
  then show ?case by (simp add: poll_loop_step)
next
  case (Suc n)
  have "\<not> terminal (progress_callback (srv k))" using Suc.prems(2) by (metis add_0_right zero_less_Suc)
  moreover have "poll_loop srv (Suc k) 0 (loop_state d (Suc k) (D @ [(0, progress_callback (srv k))])) =
    Some (stopped_state d (Suc k + n) ((D @ [(0, progress_callback (srv k))]) @
      map (\<lambda>j. (0, progress_callback (srv j))) [Suc k..<Suc (Suc k + n)]))"
    using Suc.prems by (intro Suc.IH) (auto simp: add_Suc_shift [symmetric])
  ultimately show ?case by (simp add: poll_loop_step upt_rec [of k])
qed

lemma poll_loop_needs_terminal:
  assumes ret: "poll_loop srv k 0 (loop_state d k D) = Some r"
  shows "\<exists>j\<ge>k. terminal (progress_callback (srv j))"
proof -
  have "(0::nat) = 0 \<longrightarrow> (\<forall>D'. loop_state d k D = loop_state d k D' \<longrightarrow>
      (\<exists>j\<ge>k. terminal (progress_callback (srv j))))"
  proof (rule poll_loop.raw_induct
      [where P = "\<lambda>srv k i s r. i = 0 \<longrightarrow> (\<forall>D'. s = loop_state d k D' \<longrightarrow>
         (\<exists>j\<ge>k. terminal (progress_callback (srv j))))", OF _ ret])
    fix f srv k i s r
    assume IH: "\<And>srv k i s r. f srv k i s = Some r \<Longrightarrow> i = 0 \<longrightarrow> (\<forall>D'. s = loop_state d k D' \<longrightarrow>
         (\<exists>j\<ge>k. terminal (progress_callback (srv j))))"
      and eq: "(case find (\<lambda>pi. snd pi = i) (polls s) of
         None \<Rightarrow> Some s
       | Some pi \<Rightarrow>
           (let s1 = tstep s (TSettle (fst pi) (srv k)) in
            case interval (trackers s1 ! i) of
              None \<Rightarrow> Some s1
            | Some h \<Rightarrow> f srv (Suc k) i (tstep s1 (TFire h)))) = Some r"
    show "i = 0 \<longrightarrow> (\<forall>D'. s = loop_state d k D' \<longrightarrow> (\<exists>j\<ge>k. terminal (progress_callback (srv j))))"
    proof (intro impI allI)
      fix D'
      assume i: "i = 0" and s: "s = loop_state d k D'"
      show "\<exists>j\<ge>k. terminal (progress_callback (srv j))"
      proof (cases "terminal (progress_callback (srv k))")
        case True
        then show ?thesis by blast
      next
        case False
        then have "f srv (Suc k) 0 (loop_state d (Suc k) (D' @ [(0, progress_callback (srv k))])) = Some r"
          using eq by (simp only: i s loop_body_step if_False)
        then have "\<exists>j\<ge>Suc k. terminal (progress_callback (srv j))" using IH by blast
        then show ?thesis by (auto dest: Suc_leD)
      qed
    qed
  qed
  then show ?thesis by blast
qed

text \<open>
  Claim C18: the polling loop of a started tracker returns exactly when the server
  eventually answers with a terminal status (completed, error, or a failed query); a
  server that only ever reports progress keeps it polling forever.
\<close>

theorem polling_terminates_iff:
  "(\<exists>s'. poll_loop srv 0 0 (trun tsys_init [TNew d, TStart 0]) = Some s') \<longleftrightarrow>
   (\<exists>k. terminal (progress_callback (srv k)))"
  unfolding loop_state_start
proof
  assume "\<exists>s'. poll_loop srv 0 0 (loop_state d 0 []) = Some s'"
  then show "\<exists>k. terminal (progress_callback (srv k))"
    by (auto dest: poll_loop_needs_terminal)
next
  assume "\<exists>k. terminal (progress_callback (srv k))"
  then obtain n where n: "terminal (progress_callback (srv n))"
    and first: "\<forall>j<n. \<not> terminal (progress_callback (srv j))"
    using exists_least_iff [of "\<lambda>k. terminal (progress_callback (srv k))"] by blast
  show "\<exists>s'. poll_loop srv 0 0 (loop_state d 0 []) = Some s'"
    using poll_loop_returns [of srv 0 n] n first by simp
qed

text \<open>
  Claim C19: liveness of the tracker: if the \<open>n\<close>-th answer is the first terminal one,
  the loop delivers the \<open>n\<close> progress callbacks and then that one terminal callback, in
  the order of the answers, and stops: no live timer, no query in flight, and exactly
  \<open>n + 1\<close> status requests sent, all for the tracker's id.
\<close>

theorem polling_delivers_until_terminal:
  assumes "terminal (progress_callback (srv n))"
    and "\<forall>k<n. \<not> terminal (progress_callback (srv k))"
  shows "\<exists>s'. poll_loop srv 0 0 (trun tsys_init [TNew d, TStart 0]) = Some s' \<and>
    delivered s' = map (\<lambda>k. (0, progress_callback (srv k))) [0..<Suc n] \<and>
    \<not> has_timer s' 0 \<and> polls s' = [] \<and> requests_of s' 0 = replicate (Suc n) (api_getProgress d)"
  unfolding loop_state_start using poll_loop_returns [of srv 0 n d "[]"] assms
  by (simp add: stopped_state_def has_timer_def requests_of_def)

theorem polling_delivers_until_terminal_witness:
  "\<exists>s'. poll_loop (\<lambda>k. status_report [(''status'', JStr (if k < 2 then ''downloading'' else ''completed''))])
      0 0 (trun tsys_init [TNew (JStr ''d1''), TStart 0]) = Some s' \<and>
    delivered s' = [(0, OnUpdate (JObj [(''status'', JStr ''downloading'')])),
                    (0, OnUpdate (JObj [(''status'', JStr ''downloading'')])),
                    (0, OnComplete (JObj [(''status'', JStr ''completed'')]))] \<and>
    \<not> has_timer s' 0 \<and> polls s' = [] \<and>
    requests_of s' 0 = replicate 3 (Get ''http://localhost:5000/api/progress/d1'')"
  using polling_delivers_until_terminal
    [where srv = "\<lambda>k. status_report [(''status'', JStr (if k < 2 then ''downloading'' else ''completed''))]"
       and n = 2 and d = "JStr ''d1''"]
  by (simp add: progress_callback_def status_report_def api_response_def less_Suc_eq
      upt_rec api_defs config_simps)

end
