(* ===== verification/Formatting.thy ===== *)
theory Formatting
  imports Ui
begin

text \<open>
  The number formatting of \<open>UI.formatViews\<close> (\<open>src/frontend2/js/ui.js\<close>, lines
  299--308): \<open>count / 1000000\<close> and \<open>count / 1000\<close> are IEEE double divisions, rounded
  to nearest with ties to even, and \<open>toFixed(1)\<close> picks the integer \<open>n\<close> nearest to ten
  times the double, the larger one on a tie (ECMA-262, \<open>Number.prototype.toFixed\<close>).
  A positive double is \<open>m * 2 ^ e\<close> with a 53-bit significand \<open>m\<close>; it is kept as the
  pair \<open>(m, e)\<close>, and all arithmetic below is on integers.
\<close>

fun nbits :: "nat \<Rightarrow> nat" where
  "nbits n = (if n = 0 then 0 else Suc (nbits (n div 2)))"

declare nbits.simps [simp del]

text \<open>\<open>p / q\<close> scaled by \<open>2 ^ -e\<close>, as a fraction of naturals.\<close>

definition scaled :: "nat \<Rightarrow> nat \<Rightarrow> int \<Rightarrow> nat \<times> nat" where
  "scaled p q e = (p * 2 ^ nat (- e), q * 2 ^ nat e)"

text \<open>The exponent that puts \<open>p / q\<close> into \<open>[2^52, 2^53)\<close>: from the bit lengths
  it is one of two neighbours.\<close>

definition double_exp :: "nat \<Rightarrow> nat \<Rightarrow> int" where
  "double_exp p q =
     (let e = int (nbits p) - int (nbits q) - 53
      in if fst (scaled p q e) < 2 ^ 53 * snd (scaled p q e) then e else e + 1)"

text \<open>Division rounded to the nearest integer, ties to even.\<close>

definition rne :: "nat \<Rightarrow> nat \<Rightarrow> nat" where
  "rne a b =
     (let d = a div b; r = a mod b
      in if 2 * r > b then d + 1 else if 2 * r < b then d else if even d then d else d + 1)"

text \<open>The double nearest to \<open>p / q\<close>, for positive \<open>p\<close> and \<open>q\<close>.\<close>

definition double_div :: "nat \<Rightarrow> nat \<Rightarrow> nat \<times> int" where
  "double_div p q = (let e = double_exp p q in (rne (fst (scaled p q e)) (snd (scaled p q e)), e))"

text \<open>\<open>x.toFixed(1)\<close> of a positive double: the number of tenths, and its text.\<close>

definition tenths :: "nat \<times> int \<Rightarrow> nat" where
  "tenths x =
     (let m = fst x; e = snd x
      in if 0 \<le> e then 10 * m * 2 ^ nat e
         else (10 * m + 2 ^ (nat (- e) - 1)) div 2 ^ nat (- e))"

definition fixed1 :: "nat \<Rightarrow> string" where
  "fixed1 n = decimal (n div 10) @ ''.'' @ decimal (n mod 10)"

text \<open>
  \<open>formatViews(count)\<close> for a numeric count (\<open>view_count\<close> as the backend sends it).
  Below \<open>1000\<close> the count is printed by \<open>String\<close>; \<open>0\<close> is falsy.
\<close>

definition ui_formatViews :: "int \<Rightarrow> string" where
  "ui_formatViews count =
     (if count = 0 then ''0 views''
      else if count \<ge> 1000000 then fixed1 (tenths (double_div (nat count) 1000000)) @ ''M views''
      else if count \<ge> 1000 then fixed1 (tenths (double_div (nat count) 1000)) @ ''K views''
      else int_string count @ '' views'')"

text \<open>
  \<open>formatDate(dateString)\<close> (lines 329--345). The date parser behind
  \<open>new Date(s)\<close> (\<open>None\<close> for an invalid date), the clock (\<open>Date.now\<close> in
  milliseconds) and \<open>toLocaleDateString\<close> (of a time value, or of the invalid date) are
  parameters; a number is already a time value. The time values are integers, so
  \<open>Math.floor(diffMs / 60000)\<close> is integer division rounding down; the quotients are
  only printed when they are small, where the double division is exact. An invalid
  date makes every comparison with \<open>NaN\<close> false and falls through to
  \<open>toLocaleDateString\<close>.
\<close>

definition ui_formatDate ::
  "(string \<Rightarrow> int option) \<Rightarrow> int \<Rightarrow> (int option \<Rightarrow> string) \<Rightarrow> jsval \<Rightarrow> string" where
  "ui_formatDate parseDate now localeDate dateString =
     (if \<not> js_truthy dateString then []
      else
        let date = (case dateString of JNum t \<Rightarrow> Some t | JBool b \<Rightarrow> Some 1 | _ \<Rightarrow> parseDate (js_string dateString))
        in case date of
             None \<Rightarrow> localeDate None
           | Some d \<Rightarrow>
               (let diffMs = now - d; diffMins = diffMs div 60000; diffHours = diffMs div 3600000;
                    diffDays = diffMs div 86400000
                in if diffMins < 1 then ''Just now''
                   else if diffMins < 60 then int_string diffMins @ ''m ago''
                   else if diffHours < 24 then int_string diffHours @ ''h ago''
                   else if diffDays < 7 then int_string diffDays @ ''d ago''
                   else localeDate (Some d)))"

lemma nbits_bounds: "0 < n \<Longrightarrow> 2 ^ (nbits n - 1) \<le> n \<and> n < 2 ^ nbits n"
proof (induction n rule: nbits.induct)
  case (1 n)
  show ?case
  proof (cases "n = 1")
    case True
    then show ?thesis by (simp add: nbits.simps)
  next
    case False
    with "1.prems" have h: "0 < n div 2" by simp
    with "1.IH" "1.prems" have ih: "2 ^ (nbits (n div 2) - 1) \<le> n div 2 \<and> n div 2 < 2 ^ nbits (n div 2)"
      by simp
    have nb: "nbits n = Suc (nbits (n div 2))" using "1.prems" by (subst nbits.simps) simp
    have pos: "0 < nbits (n div 2)" using h by (subst nbits.simps) simp
    have "2 ^ nbits (n div 2) \<le> n"
    proof -
      have "2 ^ nbits (n div 2) = 2 * 2 ^ (nbits (n div 2) - 1)" using pos
        by (cases "nbits (n div 2)") simp_all
      also have "\<dots> \<le> 2 * (n div 2)" using ih by simp
      also have "\<dots> \<le> n" by simp
      finally show ?thesis .
    qed
    moreover have "n < 2 * 2 ^ nbits (n div 2)" using ih by linarith
    ultimately show ?thesis using nb by simp
  qed
qed

lemma rne_err:
  assumes "0 < b"
  shows "\<bar>2 * (int (rne a b) * int b - int a)\<bar> \<le> int b"
proof -
  define d where "d = a div b"
  define r where "r = a mod b"
  have a: "int a = int d * int b + int r"
    unfolding d_def r_def by (metis of_nat_add of_nat_mult div_mult_mod_eq)
  have rb: "r < b" using assms by (simp add: r_def)
  consider (up) "2 * r > b" | (down) "2 * r < b" | (tie) "2 * r = b" by linarith
  then show ?thesis
  proof cases
    case up
    then have "rne a b = d + 1" by (simp add: rne_def Let_def d_def r_def)
    then show ?thesis using a rb up by (simp add: algebra_simps)
  next
    case down
    then have "rne a b = d" by (simp add: rne_def Let_def d_def r_def)
    then show ?thesis using a down by (simp add: algebra_simps)
  next
    case tie
    then have "rne a b = d \<or> rne a b = d + 1" by (simp add: rne_def Let_def d_def r_def)
    then show ?thesis using a tie by (auto simp: algebra_simps)
  qed
qed

lemma tenths_err:
  fixes v m c P H :: int
  assumes v: "0 < v" and P: "P = 2 * H" and H: "0 < H" and big: "10 * v < P"
    and err: "\<bar>2 * (m * (20 * v) - c * P)\<bar> \<le> 20 * v"
  shows "\<bar>2 * v * ((10 * m + H) div P) - c\<bar> \<le> v"
proof -
  define n where "n = (10 * m + H) div P"
  have P0: "0 < P" using P H by simp
  have dm: "10 * m + H = n * P + (10 * m + H) mod P" by (simp add: n_def)
  have "0 \<le> (10 * m + H) mod P" and "(10 * m + H) mod P < P"
    using P0 by (simp_all add: pos_mod_sign pos_mod_bound)
  then have lo: "n * P \<le> 10 * m + H" and hi: "10 * m + H < n * P + P"
    using dm by linarith+
  have lo': "2 * v * (n * P) \<le> 2 * v * (10 * m + H)" using lo v by simp
  have hi': "2 * v * (10 * m + H) < 2 * v * (n * P + P)" using hi v by simp
  have up: "(2 * v * n) * P < (c + v + 1) * P"
    using lo' err big P by (simp add: algebra_simps abs_le_iff)
  have down: "(c - v - 1) * P < (2 * v * n) * P"
    using hi' err big P by (simp add: algebra_simps abs_le_iff)
  have "2 * v * n < c + v + 1" using up P0 by (simp add: mult_less_cancel_right_pos)
  moreover have "c - v - 1 < 2 * v * n" using down P0 by (simp add: mult_less_cancel_right_pos)
  ultimately show ?thesis by (simp add: n_def abs_le_iff)
qed

lemma double_exp_neg:
  assumes c: "0 < c" "c < 2 ^ 53" and q: "2 ^ 9 \<le> q"
  shows "double_exp c q < 0 \<and> 2 ^ 52 * q \<le> c * 2 ^ nat (- double_exp c q)"
proof -
  have bc: "2 ^ (nbits c - 1) \<le> c" "c < 2 ^ nbits c" using nbits_bounds [of c] c by auto
  have bq: "2 ^ (nbits q - 1) \<le> q" "q < 2 ^ nbits q" using nbits_bounds [of q] q by auto
  have "2 ^ (nbits c - 1) < (2::nat) ^ 53" using bc c by linarith
  then have "nbits c - 1 < 53" by (rule power_less_imp_less_exp [rotated]) simp
  then have nc: "nbits c \<le> 53" by simp
  have "(2::nat) ^ 9 < 2 ^ nbits q" using bq q by linarith
  then have "9 < nbits q" by (rule power_less_imp_less_exp [rotated]) simp
  then have nq: "10 \<le> nbits q" by simp
  have c1: "1 \<le> nbits c" using bc c by (cases "nbits c") auto
  define E0 where "E0 = nbits q + 53 - nbits c"
  have E0: "int (nbits c) - int (nbits q) - 53 = - int E0" "10 \<le> E0" using nc nq by (simp_all add: E0_def)
  have sc: "scaled c q (- int E0) = (c * 2 ^ E0, q)" by (simp add: scaled_def)
  have low: "2 ^ 52 * q \<le> c * 2 ^ E0"
  proof -
    have "2 ^ 52 * q \<le> 2 ^ 52 * 2 ^ nbits q" using bq by simp
    also have "\<dots> = 2 ^ (nbits c - 1) * 2 ^ E0"
    proof -
      have ex: "52 + nbits q = nbits c - 1 + E0" using c1 nc by (simp add: E0_def)
      show ?thesis by (simp only: power_add [symmetric] ex)
    qed
    also have "\<dots> \<le> c * 2 ^ E0" using bc by simp
    finally show ?thesis .
  qed
  show ?thesis
  proof (cases "c * 2 ^ E0 < 2 ^ 53 * q")
    case True
    then have "double_exp c q = - int E0" using E0 sc by (simp add: double_exp_def Let_def)
    then show ?thesis using low E0 by simp
  next
    case False
    then have de: "double_exp c q = - int (E0 - 1)" using E0 sc by (simp add: double_exp_def Let_def)
    have e: "c * 2 ^ E0 = 2 * (c * 2 ^ (E0 - 1))" using E0(2) by (cases E0) simp_all
    have "2 ^ 52 * q \<le> c * 2 ^ (E0 - 1)" using False unfolding e by simp
    moreover have "nat (int E0 - 1) = E0 - 1" using E0(2) by simp
    ultimately show ?thesis using de E0 by simp
  qed
qed

lemma tenths_double_div:
  assumes c: "0 < c" "c < 2 ^ 53" and v: "0 < v" "2 ^ 9 \<le> 20 * v"
  shows "\<bar>2 * int v * int (tenths (double_div c (20 * v))) - int c\<bar> \<le> int v"
proof -
  define E where "E = nat (- double_exp c (20 * v))"
  have neg: "double_exp c (20 * v) < 0" and low: "2 ^ 52 * (20 * v) \<le> c * 2 ^ E"
    using double_exp_neg [OF c v(2)] by (simp_all add: E_def)
  have eE: "double_exp c (20 * v) = - int E" using neg by (simp add: E_def)
  have E1: "1 \<le> E" using neg by (simp add: E_def)
  define m where "m = rne (c * 2 ^ E) (20 * v)"
  have dd: "double_div c (20 * v) = (m, - int E)"
    by (simp add: double_div_def Let_def eE scaled_def m_def)
  have tn: "tenths (m, - int E) = (10 * m + 2 ^ (E - 1)) div 2 ^ E"
    using E1 by (simp add: tenths_def Let_def)
  have "2 ^ 52 * (20 * v) \<le> c * 2 ^ E" by (rule low)
  also have "c * 2 ^ E < 2 ^ 53 * 2 ^ E" using c(2) by simp
  also have "(2::nat) ^ 53 * 2 ^ E = 2 ^ 52 * (2 * 2 ^ E)" by simp
  finally have "20 * v < 2 * 2 ^ E" by simp
  then have "10 * v < 2 ^ E" by simp
  then have "int (10 * v) < int (2 ^ E)" by (simp only: of_nat_less_iff)
  then have big: "10 * int v < 2 ^ E" by simp
  have err0: "\<bar>2 * (int m * int (20 * v) - int (c * 2 ^ E))\<bar> \<le> int (20 * v)"
    unfolding m_def using v by (intro rne_err) simp
  have err: "\<bar>2 * (int m * (20 * int v) - int c * 2 ^ E)\<bar> \<le> 20 * int v"
    using err0 by simp
  have PH: "(2::int) ^ E = 2 * 2 ^ (E - 1)" using E1 by (cases E) simp_all
  have "\<bar>2 * int v * ((10 * int m + 2 ^ (E - 1)) div 2 ^ E) - int c\<bar> \<le> int v"
    by (rule tenths_err [OF _ PH _ big err]) (use v in simp_all)
  moreover have "int ((10 * m + 2 ^ (E - 1)) div 2 ^ E) = (10 * int m + 2 ^ (E - 1)) div 2 ^ E"
    by (simp add: zdiv_int)
  ultimately show ?thesis by (simp add: dd tn)
qed



text \<open>
  Claim C35: \<open>formatViews\<close> shows a count of a thousand or more to the nearest tenth of
  its unit: the text is \<open>n\<close> tenths of a thousand (K) or of a million (M), and \<open>n\<close> tenths
  is within half a tenth of the count, for every count a double holds exactly. Ties
  (such as \<open>1050000\<close>) go either way, as the binary double decides.
\<close>

theorem formatViews_nearest_tenth:
  assumes "1000 \<le> count" and "count < 2 ^ 53"
  shows "let v = (if 1000000 \<le> count then 50000 else 50);
             unit = (if 1000000 \<le> count then ''M'' else ''K'') in
         \<exists>n. ui_formatViews count = fixed1 n @ unit @ '' views'' \<and> \<bar>2 * v * int n - count\<bar> \<le> v"
proof -
  define c where "c = nat count"
  have c: "count = int c" "0 < c" "c < 2 ^ 53"
    using assms by (simp_all add: c_def nat_less_iff)
  show ?thesis
  proof (cases "1000000 \<le> count")
    case True
    have "\<bar>2 * int 50000 * int (tenths (double_div c (20 * 50000))) - int c\<bar> \<le> int 50000"
      using c by (intro tenths_double_div) simp_all
    then show ?thesis using True c by (simp add: ui_formatViews_def Let_def) blast
  next
    case False
    have "\<bar>2 * int 50 * int (tenths (double_div c (20 * 50))) - int c\<bar> \<le> int 50"
      using c by (intro tenths_double_div) simp_all
    then show ?thesis using False c assms by (simp add: ui_formatViews_def Let_def) blast
  qed
qed

theorem formatViews_nearest_tenth_witness:
  "\<exists>n. ui_formatViews 1234567 = fixed1 n @ ''M'' @ '' views'' \<and> \<bar>100000 * int n - 1234567\<bar> \<le> 50000"
  using formatViews_nearest_tenth [of 1234567] by (simp add: Let_def)

text \<open>
  Claim C36: the switch from K to M is decided before rounding: every count from
  \<open>999951\<close> to \<open>999999\<close> is shown as \<open>1000.0K views\<close>, never as \<open>1.0M views\<close>.
\<close>

theorem formatViews_thousand_K:
  assumes "999951 \<le> count" and "count < 1000000"
  shows "ui_formatViews count = ''1000.0K views''"
proof -
  define c where "c = nat count"
  have c: "count = int c" "0 < c" "c < 2 ^ 53" using assms by (simp_all add: c_def nat_less_iff)
  have "\<bar>2 * int 50 * int (tenths (double_div c (20 * 50))) - int c\<bar> \<le> int 50"
    using c by (intro tenths_double_div) simp_all
  then have "\<bar>100 * int (tenths (double_div c 1000)) - int c\<bar> \<le> 50" by simp
  then have b: "100 * int (tenths (double_div c 1000)) \<le> count + 50"
    "count - 50 \<le> 100 * int (tenths (double_div c 1000))" using c(1) by (simp_all add: abs_le_iff)
  have "\<not> int (tenths (double_div c 1000)) \<le> 9999" using b(2) assms(1) by linarith
  moreover have "\<not> 10001 \<le> int (tenths (double_div c 1000))" using b(1) assms(2) by linarith
  ultimately have t: "tenths (double_div c 1000) = 10000" by linarith
  have "ui_formatViews count = fixed1 (tenths (double_div c 1000)) @ ''K views''"
    using assms by (simp add: ui_formatViews_def c_def)
  then show ?thesis by (simp only: t) (simp add: fixed1_def decimal.simps)
qed

theorem formatViews_thousand_K_witness: "ui_formatViews 999999 = ''1000.0K views''"
  using formatViews_thousand_K [of 999999] by simp

text \<open>
  A completion time in the future (a server clock ahead of the browser's) is shown as
  \<open>Just now\<close>, however far ahead it is.
\<close>

lemma formatDate_future_just_now:
  assumes "parseDate s = Some d" and "now < d + 60000" and "s \<noteq> []"
  shows "ui_formatDate parseDate now localeDate (JStr s) = ''Just now''"
proof -
  have "(now - d) div 60000 \<le> 59999 div 60000"
    using assms(2) by (intro zdiv_mono1) simp_all
  then show ?thesis using assms by (simp add: ui_formatDate_def Let_def)
qed

end
