(* ===== verification/FileSize.thy ===== *)
theory FileSize
  imports Formatting Complex_Main
begin

text \<open>
  \<open>UI.formatFileSize(bytes)\<close> (\<open>src/frontend2/js/ui.js\<close>, lines 288--294) for a numeric
  size, as the backend sends \<open>filesize\<close>. The unit index
  \<open>Math.floor(Math.log(bytes) / Math.log(1024))\<close> is the floor of the logarithm to
  base 1024; \<open>log1024\<close> computes it by repeated division and
  \<open>log1024_floor_log\<close> proves it equal to \<open>nat \<lfloor>log 1024 bytes\<rfloor>\<close>.
  \<open>bytes / Math.pow(1024, i)\<close> divides by a power of two, which is exact on doubles,
  and \<open>toFixed(2)\<close> picks the integer \<open>n\<close> nearest to a hundred times that quotient, the
  larger one on a tie (\<open>hundredths\<close>). \<open>parseFloat\<close> followed by \<open>String\<close> prints the
  double nearest to \<open>n / 100\<close> by the shortest decimal that reads back to it; a
  decimal of at most fifteen significant digits reads back to itself, so this is
  \<open>n / 100\<close> without trailing zeros (\<open>number2\<close>). \<open>sizes[i]\<close> past the fourth unit
  is \<open>undefined\<close>. A negative size makes \<open>Math.log\<close> \<open>NaN\<close>, and \<open>NaN\<close> propagates
  through the index, the quotient and \<open>toFixed\<close>.
\<close>

fun log1024 :: "nat \<Rightarrow> nat" where
  "log1024 n = (if n < 1024 then 0 else Suc (log1024 (n div 1024)))"

declare log1024.simps [simp del]

text \<open>The array \<open>sizes\<close>, and \<open>sizes[i]\<close>: a read past the end gives \<open>undefined\<close>,
  which string concatenation prints as \<open>undefined\<close>.\<close>

definition file_sizes :: "string list" where
  "file_sizes = [''B'', ''KB'', ''MB'', ''GB'']"

definition size_name :: "nat \<Rightarrow> string" where
  "size_name i = (if i < length file_sizes then file_sizes ! i else ''undefined'')"

text \<open>\<open>(b / q).toFixed(2)\<close> as a number of hundredths: the \<open>n\<close> nearest to
  \<open>100 * b / q\<close>, the larger on a tie.\<close>

definition hundredths :: "nat \<Rightarrow> nat \<Rightarrow> nat" where
  "hundredths b q = (200 * b + q) div (2 * q)"

text \<open>\<open>String(parseFloat(s))\<close> for the text \<open>s\<close> of \<open>n\<close> hundredths.\<close>

definition number2 :: "nat \<Rightarrow> string" where
  "number2 n = decimal (n div 100) @
     (if n mod 100 = 0 then []
      else if n mod 10 = 0 then ''.'' @ decimal (n mod 100 div 10)
      else ''.'' @ pad2 (n mod 100))"

definition ui_formatFileSize :: "int \<Rightarrow> string" where
  "ui_formatFileSize bytes =
     (if bytes = 0 then ''0 B''
      else if bytes < 0 then ''NaN undefined''
      else let i = log1024 (nat bytes)
           in number2 (hundredths (nat bytes) (1024 ^ i)) @ '' '' @ size_name i)"

lemma log1024_bounds: "0 < n \<Longrightarrow> 1024 ^ log1024 n \<le> n \<and> n < 1024 ^ Suc (log1024 n)"
proof (induction n rule: log1024.induct)
  case (1 n)
  show ?case
  proof (cases "n < 1024")
    case True
    then show ?thesis using "1.prems" by (simp add: log1024.simps)
  next
    case False
    then have l: "log1024 n = Suc (log1024 (n div 1024))" by (simp add: log1024.simps)
    have "1024 ^ log1024 (n div 1024) \<le> n div 1024 \<and> n div 1024 < 1024 ^ Suc (log1024 (n div 1024))"
      using "1.IH" False by simp
    then show ?thesis unfolding l by (auto simp: less_eq_div_iff_mult_less_eq div_less_iff_less_mult mult.commute)
  qed
qed

lemma log1024_floor_log: "0 < n \<Longrightarrow> log1024 n = nat \<lfloor>log 1024 (real n)\<rfloor>"
  using floor_log_nat_eq_if [of 1024 "log1024 n" n] log1024_bounds [of n] by simp

lemma hundredths_err:
  assumes "0 < q"
  shows "\<bar>200 * int b - 2 * int (hundredths b q) * int q\<bar> \<le> int q"
proof -
  define n where "n = hundredths b q"
  have "n * (2 * q) \<le> 200 * b + q" "200 * b + q < (n + 1) * (2 * q)"
    using assms div_times_less_eq_dividend [of "200 * b + q" "2 * q"]
      dividend_less_div_times [of "2 * q" "200 * b + q"]
    by (simp_all add: n_def hundredths_def)
  then have "int (n * (2 * q)) \<le> int (200 * b + q)" "int (200 * b + q) < int ((n + 1) * (2 * q))"
    by (simp_all only: of_nat_le_iff of_nat_less_iff)
  then show ?thesis by (simp add: n_def abs_le_iff algebra_simps)
qed

subsection \<open>Properties\<close>

lemma formatFileSize_pos:
  "0 < b \<Longrightarrow> ui_formatFileSize (int b) =
     number2 (hundredths b (1024 ^ log1024 b)) @ '' '' @ size_name (log1024 b)"
  by (simp add: ui_formatFileSize_def Let_def)

text \<open>The choice of unit comes before the rounding: sizes just under a mebibyte round
  to \<open>1024\<close> kibibytes.\<close>

lemma formatFileSize_1024_KB:
  assumes "1048571 \<le> bytes" and "bytes < 1048576"
  shows "ui_formatFileSize bytes = ''1024 KB''"
proof -
  define b where "b = nat bytes"
  have b: "bytes = int b" "1048571 \<le> b" "b < 1048576" using assms by (simp_all add: b_def le_nat_iff)
  have "b div 1024 = 1023" using b(2,3) by simp
  then have l: "log1024 b = 1" using b(2) by (simp add: log1024.simps)
  have "hundredths b 1024 = 102400" using b(2,3) by (simp add: hundredths_def)
  then show ?thesis using formatFileSize_pos [of b] b
    by (simp add: l number2_def decimal.simps size_name_def file_sizes_def)
qed

text \<open>
  Claim C37: \<open>formatFileSize\<close> of a positive size uses the unit \<open>i\<close> the source computes
  as \<open>Math.floor(Math.log(bytes) / Math.log(1024))\<close>, so that \<open>1024^i \<le> bytes < 1024^(i+1)\<close>,
  and prints a number \<open>n / 100\<close> between 1 and 1024 that is within half a hundredth of
  \<open>bytes / 1024^i\<close>.
\<close>

theorem formatFileSize_nearest_hundredth:
  assumes "0 < bytes"
  shows "let i = nat \<lfloor>log 1024 (real_of_int bytes)\<rfloor> in
         1024 ^ i \<le> bytes \<and> bytes < 1024 ^ Suc i \<and>
         (\<exists>n. ui_formatFileSize bytes = number2 n @ '' '' @ size_name i \<and>
              100 \<le> n \<and> n \<le> 102400 \<and> \<bar>200 * bytes - 2 * int n * 1024 ^ i\<bar> \<le> 1024 ^ i)"
proof -
  define b where "b = nat bytes"
  have b: "bytes = int b" "0 < b" using assms by (simp_all add: b_def)
  define i where "i = log1024 b"
  have i: "nat \<lfloor>log 1024 (real_of_int bytes)\<rfloor> = i"
    using log1024_floor_log [OF b(2)] by (simp add: b(1) i_def)
  have "1024 ^ i \<le> b" "b < 1024 * 1024 ^ i" using log1024_bounds [OF b(2)] by (simp_all add: i_def)
  then have "int (1024 ^ i) \<le> int b" "int b < int (1024 * 1024 ^ i)"
    by (simp_all only: of_nat_le_iff of_nat_less_iff)
  then have lo: "1024 ^ i \<le> bytes" and hi: "bytes < 1024 * 1024 ^ i" by (simp_all add: b(1))
  define n where "n = hundredths b (1024 ^ i)"
  have err: "\<bar>200 * bytes - 2 * int n * 1024 ^ i\<bar> \<le> 1024 ^ i"
    using hundredths_err [of "1024 ^ i" b] by (simp add: n_def b(1))
  define Q :: int where "Q = 1024 ^ i"
  have q: "0 < Q" by (simp add: Q_def)
  have lo': "Q \<le> bytes" using lo by (simp add: Q_def)
  have e: "200 * bytes - 2 * int n * Q \<le> Q" "2 * int n * Q - 200 * bytes \<le> Q"
    using err by (simp_all add: Q_def abs_le_iff)
  have "(int n * 2) * Q < 204801 * Q" using e hi by (simp add: Q_def [symmetric])
  then have "int n * 2 < 204801" using q by (simp only: mult_less_cancel_right_pos)
  moreover have "199 * Q \<le> (int n * 2) * Q" using e lo' by linarith
  then have "199 \<le> int n * 2" using q by (simp only: mult_le_cancel_right_pos)
  ultimately have range: "100 \<le> n" "n \<le> 102400" by presburger+
  have "ui_formatFileSize bytes = number2 n @ '' '' @ size_name i"
    using formatFileSize_pos [OF b(2)] by (simp add: b(1) n_def i_def)
  then show ?thesis using i lo hi err range by (simp add: Let_def) blast
qed

theorem formatFileSize_nearest_hundredth_witness:
  "let i = nat \<lfloor>log 1024 (real_of_int 1536)\<rfloor> in
   1024 ^ i \<le> (1536::int) \<and> (1536::int) < 1024 ^ Suc i \<and>
   (\<exists>n. ui_formatFileSize 1536 = number2 n @ '' '' @ size_name i \<and>
        100 \<le> n \<and> n \<le> 102400 \<and> \<bar>200 * 1536 - 2 * int n * 1024 ^ i\<bar> \<le> 1024 ^ i)"
  using formatFileSize_nearest_hundredth [of 1536] by simp

text \<open>
  Claim C38: \<open>sizes\<close> stops at \<open>GB\<close>, so every size of a tebibyte (\<open>2^40\<close> bytes) or
  more is printed with the unit \<open>undefined\<close>; \<open>formatFileSize(2^40)\<close> is
  \<open>1 undefined\<close>.
\<close>

theorem formatFileSize_terabyte_undefined:
  assumes "2 ^ 40 \<le> bytes"
  shows "\<exists>n. ui_formatFileSize bytes = number2 n @ '' undefined''"
proof -
  define b where "b = nat bytes"
  have b: "bytes = int b" "2 ^ 40 \<le> b" using assms by (simp_all add: b_def le_nat_iff)
  then have b0: "0 < b" by simp
  have "(1024::nat) ^ 4 < 1024 ^ Suc (log1024 b)" using log1024_bounds [OF b0] b(2) by simp
  then have "4 < Suc (log1024 b)" by (rule power_less_imp_less_exp [rotated]) simp
  then have "size_name (log1024 b) = ''undefined''" by (simp add: size_name_def file_sizes_def)
  then show ?thesis using formatFileSize_pos [OF b0] by (simp add: b(1)) blast
qed

theorem formatFileSize_terabyte_undefined_witness: "ui_formatFileSize (2 ^ 40) = ''1 undefined''"
  using formatFileSize_terabyte_undefined [of "2 ^ 40"]
  by (simp add: ui_formatFileSize_def log1024.simps hundredths_def number2_def decimal.simps
      size_name_def file_sizes_def)

end
