(* ===== verification/Spec2Isabelle.thy ===== *)
theory Spec2Isabelle
  imports Lifecycle History Notices Polling FileSize
begin

text \<open>
  \<^bold>\<open>A verification development of the YouTube downloader's browser client.\<close>

  \<^medskip>\<^bold>\<open>The program.\<close> The client is four browser scripts that share globals:
  \<^item> \<open>CONFIG\<close> (\<open>src/unnamed/part_000\<close>, and a second copy \<open>src/frontend/js/config.js\<close>
    that chooses the backend from the page's host name), a frozen object of constants;
  \<^item> \<open>API\<close> and \<open>ProgressTracker\<close> (\<open>src/frontend2/js/api.js\<close>): one method per backend
    endpoint over \<open>fetch\<close>, and a tracker that polls \<open>/api/progress/<id>\<close> every
    \<open>PROGRESS_POLL_INTERVAL\<close> ms with \<open>setInterval\<close> and reports each status to one of
    three callbacks;
  \<^item> \<open>UI\<close> (\<open>src/frontend2/js/ui.js\<close>): the page, its sections, overlay, toasts and
    progress fields, plus formatting and URL validation;
  \<^item> \<open>App\<close> (\<open>src/unnamed/part_001\<close>): the controller; its listeners call \<open>API\<close>, update
    \<open>UI\<close>, and create and stop trackers in \<open>trackProgress\<close>.

  \<^medskip>\<^bold>\<open>Theories.\<close>
  \<^item> \<open>Prelude\<close>: decimal digits of naturals (\<open>decimal\<close>, \<open>undecimal\<close>), list and map
    lemmas shared by the components, and the collections \<open>model_defs\<close> and
    \<open>rt_simps\<close>.
  \<^item> \<open>Js\<close>: the JavaScript values the program manipulates (\<open>jsval\<close>), thrown errors
    (\<open>js_error\<close>), truthiness, \<open>||\<close>, property reads that throw on \<open>null\<close> and
    \<open>undefined\<close> (\<open>js_get\<close>), \<open>String()\<close>, \<open>textContent\<close>, \<open>trim\<close> and
    \<open>JSON.stringify\<close>.
  \<^item> \<open>Config\<close>: both \<open>CONFIG\<close> objects as constants of a record type.
  \<^item> \<open>Api\<close>: each \<open>API\<close> method as the \<open>request\<close> it sends; \<open>api_response\<close> is the shared
    tail of \<open>API.get\<close> and \<open>API.post\<close>, from what \<open>fetch\<close> produced (\<open>fetch_result\<close>)
    to a value or a thrown \<open>js_error\<close> (the sum \<open>js_error + jsval\<close>);
    \<open>api_post_response\<close> is \<open>API.post\<close>'s own copy of that tail.
  \<^item> \<open>Tracker\<close>: the JavaScript event loop as explicit state, the record \<open>runtime\<close>: a
    heap of trackers (record \<open>tracker\<close>, indexed by \<open>obj_ref\<close>), the live interval
    timers (handle, owner), the status queries in flight (query, owner) and the log of
    sent requests. \<open>tracker_start\<close> and \<open>tracker_stop\<close> translate \<open>start()\<close> and
    \<open>stop()\<close>; \<open>checkProgress()\<close> is split at its \<open>await\<close> into \<open>check_progress\<close> (send
    the query) and \<open>check_progress_done\<close> (classify the settled answer, stop on a
    terminal one, pick the callback); \<open>timer_fire\<close> is one tick of a \<open>setInterval\<close>
    and \<open>poll_settle\<close> the resumption of a query. \<open>tstep\<close> and \<open>trun\<close> run a list of
    such events and record every callback invoked.
  \<^item> \<open>Polling\<close>: the polling loop of one tracker as \<open>poll_loop\<close>, a
    \<open>partial_function (option)\<close> over a server \<open>srv\<close> whose \<open>k\<close>-th answer is
    \<open>srv k\<close>, under the spec's single-flight timing (each tick after the previous
    answer was handled); \<open>None\<close> is a loop that never stops.
  \<^item> \<open>Ui\<close>: the record \<open>ui\<close> of the page state the controller reads and writes, one
    function per \<open>UI\<close> method that changes it (\<open>ui_toast_timeout\<close> is the hide timer
    \<open>showToast\<close> starts), \<open>ui_formatDuration\<close> with its inverse
    \<open>parse_duration\<close>, and \<open>ui_isValidUrl\<close>.
  \<^item> \<open>Notices\<close>: the health check's warning over whole runs (\<open>health_inv\<close>: the
    request table stays well formed, and warnings shown plus health checks in flight
    never exceed one).
  \<^item> \<open>History\<close>: the markup \<open>UI.showHistory\<close> assigns to \<open>innerHTML\<close>
    (\<open>ui_historyHtml\<close>, \<open>history_item_html\<close>) and \<open>UI.escapeHtml\<close> (\<open>ui_escapeHtml\<close>, the
    browser's serialisation of a text node, \<open>escape_html\<close>), with \<open>formatFileSize\<close> and
    \<open>formatDate\<close> as parameters.
  \<^item> \<open>Formatting\<close>: \<open>UI.formatViews\<close> on numeric counts, with the IEEE double
    division \<open>count / 1000\<close> (round to nearest, ties to even) and \<open>toFixed(1)\<close> computed
    exactly on integers (\<open>double_div\<close>, \<open>tenths\<close>); \<open>UI.formatDate\<close> with the date
    parser, the clock and \<open>toLocaleDateString\<close> as parameters.
  \<^item> \<open>FileSize\<close>: \<open>UI.formatFileSize\<close> on numeric sizes: the unit index
    \<open>log1024\<close> (proved equal to \<open>\<lfloor>log 1024 bytes\<rfloor>\<close>, the source's
    \<open>Math.floor(Math.log(bytes) / Math.log(k))\<close>), \<open>toFixed(2)\<close> of the exact quotient
    (\<open>hundredths\<close>), its printing without trailing zeros (\<open>number2\<close>) and the read
    \<open>sizes[i]\<close> (\<open>size_name\<close>).
  \<^item> \<open>App\<close>: the controller's \<open>state\<close> (record \<open>app_state\<close>) in the record \<open>world\<close>,
    which extends \<open>runtime\<close> with the page, the controller's requests in flight (each
    tagged with the \<open>async\<close> method awaiting it) and the log of its requests. Each
    \<open>async\<close> method is split at its \<open>await\<close> (\<open>fetchVideoInfo\<close> and
    \<open>fetchVideoInfo_done\<close>, \<open>startDownload\<close> and \<open>startDownload_done\<close>, likewise
    \<open>loadHistory\<close>, \<open>loadStats\<close>, \<open>manualCleanup\<close>, \<open>checkServerHealth\<close>);
    \<open>trackProgress\<close> and the tracker callbacks (\<open>on_callback\<close>) are as in the source,
    and \<open>app_step\<close> is the event loop: a user action on a listener of
    \<open>setupEventListeners\<close>, a settled request, a timer tick or a settled status query.
    \<open>world_init\<close> is the page after \<open>App.init()\<close>. \<open>feasible\<close> restricts event lists
    to clicks on buttons that are on screen (by the sections \<open>UI.init\<close> groups them
    in), so that the concrete runs are ones a user can produce.
  \<^item> \<open>Lifecycle\<close>: the spec's session lifecycle (section 4.3) as the inductive relation
    \<open>spec_step\<close>, and \<open>lifecycle_of\<close>, the state the page shows (success, error or
    progress section, a download or info request in flight, the info card, else idle).

  \<^medskip>\<^bold>\<open>What is proved.\<close>
  \<^item> Tracker: the runtime stays well formed under every event (\<open>rt_wf\<close>); \<open>start\<close>
    and \<open>stop\<close> meet their contracts; each settled query invokes exactly one callback
    and the tracker keeps polling exactly when it was \<open>onUpdate\<close>; a stopped tracker
    sends nothing more; under the spec's single-flight schedule terminal callbacks are
    delivered at most once (P2); scenarios A and B run as the spec says. Two
    divergences are proved in general form: \<open>stop()\<close> does not silence a query in
    flight (P3), and \<open>setInterval\<close> lets queries overlap so that each one delivers.
  \<^item> Gateway: when a call returns a value and which error it throws otherwise
    (\<open>API.post\<close>'s copy of the response handling equals \<open>API.get\<close>'s); every POST
    body is JSON (\<open>json_value\<close>: no \<open>undefined\<close> left); scenario D's payloads.
  \<^item> Polling: the loop returns exactly when some answer is terminal (termination);
    it has then delivered the progress callbacks and exactly one terminal one, in
    order, and stopped after \<open>n + 1\<close> requests (liveness).
  \<^item> Controller: over every run from page load, at most one timer is live and it
    belongs to \<open>state.progressTracker\<close> (P1; \<open>app_inv\<close> is preserved by \<open>app_step\<close>);
    every \<open>/api/info\<close> and \<open>/api/download\<close> request carries a validated URL
    (\<open>url_inv\<close>); what a successful or failed dispatch does; and concrete runs that
    exhibit the divergences: a superseded tracker's completion links the newer file,
    New Download leaves the tracker running, scenario C polls both ids, a missing
    \<open>download_id\<close> polls \<open>/api/progress/undefined\<close>.
  \<^item> Lifecycle: the page enters SUCCEEDED only through a status query classified
    as completed, and FAILED only through a settled info or download request or a
    status query reporting an error (what the code keeps of P4); the happy path
    follows the spec's transitions; P4 itself fails in a feasible run (IDLE to
    FAILED after New Download).
  \<^item> Notices: the server warning is shown at most once per page, as the spec's
    advisory, one-time health check requires; in every run a visible toast has a hide
    timer pending, so no notice stays up for good (\<open>toast_ok\<close>); but a toast shown
    while an earlier one's hide timer is pending is hidden by that timer, before its
    own duration.
  \<^item> History markup: \<open>escapeHtml\<close> output has no angle brackets and decodes back
    to the text; but it leaves double quotes, so a quote in a file name ends the
    \<open>download\<close> attribute of the history link (attribute injection); the markup
    function fails exactly when the abstract \<open>ui_showHistory\<close> does.
  \<^item> UI: \<open>formatDuration\<close> can be read back; \<open>formatViews\<close> shows every count
    from 1000 to \<open>2^53\<close> to within half a tenth of its unit, but counts from 999,951
    to 999,999 as \<open>1000.0K\<close>; \<open>formatDate\<close> shows future times as \<open>Just now\<close>;
    \<open>formatFileSize\<close> picks the unit \<open>\<lfloor>log 1024 bytes\<rfloor>\<close> and shows the size to the
    nearest hundredth of it, between 1 and 1024, but from \<open>2^40\<close> bytes on the unit is
    \<open>undefined\<close>, and sizes just under a mebibyte show as \<open>1024 KB\<close>. Configuration:
    the two \<open>CONFIG\<close> copies agree on every field but the backend URL.

  \<^medskip>\<^bold>\<open>Choices.\<close> The event loop's nondeterminism (which timer fires, which request
  settles first, with what answer) is the event list, over which the run theorems
  quantify: no fuel or bound is needed, every operation is total, and the only loop
  of the source is a \<open>setInterval\<close>, whose ticks are events. \<open>new URL(url)\<close> is a
  parameter \<open>parses\<close> of the controller, so the theorems hold for every URL parser.
  Timer delays (the poll interval, the 100 ms paste delay) only order events and are
  left to the event list, except that a paste timer exists only after a paste and a
  toast's hide timer only after a toast. The one loop that may not end, polling a server that never reports a terminal status,
  is a \<open>partial_function (option)\<close>; its termination is proved as an equivalence
  with an eventually terminal answer, not assumed. Numbers are the model's integers:
  the counts and times the backend sends are integers, and the double arithmetic on
  them is computed exactly. \<open>Math.log\<close> is only approximated by the language standard;
  the model takes the exact logarithm. The quotient \<open>Math.log(bytes) / Math.log(1024)\<close>
  comes within rounding distance of an integer only at and just below the powers of
  1024; a C-library logarithm gives the exact index there for every size below
  \<open>2^50 - 3\<close>, and above that both indices exceed 3, so the unit printed is the same.

  \<^medskip>\<^bold>\<open>Not modelled.\<close> Logging; the global error handlers (they only log);
  scrolling and focus (no state the program reads). The view count and duration texts
  of the video card: the card keeps the info object, and \<open>formatViews\<close> and
  \<open>formatDuration\<close> are modelled on the numbers the backend sends; on other values they
  convert strings to numbers, whose results (fractions, exponents, hexadecimal) the
  model's integer numbers cannot all hold; the same holds of \<open>formatFileSize\<close> on
  non-numeric values. The parsing and locale printing of dates are parameters of
  \<open>ui_formatDate\<close>. \<open>confirm()\<close> is the boolean of the cleanup event; the initial page
  (\<open>index.html\<close>, not in the repository) is \<open>ui_init\<close>, with empty text fields.
\<close>

end
